theory Spec2Isabelle
  imports Main "HOL-Library.Word" "HOL-Library.Sublist"
begin

unbundle bit_operations_syntax

section \<open>Machine types and constants of \<open>arena.c\<close>\<close>

text \<open>
  The arena manager is modelled for a 64-bit host: \<open>size_t\<close> and a bitmap field are
  64-bit words, \<open>mi_arena_id_t\<close> is a C \<open>int\<close> (32 bits, read with \<open>sint\<close>).
  Sizes, counts, addresses and bit indices that the code never lets wrap are natural
  numbers; the places where a \<open>size_t\<close> can wrap are written with \<open>mod 2 ^ 64\<close>.
  The address \<open>0\<close> is \<open>NULL\<close>.
\<close>

type_synonym size_t = "64 word"
type_synonym mi_arena_id_t = "32 word"
type_synonym mi_bitmap_field_t = "64 word"
type_synonym mi_bitmap_t = "mi_bitmap_field_t list"

text \<open>Modelled from the spec: \<open>MI_SEGMENT_ALIGN\<close> is declared in \<open>mimalloc/types.h\<close>,
  which is not among the sources; the spec fixes \<open>BLOCK_SIZE = 32 MiB = 4 \<times> SEGMENT_ALIGN\<close>.\<close>
definition MI_SEGMENT_ALIGN :: nat where
  "MI_SEGMENT_ALIGN = 8 * 1024 * 1024"

definition MI_ARENA_BLOCK_SIZE :: nat where
  "MI_ARENA_BLOCK_SIZE = 4 * MI_SEGMENT_ALIGN"

definition MI_ARENA_MIN_OBJ_SIZE :: nat where
  "MI_ARENA_MIN_OBJ_SIZE = MI_ARENA_BLOCK_SIZE div 2"

definition MI_MAX_ARENAS :: nat where
  "MI_MAX_ARENAS = 64"

text \<open>Modelled from the spec: \<open>MI_BITMAP_FIELD_BITS\<close> is declared in \<open>bitmap.h\<close>, which is
  not among the sources; the spec gives the machine word width, 64 on a 64-bit host.\<close>
definition MI_BITMAP_FIELD_BITS :: nat where
  "MI_BITMAP_FIELD_BITS = 64"

definition MI_MEMID_OS :: size_t where
  "MI_MEMID_OS = 0"

datatype errno = ENOMEM | EINVAL | EAGAIN

text \<open>Modelled from the spec: \<open>_mi_divide_up\<close> and \<open>_mi_align_up\<close> are declared in
  \<open>mimalloc/internal.h\<close>, which is not among the sources; the spec uses them as the
  ceiling of the quotient and as rounding up to a whole number of blocks.\<close>
definition mi_divide_up :: "nat \<Rightarrow> nat \<Rightarrow> nat" where
  "mi_divide_up sz divider = (sz + divider - 1) div divider"

definition mi_align_up :: "nat \<Rightarrow> nat \<Rightarrow> nat" where
  "mi_align_up sz alignment = mi_divide_up sz alignment * alignment"

text \<open>C's \<open>/\<close> on signed integers truncates towards zero.\<close>
definition c_div :: "int \<Rightarrow> int \<Rightarrow> int" where
  "c_div a b = sgn a * sgn b * (\<bar>a\<bar> div \<bar>b\<bar>)"

section \<open>Arena ids and memory ids\<close>

definition mi_arena_id_index :: "mi_arena_id_t \<Rightarrow> size_t" where
  "mi_arena_id_index arena_id =
     (if sint arena_id \<le> 0 then of_nat MI_MAX_ARENAS else scast (arena_id - 1))"

definition mi_arena_id_create :: "nat \<Rightarrow> mi_arena_id_t" where
  "mi_arena_id_create arena_index = of_nat arena_index + 1"

definition mi_arena_id_none :: mi_arena_id_t where
  "mi_arena_id_none = 0"

definition mi_arena_id_is_suitable :: "mi_arena_id_t \<Rightarrow> bool \<Rightarrow> mi_arena_id_t \<Rightarrow> bool" where
  "mi_arena_id_is_suitable arena_id arena_is_exclusive req_arena_id =
     ((\<not> arena_is_exclusive \<and> req_arena_id = mi_arena_id_none) \<or> arena_id = req_arena_id)"

definition mi_arena_memid_create :: "mi_arena_id_t \<Rightarrow> bool \<Rightarrow> size_t \<Rightarrow> size_t" where
  "mi_arena_memid_create arena_id exclusive bitmap_index =
     push_bit 8 bitmap_index OR ucast ((ucast arena_id :: 8 word) AND 0x7F)
       OR (if exclusive then 0x80 else 0)"

text \<open>The result is the returned flag with the two values stored through the pointers
  \<open>arena_index\<close> and \<open>bitmap_index\<close>.\<close>
definition mi_arena_memid_indices :: "size_t \<Rightarrow> bool \<times> size_t \<times> size_t" where
  "mi_arena_memid_indices arena_memid =
     (let bitmap_index = drop_bit 8 arena_memid;
          arena_id = (ucast (arena_memid AND 0x7F) :: mi_arena_id_t);
          arena_index = mi_arena_id_index arena_id
      in (arena_memid AND 0x80 \<noteq> 0, arena_index, bitmap_index))"

definition mi_arena_memid_is_suitable :: "size_t \<Rightarrow> mi_arena_id_t \<Rightarrow> bool" where
  "mi_arena_memid_is_suitable arena_memid request_arena_id =
     (let arena_id = (ucast (arena_memid AND 0x7F) :: mi_arena_id_t);
          exclusive = (arena_memid AND 0x80 \<noteq> 0)
      in mi_arena_id_is_suitable arena_id exclusive request_arena_id)"

definition mi_arena_is_os_allocated :: "size_t \<Rightarrow> bool" where
  "mi_arena_is_os_allocated arena_memid = (arena_memid = MI_MEMID_OS)"

definition mi_block_count_of_size :: "nat \<Rightarrow> nat" where
  "mi_block_count_of_size sz = mi_divide_up sz MI_ARENA_BLOCK_SIZE"

section \<open>The bitmap primitive\<close>

text \<open>
  Modelled from the spec: \<open>bitmap.h\<close> and \<open>bitmap.c\<close> are not among the sources. The
  spec (section 4.2) describes a bitmap as an array of \<open>N\<close> fields of \<open>FIELD_BITS\<close>
  bits, indexed by a packed (field, bit) pair that is also the block index within the
  arena. A bitmap is the list of its fields, so the list carries the field count that the
  C functions take as a separate argument. The contract says nothing about a run that
  leaves the bitmap: here such bits read as zero and writing them changes nothing.
\<close>

text \<open>Modelled from the spec: the packed (field, bit) index of \<open>bitmap.h\<close>, which is the
  block index within the arena.\<close>
definition mi_bitmap_index_create :: "nat \<Rightarrow> nat \<Rightarrow> nat" where
  "mi_bitmap_index_create idx bitidx = idx * MI_BITMAP_FIELD_BITS + bitidx"

definition mi_bitmap_index_field :: "nat \<Rightarrow> nat" where
  "mi_bitmap_index_field bitmap_idx = bitmap_idx div MI_BITMAP_FIELD_BITS"

definition mi_bitmap_index_bit :: "nat \<Rightarrow> nat" where
  "mi_bitmap_index_bit bitmap_idx = bitmap_idx"

text \<open>Modelled from the spec: reading one bit, writing one bit, writing a run of bits
  and testing a run of bits, the operations in which the contracts of section 4.2 are
  expressed below.\<close>
definition bitmap_bit :: "mi_bitmap_t \<Rightarrow> nat \<Rightarrow> bool" where
  "bitmap_bit bitmap i =
     (mi_bitmap_index_field i < length bitmap
      \<and> bit (bitmap ! mi_bitmap_index_field i) (i mod MI_BITMAP_FIELD_BITS))"

definition bitmap_write :: "mi_bitmap_t \<Rightarrow> nat \<Rightarrow> bool \<Rightarrow> mi_bitmap_t" where
  "bitmap_write bitmap i b =
     (let f = mi_bitmap_index_field i; k = i mod MI_BITMAP_FIELD_BITS
      in if f < length bitmap
         then bitmap[f := (if b then set_bit k (bitmap ! f) else unset_bit k (bitmap ! f))]
         else bitmap)"

primrec bitmap_write_run :: "mi_bitmap_t \<Rightarrow> nat \<Rightarrow> nat \<Rightarrow> bool \<Rightarrow> mi_bitmap_t" where
  "bitmap_write_run bitmap idx 0 b = bitmap"
| "bitmap_write_run bitmap idx (Suc n) b =
     bitmap_write (bitmap_write_run bitmap idx n b) (idx + n) b"

definition bitmap_run_all :: "mi_bitmap_t \<Rightarrow> nat \<Rightarrow> nat \<Rightarrow> bool \<Rightarrow> bool" where
  "bitmap_run_all bitmap idx n b = list_all (\<lambda>i. bitmap_bit bitmap i = b) [idx ..< idx + n]"

text \<open>Modelled from the spec: \<open>claim_across\<close> sets \<open>count\<close> bits starting at \<open>index\<close>; reports whether at least
  one of them was zero before.\<close>
definition mi_bitmap_claim_across :: "mi_bitmap_t \<Rightarrow> nat \<Rightarrow> nat \<Rightarrow> mi_bitmap_t \<times> bool" where
  "mi_bitmap_claim_across bitmap n bitmap_idx =
     (bitmap_write_run bitmap bitmap_idx n True, \<not> bitmap_run_all bitmap bitmap_idx n True)"

text \<open>Modelled from the spec: \<open>claim\<close> has the same contract for a run inside one field (used at registration for
  the leftover bits of the last field).\<close>
definition mi_bitmap_claim :: "mi_bitmap_t \<Rightarrow> nat \<Rightarrow> nat \<Rightarrow> mi_bitmap_t \<times> bool" where
  "mi_bitmap_claim bitmap n bitmap_idx = mi_bitmap_claim_across bitmap n bitmap_idx"

text \<open>Modelled from the spec: \<open>unclaim_across\<close> clears \<open>count\<close> bits; reports whether every one of them was
  set before.\<close>
definition mi_bitmap_unclaim_across :: "mi_bitmap_t \<Rightarrow> nat \<Rightarrow> nat \<Rightarrow> mi_bitmap_t \<times> bool" where
  "mi_bitmap_unclaim_across bitmap n bitmap_idx =
     (bitmap_write_run bitmap bitmap_idx n False, bitmap_run_all bitmap bitmap_idx n True)"

text \<open>Modelled from the spec: \<open>is_claimed_across\<close> reports whether every bit of the run
  is set.\<close>
definition mi_bitmap_is_claimed_across :: "mi_bitmap_t \<Rightarrow> nat \<Rightarrow> nat \<Rightarrow> bool" where
  "mi_bitmap_is_claimed_across bitmap n bitmap_idx = bitmap_run_all bitmap bitmap_idx n True"

text \<open>Modelled from the spec: \<open>try_claim\<close> sets \<open>count\<close> bits at exactly \<open>index\<close>, failing (and changing
  nothing) if any of them was already set.\<close>
definition mi_bitmap_try_claim :: "mi_bitmap_t \<Rightarrow> nat \<Rightarrow> nat \<Rightarrow> mi_bitmap_t option" where
  "mi_bitmap_try_claim bitmap n bitmap_idx =
     (if bitmap_run_all bitmap bitmap_idx n False
      then Some (bitmap_write_run bitmap bitmap_idx n True) else None)"

text \<open>Modelled from the spec: \<open>try_find_from_claim_across\<close> claims the first run of \<open>count\<close> consecutive zero
  bits, the search starting at \<open>start_hint\<close> and wrapping around; all or nothing.\<close>
definition bitmap_run_fits :: "mi_bitmap_t \<Rightarrow> nat \<Rightarrow> nat \<Rightarrow> bool" where
  "bitmap_run_fits bitmap n idx =
     (idx + n \<le> length bitmap * MI_BITMAP_FIELD_BITS \<and> bitmap_run_all bitmap idx n False)"

definition mi_bitmap_try_find_from_claim_across ::
  "mi_bitmap_t \<Rightarrow> nat \<Rightarrow> nat \<Rightarrow> (mi_bitmap_t \<times> nat) option" where
  "mi_bitmap_try_find_from_claim_across bitmap start_hint n =
     (let total = length bitmap * MI_BITMAP_FIELD_BITS;
          candidates = map (\<lambda>k. (start_hint + k) mod total) [0 ..< total]
      in case find (bitmap_run_fits bitmap n) candidates of
           None \<Rightarrow> None
         | Some idx \<Rightarrow> Some (bitmap_write_run bitmap idx n True, idx))"

section \<open>The arena descriptor and the registry\<close>

text \<open>\<open>mi_arena_t\<close>. The field \<open>id\<close> is named \<open>arena_id\<close>. A bitmap pointer that may be
  \<open>NULL\<close> is an option.\<close>
record mi_arena =
  arena_id :: mi_arena_id_t
  exclusive :: bool
  start :: nat
  block_count :: nat
  field_count :: nat
  numa_node :: int
  is_zero_init :: bool
  allow_decommit :: bool
  is_large :: bool
  search_idx :: nat
  purge_expire :: int
  blocks_dirty :: mi_bitmap_t
  blocks_committed :: "mi_bitmap_t option"
  blocks_purge :: "mi_bitmap_t option"
  blocks_inuse :: mi_bitmap_t

text \<open>What the code does to its collaborators, in order: calls of the OS layer, messages,
  and the store to \<open>errno\<close>.\<close>
datatype event =
    Os_commit nat nat
  | Os_decommit nat nat
  | Os_reset nat nat
  | Os_free_aligned nat nat nat nat bool
  | Os_free_ex nat nat bool
  | Os_free_huge_pages nat nat
  | Os_alloc nat
  | Os_alloc_aligned nat nat bool bool
  | Os_alloc_aligned_offset nat nat nat bool bool
  | Os_alloc_huge_os_pages nat int nat
  | Error_message errno
  | Warning_message
  | Verbose_message
  | Set_errno errno

text \<open>The static variables \<open>mi_arenas\<close> and \<open>mi_arena_count\<close>, with the trace of events.
  A slot holds the descriptor its pointer refers to; no two slots share a descriptor.\<close>
record mi_state =
  mi_arenas :: "mi_arena option list"
  mi_arena_count :: nat
  events :: "event list"

text \<open>
  Modelled from the spec: the OS layer, the options, the clock and the preloading flag
  are external collaborators (spec section 6), not among the sources. The environment
  gives their answers: an allocation answers with its address (\<open>0\<close> for \<open>NULL\<close>) and
  the value it stores through its pointer arguments. \<open>os_numa_node_count\<close> is positive.
  \<open>os_alloc_ok\<close> answers the allocation of a descriptor with the given number of bitmap
  fields (the byte size depends on the layout of \<open>mi_arena_t\<close>).
\<close>
record mi_env =
  option_arena_reserve :: nat
  option_arena_purge_delay :: int
  option_reset_decommits :: bool
  option_limit_os_alloc :: bool
  preloading :: bool
  clock_now :: int
  os_numa_node :: int
  os_numa_node_count :: nat
  os_commit_is_zero :: "nat \<Rightarrow> nat \<Rightarrow> bool"
  os_alloc_ok :: "nat \<Rightarrow> bool"
  os_alloc_aligned :: "nat \<Rightarrow> nat \<Rightarrow> bool \<Rightarrow> bool \<Rightarrow> nat \<times> bool"
  os_alloc_aligned_offset :: "nat \<Rightarrow> nat \<Rightarrow> nat \<Rightarrow> bool \<Rightarrow> bool \<Rightarrow> nat \<times> bool"
  os_alloc_huge_os_pages :: "nat \<Rightarrow> int \<Rightarrow> nat \<Rightarrow> nat \<times> nat \<times> nat"

text \<open>The caller's variables behind the pointer arguments \<open>commit\<close>, \<open>large\<close>,
  \<open>is_pinned\<close>, \<open>is_zero\<close> and \<open>memid\<close> of the allocation functions.\<close>
record mi_outs =
  commit :: bool
  large :: bool
  is_pinned :: bool
  is_zero :: bool
  memid :: size_t

text \<open>Undefined behaviour of the C code, made a result of its own.\<close>
datatype fault = Null_bitmap | Null_arena | Arena_index_out_of_bounds | Division_by_zero

section \<open>Allocation in an arena\<close>

text \<open>\<open>mi_arena_alloc\<close>: \<open>None\<close> is the result \<open>false\<close>; otherwise the arena after the
  claim and the index stored through \<open>bitmap_idx\<close>.\<close>
definition mi_arena_alloc :: "mi_arena \<Rightarrow> nat \<Rightarrow> (mi_arena \<times> nat) option" where
  "mi_arena_alloc arena blocks =
     (let idx = search_idx arena
      in case mi_bitmap_try_find_from_claim_across (blocks_inuse arena) idx blocks of
           Some (inuse, bitmap_idx) \<Rightarrow>
             Some (arena\<lparr>blocks_inuse := inuse, search_idx := idx\<rparr>, bitmap_idx)
         | None \<Rightarrow> None)"

text \<open>\<open>mi_arena_alloc_from\<close>: the returned pointer, the arena, the caller's variables
  and the OS calls made.\<close>
definition mi_arena_alloc_from ::
  "mi_env \<Rightarrow> mi_arena \<Rightarrow> nat \<Rightarrow> nat \<Rightarrow> mi_outs \<Rightarrow> mi_arena_id_t
     \<Rightarrow> nat \<times> mi_arena \<times> mi_outs \<times> event list" where
  "mi_arena_alloc_from env arena arena_index needed_bcount outs req_arena_id =
     (if \<not> mi_arena_id_is_suitable (arena_id arena) (exclusive arena) req_arena_id
      then (0, arena, outs, [])
      else case mi_arena_alloc arena needed_bcount of
        None \<Rightarrow> (0, arena, outs, [])
      | Some (arena1, bitmap_index) \<Rightarrow>
          let p = start arena1 + mi_bitmap_index_bit bitmap_index * MI_ARENA_BLOCK_SIZE;
              outs1 = outs\<lparr>memid := mi_arena_memid_create (arena_id arena1) (exclusive arena1)
                                       (of_nat bitmap_index),
                           large := is_large arena1,
                           is_pinned := (is_large arena1 \<or> \<not> allow_decommit arena1)\<rparr>;
              arena2 = (case blocks_purge arena1 of
                          None \<Rightarrow> arena1
                        | Some purge \<Rightarrow> arena1\<lparr>blocks_purge :=
                            Some (fst (mi_bitmap_unclaim_across purge needed_bcount bitmap_index))\<rparr>);
              dirty = mi_bitmap_claim_across (blocks_dirty arena2) needed_bcount bitmap_index;
              arena3 = arena2\<lparr>blocks_dirty := fst dirty\<rparr>;
              outs2 = outs1\<lparr>is_zero := snd dirty\<rparr>
          in case blocks_committed arena3 of
               None \<Rightarrow> (p, arena3, outs2\<lparr>commit := True\<rparr>, [])
             | Some committed \<Rightarrow>
                 if commit outs2 then
                   let claimed = mi_bitmap_claim_across committed needed_bcount bitmap_index;
                       arena4 = arena3\<lparr>blocks_committed := Some (fst claimed)\<rparr>;
                       sz = needed_bcount * MI_ARENA_BLOCK_SIZE
                   in if snd claimed
                      then (p, arena4,
                            (if os_commit_is_zero env p sz then outs2\<lparr>is_zero := True\<rparr> else outs2),
                            [Os_commit p sz])
                      else (p, arena4, outs2, [])
                 else (p, arena3,
                       outs2\<lparr>commit := mi_bitmap_is_claimed_across committed needed_bcount bitmap_index\<rparr>,
                       []))"

text \<open>A load of \<open>mi_arenas[i]\<close>. The array has \<open>MI_MAX_ARENAS\<close> slots and
  \<open>mi_arena_count\<close> never exceeds that (\<open>mi_arena_add\<close>), so the allocation loops, which
  stay below \<open>mi_arena_count\<close>, stay inside the array.\<close>
definition mi_arenas_load :: "mi_state \<Rightarrow> nat \<Rightarrow> mi_arena option" where
  "mi_arenas_load st i = (if i < length (mi_arenas st) then mi_arenas st ! i else None)"

text \<open>The descriptor behind slot \<open>i\<close> after a call that changed it and made OS calls.\<close>
definition mi_arena_store :: "mi_state \<Rightarrow> nat \<Rightarrow> mi_arena \<Rightarrow> event list \<Rightarrow> mi_state" where
  "mi_arena_store st i arena evs =
     st\<lparr>mi_arenas := (mi_arenas st)[i := Some arena], events := events st @ evs\<rparr>"

definition mi_arena_alloc_in ::
  "mi_env \<Rightarrow> mi_state \<Rightarrow> mi_arena_id_t \<Rightarrow> int \<Rightarrow> nat \<Rightarrow> nat \<Rightarrow> mi_outs \<Rightarrow> mi_arena_id_t
     \<Rightarrow> nat \<times> mi_state \<times> mi_outs" where
  "mi_arena_alloc_in env st arena_id' numa_node' sz alignment outs req_arena_id =
     (let max_arena = mi_arena_count st;
          bcount = mi_block_count_of_size sz;
          arena_index = unat (mi_arena_id_index arena_id')
      in if arena_index \<ge> max_arena then (0, st, outs)
         else case mi_arenas_load st arena_index of
           None \<Rightarrow> (0, st, outs)
         | Some arena \<Rightarrow>
             if numa_node arena \<ge> 0 \<and> numa_node arena \<noteq> numa_node' then (0, st, outs)
             else if \<not> large outs \<and> is_large arena then (0, st, outs)
             else case mi_arena_alloc_from env arena arena_index bcount outs req_arena_id of
               (p, arena', outs', evs) \<Rightarrow> (p, mi_arena_store st arena_index arena' evs, outs'))"

text \<open>The two loops of \<open>mi_arena_allocate\<close> over the registry differ in the NUMA test
  only: \<open>local\<close> selects the first loop (NUMA-affine), its negation the second.\<close>
definition numa_accepts :: "bool \<Rightarrow> mi_arena \<Rightarrow> int \<Rightarrow> bool" where
  "numa_accepts local arena numa_node' =
     (if local then numa_node arena < 0 \<or> numa_node arena = numa_node'
      else numa_node arena \<ge> 0 \<and> numa_node arena \<noteq> numa_node')"

function mi_arena_allocate_loop ::
  "mi_env \<Rightarrow> bool \<Rightarrow> int \<Rightarrow> nat \<Rightarrow> mi_arena_id_t \<Rightarrow> nat \<Rightarrow> nat \<Rightarrow> mi_state \<Rightarrow> mi_outs
     \<Rightarrow> nat \<times> mi_state \<times> mi_outs" where
  "mi_arena_allocate_loop env local numa_node' bcount req_arena_id max_arena i st outs =
     (if i < max_arena then
        (case mi_arenas_load st i of
           None \<Rightarrow> (0, st, outs)
         | Some arena \<Rightarrow>
             if numa_accepts local arena numa_node' \<and> (large outs \<or> \<not> is_large arena) then
               (case mi_arena_alloc_from env arena i bcount outs req_arena_id of
                  (p, arena', outs', evs) \<Rightarrow>
                    if p \<noteq> 0 then (p, mi_arena_store st i arena' evs, outs')
                    else mi_arena_allocate_loop env local numa_node' bcount req_arena_id max_arena
                           (Suc i) (mi_arena_store st i arena' evs) outs')
             else mi_arena_allocate_loop env local numa_node' bcount req_arena_id max_arena
                    (Suc i) st outs)
      else (0, st, outs))"
  by pat_completeness auto
termination
  by (relation "measure (\<lambda>(env, local, numa, bcount, req, max_arena, i, st, outs). max_arena - i)")
     auto

declare mi_arena_allocate_loop.simps [simp del]

definition mi_arena_allocate ::
  "mi_env \<Rightarrow> mi_state \<Rightarrow> int \<Rightarrow> nat \<Rightarrow> nat \<Rightarrow> mi_outs \<Rightarrow> mi_arena_id_t
     \<Rightarrow> nat \<times> mi_state \<times> mi_outs" where
  "mi_arena_allocate env st numa_node' sz alignment outs req_arena_id =
     (let max_arena = mi_arena_count st;
          bcount = mi_block_count_of_size sz
      in if max_arena = 0 then (0, st, outs)
         else
           let arena_index = unat (mi_arena_id_index req_arena_id)
           in if arena_index < MI_MAX_ARENAS then
                (case mi_arenas_load st arena_index of
                   None \<Rightarrow> (0, st, outs)
                 | Some arena \<Rightarrow>
                     if (numa_node arena < 0 \<or> numa_node arena = numa_node')
                        \<and> (large outs \<or> \<not> is_large arena) then
                       (case mi_arena_alloc_from env arena arena_index bcount outs req_arena_id of
                          (p, arena', outs', evs) \<Rightarrow>
                            (p, mi_arena_store st arena_index arena' evs, outs'))
                     else (0, st, outs))
              else
                (case mi_arena_allocate_loop env True numa_node' bcount req_arena_id max_arena 0
                        st outs of
                   (p, st1, outs1) \<Rightarrow>
                     if p \<noteq> 0 then (p, st1, outs1)
                     else mi_arena_allocate_loop env False numa_node' bcount req_arena_id
                            max_arena 0 st1 outs1))"

section \<open>Purging\<close>

text \<open>\<open>mi_os_purge\<close>: the returned flag and the OS call made.\<close>
definition mi_os_purge :: "mi_env \<Rightarrow> nat \<Rightarrow> nat \<Rightarrow> bool \<times> event list" where
  "mi_os_purge env p sz =
     (if option_reset_decommits env \<and> \<not> preloading env
      then (True, [Os_decommit p sz])
      else (False, [Os_reset p sz]))"

text \<open>\<open>mi_arena_purge\<close>. Its assertions require both bitmaps; without them the code
  dereferences a null pointer when it updates them.\<close>
definition mi_arena_purge ::
  "mi_env \<Rightarrow> mi_arena \<Rightarrow> nat \<Rightarrow> nat \<Rightarrow> fault + (mi_arena \<times> event list)" where
  "mi_arena_purge env arena bitmap_idx blocks =
     (let sz = blocks * MI_ARENA_BLOCK_SIZE;
          p = start arena + mi_bitmap_index_bit bitmap_idx * MI_ARENA_BLOCK_SIZE;
          purged = mi_os_purge env p sz
      in if fst purged then
           (case blocks_committed arena of
              None \<Rightarrow> Inl Null_bitmap
            | Some committed \<Rightarrow>
                (case blocks_purge arena of
                   None \<Rightarrow> Inl Null_bitmap
                 | Some purge \<Rightarrow>
                     Inr (arena\<lparr>blocks_committed :=
                                   Some (fst (mi_bitmap_unclaim_across committed blocks bitmap_idx)),
                                 blocks_purge :=
                                   Some (fst (mi_bitmap_unclaim_across purge blocks bitmap_idx))\<rparr>,
                          snd purged)))
         else Inr (arena, snd purged))"

definition mi_arena_schedule_purge ::
  "mi_env \<Rightarrow> mi_arena \<Rightarrow> nat \<Rightarrow> nat \<Rightarrow> fault + (mi_arena \<times> event list)" where
  "mi_arena_schedule_purge env arena bitmap_idx blocks =
     (let delay = option_arena_purge_delay env
      in if preloading env \<or> delay = 0 then mi_arena_purge env arena bitmap_idx blocks
         else
           let expire = purge_expire arena;
               arena1 = (if expire \<noteq> 0
                         then arena\<lparr>purge_expire := purge_expire arena + c_div delay 10\<rparr>
                         else arena\<lparr>purge_expire := clock_now env + delay\<rparr>)
           in case blocks_purge arena1 of
                None \<Rightarrow> Inl Null_bitmap
              | Some purge \<Rightarrow>
                  Inr (arena1\<lparr>blocks_purge :=
                                Some (fst (mi_bitmap_claim_across purge blocks bitmap_idx))\<rparr>, []))"

text \<open>The inner loop of \<open>mi_arena_purge_range\<close>: it counts on while
  \<open>(purge & ((size_t)1 << (bitidx + count))) == 1\<close> holds.\<close>
function purge_range_count :: "size_t \<Rightarrow> nat \<Rightarrow> nat \<Rightarrow> nat \<Rightarrow> nat" where
  "purge_range_count purge endidx bitidx n =
     (if bitidx + n < endidx \<and> purge AND push_bit (bitidx + n) 1 = 1
      then purge_range_count purge endidx bitidx (Suc n) else n)"
  by pat_completeness auto
termination
  by (relation "measure (\<lambda>(purge, endidx, bitidx, n). endidx - (bitidx + n))") auto

declare purge_range_count.simps [simp del]

text \<open>The outer loop of \<open>mi_arena_purge_range\<close>, with \<open>all_purged\<close> as it stands.\<close>
function mi_arena_purge_range_loop ::
  "mi_env \<Rightarrow> nat \<Rightarrow> nat \<Rightarrow> nat \<Rightarrow> size_t \<Rightarrow> nat \<Rightarrow> bool \<Rightarrow> mi_arena \<Rightarrow> event list
     \<Rightarrow> fault + (bool \<times> mi_arena \<times> event list)" where
  "mi_arena_purge_range_loop env idx endidx bitlen purge bitidx all_purged arena evs =
     (if bitidx < endidx then
        (let n = purge_range_count purge endidx bitidx 0
         in if n > 0 then
              (case mi_arena_purge env arena (mi_bitmap_index_create idx bitidx) n of
                 Inl f \<Rightarrow> Inl f
               | Inr (arena', evs') \<Rightarrow>
                   mi_arena_purge_range_loop env idx endidx bitlen purge (bitidx + (n + 1))
                     (if n = bitlen then True else all_purged) arena' (evs @ evs'))
            else mi_arena_purge_range_loop env idx endidx bitlen purge (bitidx + (n + 1))
                   all_purged arena evs)
      else Inr (all_purged, arena, evs))"
  by pat_completeness auto
termination
  by (relation "measure (\<lambda>(env, idx, endidx, bitlen, purge, bitidx, all_purged, arena, evs).
                            endidx - bitidx)") auto

declare mi_arena_purge_range_loop.simps [simp del]

definition mi_arena_purge_range ::
  "mi_env \<Rightarrow> mi_arena \<Rightarrow> nat \<Rightarrow> nat \<Rightarrow> nat \<Rightarrow> size_t
     \<Rightarrow> fault + (bool \<times> mi_arena \<times> event list)" where
  "mi_arena_purge_range env arena idx startidx bitlen purge =
     mi_arena_purge_range_loop env idx (startidx + bitlen) bitlen purge startidx False arena []"

text \<open>A load of field \<open>i\<close> of a bitmap of the arena; every bitmap of an arena has
  \<open>field_count\<close> fields and the loops stay below \<open>field_count\<close>.\<close>
definition bitmap_field :: "mi_bitmap_t \<Rightarrow> nat \<Rightarrow> mi_bitmap_field_t" where
  "bitmap_field bitmap i = (if i < length bitmap then bitmap ! i else 0)"

text \<open>In \<open>mi_arena_try_purge\<close>: the length of the run of set purge bits from \<open>bitidx\<close>.\<close>
function try_purge_bitlen :: "size_t \<Rightarrow> nat \<Rightarrow> nat \<Rightarrow> nat" where
  "try_purge_bitlen purge bitidx bitlen =
     (if bitidx + bitlen < MI_BITMAP_FIELD_BITS \<and> purge AND push_bit (bitidx + bitlen) 1 \<noteq> 0
      then try_purge_bitlen purge bitidx (Suc bitlen) else bitlen)"
  by pat_completeness auto
termination
  by (relation "measure (\<lambda>(purge, bitidx, bitlen). MI_BITMAP_FIELD_BITS - (bitidx + bitlen))")
     auto

declare try_purge_bitlen.simps [simp del]

text \<open>In \<open>mi_arena_try_purge\<close>: claim the longest prefix of the run in \<open>blocks_inuse\<close>;
  the result is the length claimed (\<open>0\<close> for none) and the bitmap.\<close>
fun try_purge_claim :: "mi_bitmap_t \<Rightarrow> nat \<Rightarrow> nat \<Rightarrow> nat \<times> mi_bitmap_t" where
  "try_purge_claim inuse 0 bitmap_index = (0, inuse)"
| "try_purge_claim inuse (Suc n) bitmap_index =
     (case mi_bitmap_try_claim inuse (Suc n) bitmap_index of
        Some inuse' \<Rightarrow> (Suc n, inuse')
      | None \<Rightarrow> try_purge_claim inuse n bitmap_index)"

text \<open>The loop of \<open>mi_arena_try_purge\<close> over the bits of field \<open>i\<close>. The variable
  \<open>full_purge\<close> is written and never read, and is left out.\<close>
function mi_arena_try_purge_bits ::
  "mi_env \<Rightarrow> nat \<Rightarrow> nat \<Rightarrow> size_t \<Rightarrow> bool \<Rightarrow> mi_arena \<Rightarrow> event list
     \<Rightarrow> fault + (bool \<times> mi_arena \<times> event list)" where
  "mi_arena_try_purge_bits env i bitidx purge any_purged arena evs =
     (if bitidx < MI_BITMAP_FIELD_BITS then
        (if purge AND push_bit bitidx 1 \<noteq> 0 then
           (let bitlen = try_purge_bitlen purge bitidx 1;
                bitmap_index = mi_bitmap_index_create i bitidx;
                claimed = try_purge_claim (blocks_inuse arena) bitlen bitmap_index;
                arena1 = arena\<lparr>blocks_inuse := snd claimed\<rparr>
            in if fst claimed > 0 then
                 (case blocks_purge arena1 of
                    None \<Rightarrow> Inl Null_bitmap
                  | Some pb \<Rightarrow>
                      let purge' = bitmap_field pb i
                      in case mi_arena_purge_range env arena1 i bitidx (fst claimed) purge' of
                           Inl f \<Rightarrow> Inl f
                         | Inr (full, arena2, evs') \<Rightarrow>
                             mi_arena_try_purge_bits env i (bitidx + fst claimed) purge' True
                               arena2 (evs @ evs'))
               else mi_arena_try_purge_bits env i (bitidx + 1) purge any_purged arena1 evs)
         else mi_arena_try_purge_bits env i (bitidx + 1) purge any_purged arena evs)
      else Inr (any_purged, arena, evs))"
  by pat_completeness auto
termination
  by (relation "measure (\<lambda>(env, i, bitidx, purge, any_purged, arena, evs).
                            MI_BITMAP_FIELD_BITS - bitidx)") auto

declare mi_arena_try_purge_bits.simps [simp del]

text \<open>The loop of \<open>mi_arena_try_purge\<close> over the fields; \<open>nfields\<close> is
  \<open>arena->field_count\<close>, which nothing changes after registration.\<close>
function mi_arena_try_purge_fields ::
  "mi_env \<Rightarrow> nat \<Rightarrow> nat \<Rightarrow> bool \<Rightarrow> mi_arena \<Rightarrow> event list
     \<Rightarrow> fault + (bool \<times> mi_arena \<times> event list)" where
  "mi_arena_try_purge_fields env nfields i any_purged arena evs =
     (if i < nfields then
        (case blocks_purge arena of
           None \<Rightarrow> Inl Null_bitmap
         | Some pb \<Rightarrow>
             let purge = bitmap_field pb i
             in if purge \<noteq> 0 then
                  (case mi_arena_try_purge_bits env i 0 purge any_purged arena evs of
                     Inl f \<Rightarrow> Inl f
                   | Inr (any_purged', arena', evs') \<Rightarrow>
                       mi_arena_try_purge_fields env nfields (Suc i) any_purged' arena' evs')
                else mi_arena_try_purge_fields env nfields (Suc i) any_purged arena evs)
      else Inr (any_purged, arena, evs))"
  by pat_completeness auto
termination
  by (relation "measure (\<lambda>(env, nfields, i, any_purged, arena, evs). nfields - i)") auto

declare mi_arena_try_purge_fields.simps [simp del]

definition mi_arena_try_purge ::
  "mi_env \<Rightarrow> mi_arena \<Rightarrow> int \<Rightarrow> bool \<Rightarrow> fault + (bool \<times> mi_arena \<times> event list)" where
  "mi_arena_try_purge env arena now force =
     (if \<not> allow_decommit arena \<or> blocks_purge arena = None then Inr (False, arena, [])
      else
        let expire = purge_expire arena
        in if expire = 0 then Inr (False, arena, [])
           else if \<not> force \<and> expire > now then Inr (False, arena, [])
           else mi_arena_try_purge_fields env (field_count arena) 0 False
                  (arena\<lparr>purge_expire := 0\<rparr>) [])"

text \<open>Appending to the trace.\<close>
definition emit :: "mi_state \<Rightarrow> event list \<Rightarrow> mi_state" where
  "emit st evs = st\<lparr>events := events st @ evs\<rparr>"

text \<open>The loop of \<open>mi_arenas_try_purge\<close>. A null slot below \<open>mi_arena_count\<close> is
  dereferenced by \<open>mi_arena_try_purge\<close>.\<close>
function mi_arenas_try_purge_loop ::
  "mi_env \<Rightarrow> int \<Rightarrow> bool \<Rightarrow> nat \<Rightarrow> nat \<Rightarrow> nat \<Rightarrow> mi_state \<Rightarrow> fault + mi_state" where
  "mi_arenas_try_purge_loop env now force max_arena i max_purge_count st =
     (if i < max_arena then
        (case mi_arenas_load st i of
           None \<Rightarrow> Inl Null_arena
         | Some arena \<Rightarrow>
             (case mi_arena_try_purge env arena now force of
                Inl f \<Rightarrow> Inl f
              | Inr (purged, arena', evs) \<Rightarrow>
                  if purged then
                    (if max_purge_count \<le> 1 then Inr (mi_arena_store st i arena' evs)
                     else mi_arenas_try_purge_loop env now force max_arena (Suc i)
                            (max_purge_count - 1) (mi_arena_store st i arena' evs))
                  else mi_arenas_try_purge_loop env now force max_arena (Suc i)
                         max_purge_count (mi_arena_store st i arena' evs)))
      else Inr st)"
  by pat_completeness auto
termination
  by (relation "measure (\<lambda>(env, now, force, max_arena, i, max_purge_count, st). max_arena - i)")
     auto

declare mi_arenas_try_purge_loop.simps [simp del]

text \<open>\<open>mi_arenas_try_purge\<close>. The guard \<open>purge_guard\<close> is free between calls, so a
  sequential call always enters the guarded block.\<close>
definition mi_arenas_try_purge :: "mi_env \<Rightarrow> mi_state \<Rightarrow> bool \<Rightarrow> bool \<Rightarrow> fault + mi_state" where
  "mi_arenas_try_purge env st force visit_all =
     (let delay = option_arena_purge_delay env
      in if preloading env \<or> delay = 0 then Inr st
         else
           let max_arena = mi_arena_count st
           in if max_arena = 0 then Inr st
              else mi_arenas_try_purge_loop env (clock_now env) force max_arena 0
                     (if visit_all then max_arena else 1) st)"

section \<open>Arena free\<close>

text \<open>\<open>_mi_arena_free\<close>. The load of \<open>mi_arenas[arena_idx]\<close> is guarded by an assertion
  only; an index at or beyond \<open>MI_MAX_ARENAS\<close> reads outside the array.\<close>
definition mi_arena_free ::
  "mi_env \<Rightarrow> mi_state \<Rightarrow> nat \<Rightarrow> nat \<Rightarrow> nat \<Rightarrow> nat \<Rightarrow> size_t \<Rightarrow> bool \<Rightarrow> fault + mi_state" where
  "mi_arena_free env st p sz alignment align_offset memid' all_committed =
     (if p = 0 then Inr st
      else if sz = 0 then Inr st
      else if memid' = MI_MEMID_OS
      then Inr (emit st [Os_free_aligned p sz alignment align_offset all_committed])
      else
        let indices = mi_arena_memid_indices memid';
            arena_idx = unat (fst (snd indices));
            bitmap_idx = unat (snd (snd indices))
        in if arena_idx \<ge> MI_MAX_ARENAS then Inl Arena_index_out_of_bounds
           else
             let blocks = mi_block_count_of_size sz
             in case mi_arenas_load st arena_idx of
                  None \<Rightarrow> Inr (emit st [Error_message EINVAL])
                | Some arena \<Rightarrow>
                    if field_count arena \<le> mi_bitmap_index_field bitmap_idx
                    then Inr (emit st [Error_message EINVAL])
                    else
                      (case (if \<not> allow_decommit arena \<or> blocks_committed arena = None
                             then Inr (arena, [])
                             else mi_arena_schedule_purge env arena bitmap_idx blocks) of
                         Inl f \<Rightarrow> Inl f
                       | Inr (arena1, evs) \<Rightarrow>
                           let unclaimed = mi_bitmap_unclaim_across (blocks_inuse arena1) blocks
                                             bitmap_idx;
                               st1 = mi_arena_store st arena_idx
                                       (arena1\<lparr>blocks_inuse := fst unclaimed\<rparr>) evs
                           in if \<not> snd unclaimed then Inr (emit st1 [Error_message EAGAIN])
                              else Inr st1))"

section \<open>Adding an arena\<close>

text \<open>\<open>mi_arena_add\<close>: the returned flag, the value stored through \<open>arena_id\<close> (\<open>-1\<close>
  on failure) and the registry. The count is incremented first and restored on failure.\<close>
definition mi_arena_add :: "mi_state \<Rightarrow> mi_arena \<Rightarrow> bool \<times> mi_arena_id_t \<times> mi_state" where
  "mi_arena_add st arena =
     (let i = mi_arena_count st
      in if i \<ge> MI_MAX_ARENAS then (False, - 1, st)
         else
           let arena' = arena\<lparr>arena_id := mi_arena_id_create i\<rparr>
           in (True, arena_id arena',
               st\<lparr>mi_arenas := (mi_arenas st)[i := Some arena'], mi_arena_count := Suc i\<rparr>))"

definition mi_manage_os_memory_ex ::
  "mi_env \<Rightarrow> mi_state \<Rightarrow> nat \<Rightarrow> nat \<Rightarrow> bool \<Rightarrow> bool \<Rightarrow> bool \<Rightarrow> int \<Rightarrow> bool
     \<Rightarrow> bool \<times> mi_arena_id_t \<times> mi_state" where
  "mi_manage_os_memory_ex env st start' sz is_committed is_large' is_zero' numa_node' exclusive' =
     (if sz < MI_ARENA_BLOCK_SIZE then (False, mi_arena_id_none, st)
      else
        let is_committed1 = (if is_large' then True else is_committed);
            allow_decommit' = (\<not> is_large' \<and> \<not> is_committed1);
            bcount = sz div MI_ARENA_BLOCK_SIZE;
            nfields = mi_divide_up bcount MI_BITMAP_FIELD_BITS;
            bitmaps = (if allow_decommit' then 4 else 2 :: nat);
            st1 = emit st [Os_alloc (bitmaps * nfields)]
        in if \<not> os_alloc_ok env (bitmaps * nfields) then (False, mi_arena_id_none, st1)
           else
             let committed0 = (if \<not> allow_decommit' then None else Some (replicate nfields 0));
                 arena = \<lparr> arena_id = mi_arena_id_none, exclusive = exclusive', start = start',
                           block_count = bcount, field_count = nfields, numa_node = numa_node',
                           is_zero_init = is_zero', allow_decommit = allow_decommit',
                           is_large = is_large', search_idx = 0, purge_expire = 0,
                           blocks_dirty = replicate nfields 0,
                           blocks_committed =
                             (if committed0 \<noteq> None \<and> is_committed1
                              then Some (replicate nfields (- 1)) else committed0),
                           blocks_purge =
                             (if \<not> allow_decommit' then None else Some (replicate nfields 0)),
                           blocks_inuse = replicate nfields 0 \<rparr>;
                 post = nfields * MI_BITMAP_FIELD_BITS - bcount;
                 arena1 = (if post > 0
                           then arena\<lparr>blocks_inuse :=
                                  fst (mi_bitmap_claim (blocks_inuse arena) post
                                         (mi_bitmap_index_create (nfields - 1)
                                            (MI_BITMAP_FIELD_BITS - post)))\<rparr>
                           else arena)
             in mi_arena_add st1 arena1)"

text \<open>\<open>mi_reserve_os_memory_ex\<close>: \<open>None\<close> is the result \<open>0\<close>.\<close>
definition mi_reserve_os_memory_ex ::
  "mi_env \<Rightarrow> mi_state \<Rightarrow> nat \<Rightarrow> bool \<Rightarrow> bool \<Rightarrow> bool \<Rightarrow> errno option \<times> mi_arena_id_t \<times> mi_state" where
  "mi_reserve_os_memory_ex env st sz commit' allow_large exclusive' =
     (let sz1 = mi_align_up sz MI_ARENA_BLOCK_SIZE;
          os = os_alloc_aligned env sz1 MI_SEGMENT_ALIGN commit' allow_large;
          st1 = emit st [Os_alloc_aligned sz1 MI_SEGMENT_ALIGN commit' allow_large]
      in if fst os = 0 then (Some ENOMEM, mi_arena_id_none, st1)
         else case mi_manage_os_memory_ex env st1 (fst os) sz1 (snd os \<or> commit') (snd os) True
                     (- 1) exclusive' of
           (ok, aid, st2) \<Rightarrow>
             if \<not> ok
             then (Some ENOMEM, aid, emit st2 [Os_free_ex (fst os) sz1 commit', Verbose_message])
             else (None, aid, emit st2 [Verbose_message]))"

section \<open>Allocation with fallback to the OS\<close>

text \<open>The last part of \<open>_mi_arena_alloc_aligned\<close> (from the comment
  ``finally, fall back to the OS'').\<close>
definition mi_arena_alloc_aligned_os ::
  "mi_env \<Rightarrow> mi_state \<Rightarrow> nat \<Rightarrow> nat \<Rightarrow> nat \<Rightarrow> mi_outs \<Rightarrow> mi_arena_id_t
     \<Rightarrow> nat \<times> mi_state \<times> mi_outs" where
  "mi_arena_alloc_aligned_os env st sz alignment align_offset outs req_arena_id =
     (if option_limit_os_alloc env \<or> req_arena_id \<noteq> mi_arena_id_none
      then (0, emit st [Set_errno ENOMEM], outs)
      else
        let outs1 = outs\<lparr>is_zero := True, memid := MI_MEMID_OS\<rparr>;
            os = os_alloc_aligned_offset env sz alignment align_offset (commit outs1) (large outs1);
            st1 = emit st [Os_alloc_aligned_offset sz alignment align_offset (commit outs1)
                             (large outs1)];
            outs2 = outs1\<lparr>large := snd os\<rparr>
        in (fst os, st1, (if fst os \<noteq> 0 then outs2\<lparr>is_pinned := large outs2\<rparr> else outs2)))"

text \<open>\<open>_mi_arena_alloc_aligned\<close>. A caller that passes \<open>large = NULL\<close> is the caller
  with \<open>large outs = False\<close> that ignores the value returned in it.\<close>
definition mi_arena_alloc_aligned ::
  "mi_env \<Rightarrow> mi_state \<Rightarrow> nat \<Rightarrow> nat \<Rightarrow> nat \<Rightarrow> mi_outs \<Rightarrow> mi_arena_id_t
     \<Rightarrow> nat \<times> mi_state \<times> mi_outs" where
  "mi_arena_alloc_aligned env st sz alignment align_offset outs req_arena_id =
     (let outs0 = outs\<lparr>memid := MI_MEMID_OS, is_zero := False, is_pinned := False\<rparr>;
          numa_node' = os_numa_node env
      in if sz \<ge> MI_ARENA_MIN_OBJ_SIZE \<and> alignment \<le> MI_SEGMENT_ALIGN \<and> align_offset = 0 then
           (case mi_arena_allocate env st numa_node' sz alignment outs0 req_arena_id of
              (p, st1, outs1) \<Rightarrow>
                if p \<noteq> 0 then (p, st1, outs1)
                else
                  let eager_reserve = mi_align_up (option_arena_reserve env) MI_ARENA_BLOCK_SIZE
                  in if eager_reserve > 0 \<and> eager_reserve \<ge> sz
                        \<and> req_arena_id = mi_arena_id_none
                        \<and> mi_arena_count st1 < 3 * (MI_MAX_ARENAS div 4) then
                       (case mi_reserve_os_memory_ex env st1 eager_reserve False (large outs1)
                               False of
                          (err, aid, st2) \<Rightarrow>
                            if err = None then
                              (case mi_arena_alloc_in env st2 aid numa_node' sz alignment outs1
                                      req_arena_id of
                                 (p', st3, outs3) \<Rightarrow>
                                   if p' \<noteq> 0 then (p', st3, outs3)
                                   else mi_arena_alloc_aligned_os env st3 sz alignment align_offset
                                          outs3 req_arena_id)
                            else mi_arena_alloc_aligned_os env st2 sz alignment align_offset outs1
                                   req_arena_id)
                     else mi_arena_alloc_aligned_os env st1 sz alignment align_offset outs1
                            req_arena_id)
         else mi_arena_alloc_aligned_os env st sz alignment align_offset outs0 req_arena_id)"

text \<open>\<open>_mi_arena_alloc\<close>; the name without the underscore is taken by the static
  \<open>mi_arena_alloc\<close> above.\<close>
definition mi_arena_alloc_plain ::
  "mi_env \<Rightarrow> mi_state \<Rightarrow> nat \<Rightarrow> mi_outs \<Rightarrow> mi_arena_id_t \<Rightarrow> nat \<times> mi_state \<times> mi_outs" where
  "mi_arena_alloc_plain env st sz outs req_arena_id =
     mi_arena_alloc_aligned env st sz MI_ARENA_BLOCK_SIZE 0 outs req_arena_id"

section \<open>Reserving huge pages\<close>

text \<open>In \<open>mi_reserve_huge_os_pages_at_ex\<close>: the two statements that normalise
  \<open>numa_node\<close> before the OS is asked. The remainder is taken in \<open>size_t\<close>, with the
  value of \<open>_mi_os_numa_node_count()\<close> as the divisor: the count 0 is a division by
  zero. The remainder of a non-negative \<open>int\<close> is at most that \<open>int\<close>, so storing it
  back into \<open>numa_node\<close> keeps its value.\<close>
definition huge_numa_node :: "mi_env \<Rightarrow> int \<Rightarrow> fault + int" where
  "huge_numa_node env numa_node' =
     (let numa1 = (if numa_node' < - 1 then - 1 else numa_node')
      in if numa1 \<ge> 0
         then (if os_numa_node_count env = 0 then Inl Division_by_zero
               else Inr (numa1 mod int (os_numa_node_count env)))
         else Inr numa1)"

definition mi_reserve_huge_os_pages_at_ex ::
  "mi_env \<Rightarrow> mi_state \<Rightarrow> nat \<Rightarrow> int \<Rightarrow> nat \<Rightarrow> bool
     \<Rightarrow> fault + (errno option \<times> mi_arena_id_t \<times> mi_state)" where
  "mi_reserve_huge_os_pages_at_ex env st pages numa_node' timeout_msecs exclusive' =
     (if pages = 0 then Inr (None, - 1, st)
      else case huge_numa_node env numa_node' of
        Inl f \<Rightarrow> Inl f
      | Inr numa2 \<Rightarrow>
        let os = os_alloc_huge_os_pages env pages numa2 timeout_msecs;
            p = fst os; pages_reserved = fst (snd os); hsize = snd (snd os);
            st1 = emit st [Os_alloc_huge_os_pages pages numa2 timeout_msecs]
        in if p = 0 \<or> pages_reserved = 0 then Inr (Some ENOMEM, - 1, emit st1 [Warning_message])
           else case mi_manage_os_memory_ex env (emit st1 [Verbose_message]) p hsize True True True
                       numa2 exclusive' of
             (ok, aid, st2) \<Rightarrow>
               if \<not> ok then Inr (Some ENOMEM, aid, emit st2 [Os_free_huge_pages p hsize])
               else Inr (None, aid, st2))"

definition mi_reserve_huge_os_pages_at ::
  "mi_env \<Rightarrow> mi_state \<Rightarrow> nat \<Rightarrow> int \<Rightarrow> nat \<Rightarrow> fault + (errno option \<times> mi_state)" where
  "mi_reserve_huge_os_pages_at env st pages numa_node' timeout_msecs =
     (case mi_reserve_huge_os_pages_at_ex env st pages numa_node' timeout_msecs False of
        Inl f \<Rightarrow> Inl f
      | Inr (err, aid, st') \<Rightarrow> Inr (err, st'))"

text \<open>The loop of \<open>mi_reserve_huge_os_pages_interleave\<close>; \<open>(int)numa_node\<close> is the
  conversion of a \<open>size_t\<close> to a 32-bit \<open>int\<close>.\<close>
function mi_reserve_huge_os_pages_interleave_loop ::
  "mi_env \<Rightarrow> nat \<Rightarrow> nat \<Rightarrow> nat \<Rightarrow> nat \<Rightarrow> nat \<Rightarrow> nat \<Rightarrow> mi_state
     \<Rightarrow> fault + (errno option \<times> mi_state)" where
  "mi_reserve_huge_os_pages_interleave_loop env numa_count pages_per pages_mod timeout_per
       numa_node' pages st =
     (if numa_node' < numa_count \<and> pages > 0 then
        (let node_pages = (if numa_node' < pages_mod then pages_per + 1 else pages_per)
         in case mi_reserve_huge_os_pages_at env st node_pages
                   (sint (word_of_nat numa_node' :: 32 word)) timeout_per of
              Inl f \<Rightarrow> Inl f
            | Inr (err, st') \<Rightarrow>
                if err \<noteq> None then Inr (err, st')
                else mi_reserve_huge_os_pages_interleave_loop env numa_count pages_per pages_mod
                       timeout_per (Suc numa_node')
                       (if pages < node_pages then 0 else pages - node_pages) st')
      else Inr (None, st))"
  by pat_completeness auto
termination
  by (relation "measure (\<lambda>(env, numa_count, pages_per, pages_mod, timeout_per, numa_node', pages,
                             st). numa_count - numa_node')") auto

declare mi_reserve_huge_os_pages_interleave_loop.simps [simp del]

definition mi_reserve_huge_os_pages_interleave ::
  "mi_env \<Rightarrow> mi_state \<Rightarrow> nat \<Rightarrow> nat \<Rightarrow> nat \<Rightarrow> fault + (errno option \<times> mi_state)" where
  "mi_reserve_huge_os_pages_interleave env st pages numa_nodes timeout_msecs =
     (if pages = 0 then Inr (None, st)
      else
        let numa_count0 = (if numa_nodes > 0 then numa_nodes else os_numa_node_count env);
            numa_count = (if numa_count0 \<le> 0 then 1 else numa_count0);
            pages_per = pages div numa_count;
            pages_mod = pages mod numa_count;
            timeout_per = (if timeout_msecs = 0 then 0
                           else (timeout_msecs div numa_count + 50) mod 2 ^ 64)
        in mi_reserve_huge_os_pages_interleave_loop env numa_count pages_per pages_mod timeout_per
             0 pages st)"

section \<open>Sample inputs\<close>

text \<open>An environment: purge delay 100 ms, purging decommits, the clock at 1000 ms, one
  NUMA node, every OS allocation succeeds; a huge-page reservation returns \<open>pages\<close>
  regions of 2 GiB.\<close>
definition env0 :: mi_env where
  "env0 = \<lparr> option_arena_reserve = 0, option_arena_purge_delay = 100,
            option_reset_decommits = True, option_limit_os_alloc = False,
            preloading = False, clock_now = 1000, os_numa_node = 0, os_numa_node_count = 1,
            os_commit_is_zero = (\<lambda>p sz. True), os_alloc_ok = (\<lambda>n. True),
            os_alloc_aligned = (\<lambda>sz al c l. (8589934592, False)),
            os_alloc_aligned_offset = (\<lambda>sz al off c l. (17179869184, False)),
            os_alloc_huge_os_pages = (\<lambda>pages node t. (1099511627776, pages, pages * 2147483648)) \<rparr>"

text \<open>The registry before any arena is added.\<close>
definition st0 :: mi_state where
  "st0 = \<lparr> mi_arenas = replicate MI_MAX_ARENAS None, mi_arena_count = 0, events = [] \<rparr>"

definition outs0 :: mi_outs where
  "outs0 = \<lparr> commit = True, large = False, is_pinned = False, is_zero = False, memid = 0 \<rparr>"

text \<open>The descriptor of scenario 1 of the spec: 256 MiB (8 blocks) at address \<open>2^32\<close>,
  uncommitted, not exclusive, any NUMA node, as \<open>mi_manage_os_memory_ex\<close> registers it
  in slot 0: the bits 8 to 63 of the only field of \<open>blocks_inuse\<close> are set.\<close>
definition arena8 :: mi_arena where
  "arena8 = \<lparr> arena_id = 1, exclusive = False, start = 4294967296, block_count = 8,
              field_count = 1, numa_node = - 1, is_zero_init = True, allow_decommit = True,
              is_large = False, search_idx = 0, purge_expire = 0, blocks_dirty = [0],
              blocks_committed = Some [0], blocks_purge = Some [0],
              blocks_inuse = [0xFFFFFFFFFFFFFF00] \<rparr>"

definition st8 :: mi_state where
  "st8 = \<lparr> mi_arenas = (replicate MI_MAX_ARENAS None)[0 := Some arena8], mi_arena_count = 1,
           events = [Os_alloc 4] \<rparr>"

text \<open>The descriptor \<open>arena8\<close> with the blocks 1 and 2 pending purge.\<close>
definition arena_p6 :: mi_arena where
  "arena_p6 = arena8\<lparr>blocks_purge := Some [6]\<rparr>"

text \<open>\<open>arena8\<close> after block 0 is claimed, and after the blocks 1 and 2 are claimed
  too.\<close>
definition arena8_a :: mi_arena where
  "arena8_a = arena8\<lparr>blocks_inuse := [0xFFFFFFFFFFFFFF01]\<rparr>"

definition arena8_b :: mi_arena where
  "arena8_b = arena8\<lparr>blocks_inuse := [0xFFFFFFFFFFFFFF07]\<rparr>"

text \<open>\<open>env0\<close> during preloading.\<close>
definition env_preloading :: mi_env where
  "env_preloading = env0\<lparr>preloading := True\<rparr>"

text \<open>The huge-page requests in a trace: pages, node and timeout of each call of
  \<open>_mi_os_alloc_huge_os_pages\<close>, in order.\<close>
fun huge_requests :: "event list \<Rightarrow> (nat \<times> int \<times> nat) list" where
  "huge_requests [] = []"
| "huge_requests (Os_alloc_huge_os_pages pages node t # evs) = (pages, node, t) # huge_requests evs"
| "huge_requests (e # evs) = huge_requests evs"

text \<open>The spec's description of \<open>reserve_huge_pages_interleave\<close>: node \<open>i\<close> is
  asked for \<open>pages_per\<close> pages, and one more if it is among the first \<open>pages_mod\<close>
  nodes.\<close>
definition interleave_node_pages :: "nat \<Rightarrow> nat \<Rightarrow> nat \<Rightarrow> nat" where
  "interleave_node_pages pages_per pages_mod i = (if i < pages_mod then pages_per + 1 else pages_per)"

text \<open>The reservations that description asks for, for the nodes from \<open>k\<close> on, in order:
  pages, node and timeout of each; a node with no pages is not asked.\<close>
definition interleave_calls ::
  "nat \<Rightarrow> nat \<Rightarrow> nat \<Rightarrow> nat \<Rightarrow> nat \<Rightarrow> (nat \<times> int \<times> nat) list" where
  "interleave_calls numa_count pages_per pages_mod timeout_per k =
     map (\<lambda>i. (interleave_node_pages pages_per pages_mod i,
               sint (word_of_nat i :: 32 word), timeout_per))
       (filter (\<lambda>i. 0 < interleave_node_pages pages_per pages_mod i) [k ..< numa_count])"

text \<open>Reservations made one after the other with \<open>mi_reserve_huge_os_pages_at\<close>, up to
  and including the first that fails; the result is the error of that one, and 0 when
  none fails.\<close>
fun reserve_in_order ::
  "mi_env \<Rightarrow> (nat \<times> int \<times> nat) list \<Rightarrow> mi_state \<Rightarrow> fault + (errno option \<times> mi_state)" where
  "reserve_in_order env [] st = Inr (None, st)"
| "reserve_in_order env ((pages, node, t) # calls) st =
     (case mi_reserve_huge_os_pages_at env st pages node t of
        Inl f \<Rightarrow> Inl f
      | Inr (err, st') \<Rightarrow> if err \<noteq> None then Inr (err, st') else reserve_in_order env calls st')"

text \<open>The request that reaches \<open>_mi_os_alloc_huge_os_pages\<close> for a reservation: a
  negative node is the node -1 (any node), another one is taken modulo the number of
  nodes.\<close>
definition os_request :: "mi_env \<Rightarrow> nat \<times> int \<times> nat \<Rightarrow> nat \<times> int \<times> nat" where
  "os_request env c =
     (case c of (pages, node, t) \<Rightarrow>
        (pages, if node < 0 then - 1 else node mod int (os_numa_node_count env), t))"

text \<open>The number of nodes \<open>mi_reserve_huge_os_pages_interleave\<close> spreads over.\<close>
definition interleave_numa_count :: "mi_env \<Rightarrow> nat \<Rightarrow> nat" where
  "interleave_numa_count env numa_nodes =
     (if numa_nodes > 0 then numa_nodes
      else if os_numa_node_count env = 0 then 1 else os_numa_node_count env)"

text \<open>\<open>env0\<close> with two NUMA nodes, of which node 1 has no huge pages to give.\<close>
definition env_node1_fails :: mi_env where
  "env_node1_fails =
     env0\<lparr>os_numa_node_count := 2,
          os_alloc_huge_os_pages :=
            (\<lambda>pages node t. if node = 1 then (0, 0, 0)
                             else (1099511627776, pages, pages * 2147483648))\<rparr>"

text \<open>\<open>env0\<close> with the option \<open>arena_reserve\<close> set (to 1 byte, rounded up to one
  block), and the caller's variables after the first allocation of scenario 1.\<close>
definition env_reserve :: mi_env where
  "env_reserve = env0\<lparr>option_arena_reserve := 1\<rparr>"

definition outs_a :: mi_outs where
  "outs_a = \<lparr> commit = True, large = False, is_pinned = False, is_zero = True, memid = 1 \<rparr>"

text \<open>Invariant 4 of the spec for one arena: every bit of \<open>blocks_inuse\<close> from
  \<open>block_count\<close> to the end of the last field is set; and for every arena of the
  registry.\<close>
definition trailing_claimed :: "mi_arena \<Rightarrow> bool" where
  "trailing_claimed arena =
     list_all (bitmap_bit (blocks_inuse arena))
       [block_count arena ..< field_count arena * MI_BITMAP_FIELD_BITS]"

definition registry_trailing_claimed :: "mi_state \<Rightarrow> bool" where
  "registry_trailing_claimed st =
     list_all (\<lambda>slot. case slot of None \<Rightarrow> True | Some arena \<Rightarrow> trailing_claimed arena)
       (mi_arenas st)"

text \<open>An operation keeps the sizes of the arena and clears no bit of \<open>blocks_inuse\<close>.\<close>
definition inuse_kept :: "mi_arena \<Rightarrow> mi_arena \<Rightarrow> bool" where
  "inuse_kept arena arena' \<longleftrightarrow>
     block_count arena' = block_count arena \<and> field_count arena' = field_count arena
     \<and> (\<forall>i. bitmap_bit (blocks_inuse arena) i \<longrightarrow> bitmap_bit (blocks_inuse arena') i)"

text \<open>\<open>st8\<close> after a free with the memory id \<open>0x801\<close> (arena 1, block index 8, one
  block): bit 8 of \<open>blocks_inuse\<close> is clear.\<close>
definition arena8_bad :: mi_arena where
  "arena8_bad = arena8\<lparr>purge_expire := 1100, blocks_purge := Some [256],
                        blocks_inuse := [0xFFFFFFFFFFFFFE00]\<rparr>"

definition st8_bad :: mi_state where
  "st8_bad = st8\<lparr>mi_arenas := (replicate MI_MAX_ARENAS None)[0 := Some arena8_bad]\<rparr>"

text \<open>\<open>st8\<close> after a free of block 0, which was not in use.\<close>
definition st8_freed :: mi_state where
  "st8_freed = st8\<lparr>mi_arenas := (replicate MI_MAX_ARENAS None)
                                     [0 := Some (arena8\<lparr>purge_expire := 1100,
                                                        blocks_purge := Some [1]\<rparr>)],
                    events := [Os_alloc 4, Error_message EAGAIN]\<rparr>"

section \<open>Memory ids: encoding and decoding\<close>

lemma word_0x7F: "(0x7F :: 'a::len word) = mask 7"
  by (simp add: mask_eq_exp_minus_1)

lemma bit_0x80: "bit (0x80 :: size_t) k \<longleftrightarrow> k = 7"
proof -
  have "bit (2 ^ 7 :: size_t) k \<longleftrightarrow> k = 7"
    unfolding bit_exp_iff by auto
  then show ?thesis by simp
qed

lemma bit_0x7F: "bit (0x7F :: size_t) k \<longleftrightarrow> k < 7"
proof -
  have "bit (mask 7 :: size_t) k \<longleftrightarrow> k < 7"
    unfolding bit_mask_iff by auto
  then show ?thesis by (simp add: mask_eq_exp_minus_1)
qed

lemma bit_int_0x80: "bit (0x80 :: int) k \<longleftrightarrow> k = 7"
proof -
  have "bit (2 ^ 7 :: int) k \<longleftrightarrow> k = 7"
    unfolding bit_exp_iff by auto
  then show ?thesis by simp
qed

lemma bit_int_0x7F: "bit (0x7F :: int) k \<longleftrightarrow> k < 7"
proof -
  have "bit (mask 7 :: int) k \<longleftrightarrow> k < 7"
    unfolding bit_mask_iff by auto
  then show ?thesis by (simp add: mask_eq_exp_minus_1)
qed

lemmas bit_consts = bit_0x80 bit_0x7F bit_int_0x80 bit_int_0x7F

lemma word_less_exp_bit:
  fixes w :: "'a::len word"
  assumes "w < 2 ^ m" "bit w k"
  shows "k < m"
proof -
  have "w AND mask m = w" using assms(1) by (rule less_mask_eq)
  then have "bit (w AND mask m) k" using assms(2) by simp
  then show ?thesis by (simp add: bit_and_iff bit_mask_iff)
qed

text \<open>An id between 1 and 127 is a small natural number.\<close>
lemma arena_id_as_nat:
  assumes "1 \<le> sint (i :: mi_arena_id_t)" "sint i \<le> 127"
  shows "\<exists>n. i = of_nat n \<and> 1 \<le> n \<and> n < 128"
proof -
  let ?n = "nat (sint i)"
  have "(of_nat ?n :: mi_arena_id_t) = of_int (sint i)" using assms by simp
  then have "i = of_nat ?n" by simp
  moreover have "1 \<le> ?n" "?n < 128" using assms by auto
  ultimately show ?thesis by blast
qed

lemma id_field:
  assumes "n < 128"
  shows "(ucast ((ucast (of_nat n :: mi_arena_id_t) :: 8 word) AND 0x7F) :: size_t) = of_nat n"
proof -
  have "(ucast (of_nat n :: mi_arena_id_t) :: 8 word) = of_nat n"
    using assms by (simp add: unsigned_of_nat take_bit_nat_eq_self)
  moreover have "(of_nat n :: 8 word) < 2 ^ 7"
    using assms by (simp add: word_less_nat_alt unat_of_nat)
  then have "(of_nat n :: 8 word) AND 0x7F = of_nat n"
    unfolding word_0x7F by (rule less_mask_eq)
  moreover have "(ucast (of_nat n :: 8 word) :: size_t) = of_nat n"
    using assms by (simp add: unsigned_of_nat take_bit_nat_eq_self)
  ultimately show ?thesis by simp
qed

lemma memid_create_of_nat:
  assumes "n < 128"
  shows "mi_arena_memid_create (of_nat n) e idx
           = push_bit 8 idx OR of_nat n OR (if e then 0x80 else 0)"
  by (simp add: mi_arena_memid_create_def id_field [OF assms])

lemma of_nat_less_128:
  assumes "n < 128"
  shows "(of_nat n :: size_t) < 2 ^ 7"
  using assms by (simp add: word_less_nat_alt unat_of_nat)

lemma decode_index:
  fixes w idx :: size_t
  assumes "w < 2 ^ 7" "idx < 2 ^ 56"
  shows "drop_bit 8 (push_bit 8 idx OR w OR (if e then 0x80 else 0)) = idx"
proof (rule bit_word_eqI)
  fix k assume k: "k < LENGTH(64)"
  have a: "\<not> bit w (8 + k)" using word_less_exp_bit [OF assms(1), of "8 + k"] by auto
  have b: "bit idx k \<Longrightarrow> k < 56" using word_less_exp_bit [OF assms(2), of k] by simp
  show "bit (drop_bit 8 (push_bit 8 idx OR w OR (if e then 0x80 else 0))) k = bit idx k"
    using a b k by (cases e) (auto simp add: bit_drop_bit_eq bit_or_iff bit_push_bit_iff bit_consts)
qed

lemma decode_id:
  fixes w idx :: size_t
  assumes "w < 2 ^ 7"
  shows "(push_bit 8 idx OR w OR (if e then 0x80 else 0)) AND 0x7F = w"
proof (rule bit_word_eqI)
  fix k assume "k < LENGTH(64)"
  have a: "bit w k \<Longrightarrow> k < 7" using word_less_exp_bit [OF assms(1), of k] by simp
  show "bit ((push_bit 8 idx OR w OR (if e then 0x80 else 0)) AND 0x7F) k = bit w k"
    using a by (cases e) (auto simp add: bit_and_iff bit_or_iff bit_push_bit_iff bit_consts)
qed

lemma decode_excl:
  fixes w idx :: size_t
  assumes "w < 2 ^ 7"
  shows "((push_bit 8 idx OR w OR (if e then 0x80 else 0)) AND 0x80 \<noteq> 0) = e"
proof -
  have "(push_bit 8 idx OR w OR (if e then 0x80 else 0)) AND 0x80 = (if e then 0x80 else 0)"
  proof (rule bit_word_eqI)
    fix k assume "k < LENGTH(64)"
    have a: "bit w k \<Longrightarrow> k < 7" using word_less_exp_bit [OF assms(1), of k] by simp
    show "bit ((push_bit 8 idx OR w OR (if e then 0x80 else 0)) AND 0x80) k
            = bit (if e then 0x80 else 0 :: size_t) k"
      using a by (cases e) (auto simp add: bit_and_iff bit_or_iff bit_push_bit_iff bit_consts)
  qed
  then show ?thesis by simp
qed

lemma id_index_of_nat:
  assumes "1 \<le> n" "n < 128"
  shows "mi_arena_id_index (ucast (of_nat n :: size_t)) = of_nat (n - 1)"
proof -
  have a: "(ucast (of_nat n :: size_t) :: mi_arena_id_t) = of_nat n"
    using assms by (simp add: unsigned_of_nat take_bit_nat_eq_self)
  have b: "sint (of_nat n :: mi_arena_id_t) = int n"
    using assms by (simp add: signed_of_nat signed_take_bit_int_eq_self)
  have c: "(of_nat n :: mi_arena_id_t) - 1 = of_nat (n - 1)" using assms by simp
  have "(scast (of_nat (n - 1) :: mi_arena_id_t) :: size_t) = of_nat (n - 1)"
    using assms by (simp add: signed_of_nat signed_take_bit_int_eq_self del: of_nat_diff)
  then have d: "(scast ((of_nat n :: mi_arena_id_t) - 1) :: size_t) = of_nat (n - 1)"
    by (simp only: c)
  show ?thesis using assms unfolding mi_arena_id_index_def a b d by simp
qed

text \<open>
  Claim C3. For every arena id between 1 and 127, every exclusive flag and every bitmap
  index below \<open>2^56\<close> (the word width less 8 bits), decoding the memory id that
  \<open>mi_arena_memid_create\<close> builds gives back the triple: the returned flag is the
  exclusive flag, the arena index is the id less one, the bitmap index is the index.
\<close>
theorem memid_roundtrip:
  assumes "1 \<le> sint arena_id'" "sint arena_id' \<le> 127" "bitmap_index < 2 ^ 56"
  shows "mi_arena_memid_indices (mi_arena_memid_create arena_id' exclusive' bitmap_index)
           = (exclusive', of_int (sint arena_id' - 1), bitmap_index)"
proof -
  obtain n where n: "arena_id' = of_nat n" "1 \<le> n" "n < 128"
    using arena_id_as_nat [OF assms(1,2)] by blast
  let ?w = "of_nat n :: size_t"
  have w: "?w < 2 ^ 7" using n(3) by (rule of_nat_less_128)
  have m: "mi_arena_memid_create arena_id' exclusive' bitmap_index
             = push_bit 8 bitmap_index OR ?w OR (if exclusive' then 0x80 else 0)"
    unfolding n(1) by (rule memid_create_of_nat [OF n(3)])
  have s: "sint arena_id' = int n"
    unfolding n(1) using n by (simp add: signed_of_nat signed_take_bit_int_eq_self)
  have i: "(of_int (sint arena_id' - 1) :: size_t) = of_nat (n - 1)"
    unfolding s using n(2) by (simp add: of_nat_diff)
  show ?thesis
    unfolding m mi_arena_memid_indices_def Let_def decode_index [OF w assms(3)] decode_id [OF w]
      decode_excl [OF w] id_index_of_nat [OF n(2,3)] i by simp
qed

theorem memid_roundtrip_witness:
  "1 \<le> sint (5 :: mi_arena_id_t) \<and> sint (5 :: mi_arena_id_t) \<le> 127 \<and> (77 :: size_t) < 2 ^ 56
   \<and> mi_arena_memid_indices (mi_arena_memid_create 5 True 77) = (True, 4, 77)"
  using memid_roundtrip [of 5 77 True] by simp

text \<open>
  Claim C10. For every arena id between 1 and 127, every exclusive flag and every bitmap
  index, the memory id built by \<open>mi_arena_memid_create\<close> carries the id in its low 7
  bits and is not \<open>MI_MEMID_OS\<close>, so \<open>_mi_arena_is_os_allocated\<close> answers no for it.
\<close>
theorem memid_create_not_os:
  assumes "1 \<le> sint arena_id'" "sint arena_id' \<le> 127"
  shows "mi_arena_memid_create arena_id' exclusive' bitmap_index AND 0x7F = ucast arena_id'
         \<and> mi_arena_memid_create arena_id' exclusive' bitmap_index \<noteq> MI_MEMID_OS
         \<and> \<not> mi_arena_is_os_allocated (mi_arena_memid_create arena_id' exclusive' bitmap_index)"
proof -
  obtain n where n: "arena_id' = of_nat n" "1 \<le> n" "n < 128"
    using arena_id_as_nat [OF assms(1,2)] by blast
  let ?w = "of_nat n :: size_t"
  let ?m = "mi_arena_memid_create arena_id' exclusive' bitmap_index"
  have w: "?w < 2 ^ 7" using n(3) by (rule of_nat_less_128)
  have m: "?m = push_bit 8 bitmap_index OR ?w OR (if exclusive' then 0x80 else 0)"
    unfolding n(1) by (rule memid_create_of_nat [OF n(3)])
  have low: "?m AND 0x7F = ?w" unfolding m by (rule decode_id [OF w])
  have u: "(ucast arena_id' :: size_t) = ?w"
    unfolding n(1) using n(3) by (simp add: unsigned_of_nat take_bit_nat_eq_self)
  have "unat ?w = n" using n(3) by (simp add: unat_of_nat)
  then have nz: "?w \<noteq> 0" using n(2) by auto
  have "?m \<noteq> 0"
  proof
    assume "?m = 0"
    then have "?m AND 0x7F = 0" by simp
    with low nz show False by simp
  qed
  then show ?thesis
    using low u by (simp add: MI_MEMID_OS_def mi_arena_is_os_allocated_def)
qed

theorem memid_create_not_os_witness:
  "1 \<le> sint (64 :: mi_arena_id_t) \<and> sint (64 :: mi_arena_id_t) \<le> 127
   \<and> mi_arena_memid_create 64 False 0 = 64
   \<and> mi_arena_memid_create 64 False 0 \<noteq> MI_MEMID_OS
   \<and> \<not> mi_arena_is_os_allocated (mi_arena_memid_create 64 False 0)"
  using memid_create_not_os [of 64 False 0]
  by (simp add: mi_arena_memid_create_def)

section \<open>Purging a range\<close>

lemma and_bit_eq_1:
  fixes w :: size_t
  assumes "w AND push_bit k 1 = 1"
  shows "k = 0"
proof -
  have "bit (w AND push_bit k 1) 0" using assms by simp
  then show ?thesis by (auto simp add: bit_and_iff bit_push_bit_iff bit_exp_iff)
qed

lemma purge_range_count_pos:
  assumes "0 < bitidx"
  shows "purge_range_count purge endidx bitidx 0 = 0"
proof -
  have "purge AND push_bit (bitidx + 0) 1 \<noteq> 1"
    using and_bit_eq_1 [of purge "bitidx + 0"] assms by auto
  then show ?thesis by (subst purge_range_count.simps) simp
qed

lemma purge_range_loop_pos:
  assumes "0 < bitidx"
  shows "mi_arena_purge_range_loop env idx endidx bitlen purge bitidx all_purged arena evs
           = Inr (all_purged, arena, evs)"
  using assms
proof (induction env idx endidx bitlen purge bitidx all_purged arena evs
         rule: mi_arena_purge_range_loop.induct)
  case (1 env idx endidx bitlen purge bitidx all_purged arena evs)
  have c: "purge_range_count purge endidx bitidx 0 = 0"
    using "1.prems" by (rule purge_range_count_pos)
  show ?case
  proof (cases "bitidx < endidx")
    case True
    have "mi_arena_purge_range_loop env idx endidx bitlen purge (bitidx + (0 + 1)) all_purged
            arena evs = Inr (all_purged, arena, evs)"
      using "1.IH"(2) [OF True refl] c by simp
    then show ?thesis
      using True c by (subst mi_arena_purge_range_loop.simps) simp
  next
    case False
    then show ?thesis by (subst mi_arena_purge_range_loop.simps) simp
  qed
qed

text \<open>The test \<open>== 1\<close> holds for bit 0 only: a range that does not start at bit 0 of
  its field is left as it is, whatever \<open>purge\<close> holds.\<close>
lemma purge_range_not_from_bit0:
  assumes "0 < startidx"
  shows "mi_arena_purge_range env arena idx startidx bitlen purge = Inr (False, arena, [])"
  unfolding mi_arena_purge_range_def using assms by (rule purge_range_loop_pos)

text \<open>
  Claim C2 (the code differs). The claim: a block is pending iff its bit in \<open>purge\<close>
  is nonzero, each maximal run of pending blocks in the range is purged once, and the
  result is true iff the whole range was one run. The code at \<open>purge = 6\<close> (the blocks
  1 and 2 pending) and the range of these two blocks: no purge is issued, no bitmap
  changes, the result is false.
\<close>
theorem purge_range_skips_set_bits:
  "mi_arena_purge_range env0 arena_p6 0 1 2 6 = Inr (False, arena_p6, [])"
  by (rule purge_range_not_from_bit0) simp

section \<open>Properties of the bitmap primitive\<close>

lemma length_bitmap_write [simp]: "length (bitmap_write bitmap i b) = length bitmap"
  by (simp add: bitmap_write_def Let_def)

lemma length_bitmap_write_run [simp]: "length (bitmap_write_run bitmap idx n b) = length bitmap"
  by (induction n) simp_all

lemma index_split_eq:
  "(j div MI_BITMAP_FIELD_BITS = i div MI_BITMAP_FIELD_BITS
      \<and> j mod MI_BITMAP_FIELD_BITS = i mod MI_BITMAP_FIELD_BITS) \<longleftrightarrow> j = i"
  by (metis div_mult_mod_eq)

lemma bitmap_bit_write:
  "bitmap_bit (bitmap_write bitmap i b) j
     = (if j = i \<and> mi_bitmap_index_field i < length bitmap then b else bitmap_bit bitmap j)"
proof (cases "mi_bitmap_index_field i < length bitmap")
  case False
  then show ?thesis by (simp add: bitmap_write_def Let_def)
next
  case True
  have k: "i mod MI_BITMAP_FIELD_BITS < 64" by (simp add: MI_BITMAP_FIELD_BITS_def)
  show ?thesis
  proof (cases "mi_bitmap_index_field j = mi_bitmap_index_field i")
    case False
    then have "j \<noteq> i" by auto
    with False True show ?thesis
      by (simp add: bitmap_write_def bitmap_bit_def Let_def)
  next
    case same: True
    show ?thesis
    proof (cases "j mod MI_BITMAP_FIELD_BITS = i mod MI_BITMAP_FIELD_BITS")
      case True
      then have "j = i" using same index_split_eq [of j i] by (simp add: mi_bitmap_index_field_def)
      with \<open>mi_bitmap_index_field i < length bitmap\<close> k show ?thesis
        by (simp add: bitmap_write_def bitmap_bit_def Let_def bit_set_bit_iff bit_unset_bit_iff)
    next
      case False
      then have "j \<noteq> i" by auto
      with False same \<open>mi_bitmap_index_field i < length bitmap\<close> show ?thesis
        by (auto simp add: bitmap_write_def bitmap_bit_def Let_def bit_set_bit_iff bit_unset_bit_iff)
    qed
  qed
qed

lemma bitmap_bit_write_run:
  "bitmap_bit (bitmap_write_run bitmap idx n b) j
     = (if idx \<le> j \<and> j < idx + n \<and> mi_bitmap_index_field j < length bitmap
        then b else bitmap_bit bitmap j)"
proof (induction n)
  case 0
  then show ?case by auto
next
  case (Suc n)
  show ?case
  proof (cases "j = idx + n")
    case True
    then show ?thesis using Suc by (simp add: bitmap_bit_write)
  next
    case False
    then have "j < idx + Suc n \<longleftrightarrow> j < idx + n" by auto
    with False show ?thesis by (simp add: bitmap_bit_write Suc)
  qed
qed

lemma bitmap_run_all_iff:
  "bitmap_run_all bitmap idx n b \<longleftrightarrow> (\<forall>i. idx \<le> i \<and> i < idx + n \<longrightarrow> bitmap_bit bitmap i = b)"
  by (auto simp add: bitmap_run_all_def list_all_iff)

section \<open>The search hint of an arena\<close>

lemma try_find_first:
  assumes "k < length bitmap * MI_BITMAP_FIELD_BITS"
    and "bitmap_run_fits bitmap n ((start_hint + k) mod (length bitmap * MI_BITMAP_FIELD_BITS))"
    and "\<forall>k'<k. \<not> bitmap_run_fits bitmap n
                     ((start_hint + k') mod (length bitmap * MI_BITMAP_FIELD_BITS))"
  shows "mi_bitmap_try_find_from_claim_across bitmap start_hint n
           = Some (bitmap_write_run bitmap
                     ((start_hint + k) mod (length bitmap * MI_BITMAP_FIELD_BITS)) n True,
                   (start_hint + k) mod (length bitmap * MI_BITMAP_FIELD_BITS))"
proof -
  let ?total = "length bitmap * MI_BITMAP_FIELD_BITS"
  let ?xs = "map (\<lambda>k. (start_hint + k) mod ?total) [0 ..< ?total]"
  have "find (bitmap_run_fits bitmap n) ?xs = Some ((start_hint + k) mod ?total)"
    unfolding find_Some_iff
    using assms by (intro exI [of _ k]) simp
  then show ?thesis
    by (simp add: mi_bitmap_try_find_from_claim_across_def Let_def)
qed

text \<open>\<open>mi_arena_alloc\<close> stores the value of \<open>search_idx\<close> that it loaded: a
  successful claim leaves the hint as it was.\<close>
lemma mi_arena_alloc_search_idx:
  assumes "mi_arena_alloc arena blocks = Some (arena', bitmap_idx)"
  shows "search_idx arena' = search_idx arena"
  using assms by (auto simp add: mi_arena_alloc_def Let_def split: option.splits)

lemma fits_a: "bitmap_run_fits [0xFFFFFFFFFFFFFF00] 1 0"
  by code_simp
lemma fits_b0: "\<not> bitmap_run_fits [0xFFFFFFFFFFFFFF01] 2 0"
  by code_simp
lemma fits_b1: "bitmap_run_fits [0xFFFFFFFFFFFFFF01] 2 1"
  by code_simp
lemma write_a: "bitmap_write_run [0xFFFFFFFFFFFFFF00] 0 1 True = [0xFFFFFFFFFFFFFF01]"
  by code_simp
lemma write_b: "bitmap_write_run [0xFFFFFFFFFFFFFF01] 1 2 True = [0xFFFFFFFFFFFFFF07]"
  by code_simp

lemma find_a:
  "mi_bitmap_try_find_from_claim_across [0xFFFFFFFFFFFFFF00] 0 (Suc 0)
     = Some ([0xFFFFFFFFFFFFFF01], 0)"
  using try_find_first [of 0 "[0xFFFFFFFFFFFFFF00]" 1 0] fits_a write_a
  by (simp add: MI_BITMAP_FIELD_BITS_def)

lemma find_b:
  "mi_bitmap_try_find_from_claim_across [0xFFFFFFFFFFFFFF01] 0 2 = Some ([0xFFFFFFFFFFFFFF07], 1)"
  using try_find_first [of 1 "[0xFFFFFFFFFFFFFF01]" 2 0] fits_b0 fits_b1 write_b
  by (simp add: MI_BITMAP_FIELD_BITS_def)

text \<open>
  Claim C1 (the code differs). The claim: after a successful claim \<open>search_idx\<close> is
  the start of the claimed run, so after the second allocation of scenario 2 of the spec
  it is 1. The code in scenario 2: the first allocation claims block 0, the second claims
  the blocks 1 and 2 (its run starts at index 1), and \<open>search_idx\<close> is still 0.
\<close>
theorem search_idx_unchanged_scenario2:
  "mi_arena_alloc arena8 1 = Some (arena8_a, 0)
   \<and> mi_arena_alloc arena8_a 2 = Some (arena8_b, 1)
   \<and> search_idx arena8_b = 0"
  by (simp add: mi_arena_alloc_def arena8_def arena8_a_def arena8_b_def find_a find_b)

section \<open>Scheduling a purge\<close>

text \<open>
  Claim C5. \<open>mi_arena_schedule_purge\<close>: during preloading, or when the option
  \<open>arena_purge_delay\<close> is 0, the run is purged at once by \<open>mi_arena_purge\<close>.
  Otherwise \<open>purge_expire\<close> becomes \<open>now + delay\<close> if it was 0 and grows by
  \<open>delay / 10\<close> if it was not, and then the bits of the run are set in
  \<open>blocks_purge\<close> (the other bits keep their value; nothing else changes).
\<close>
theorem schedule_purge_cases:
  "(preloading env \<or> option_arena_purge_delay env = 0 \<longrightarrow>
      mi_arena_schedule_purge env arena bitmap_idx blocks
        = mi_arena_purge env arena bitmap_idx blocks)
   \<and> (\<not> preloading env \<and> option_arena_purge_delay env \<noteq> 0 \<and> blocks_purge arena = Some purge \<longrightarrow>
      mi_arena_schedule_purge env arena bitmap_idx blocks
        = Inr (arena\<lparr>purge_expire :=
                        (if purge_expire arena = 0
                         then clock_now env + option_arena_purge_delay env
                         else purge_expire arena + c_div (option_arena_purge_delay env) 10),
                      blocks_purge := Some (bitmap_write_run purge bitmap_idx blocks True)\<rparr>, [])
      \<and> (\<forall>i. bitmap_idx \<le> i \<and> i < bitmap_idx + blocks \<and> mi_bitmap_index_field i < length purge
             \<longrightarrow> bitmap_bit (bitmap_write_run purge bitmap_idx blocks True) i)
      \<and> (\<forall>i. \<not> (bitmap_idx \<le> i \<and> i < bitmap_idx + blocks)
             \<longrightarrow> bitmap_bit (bitmap_write_run purge bitmap_idx blocks True) i = bitmap_bit purge i))"
  by (auto simp add: mi_arena_schedule_purge_def Let_def mi_bitmap_claim_across_def
        bitmap_bit_write_run)

lemma write_p: "bitmap_write_run [0] (Suc 0) 2 True = [6]"
  by code_simp

theorem schedule_purge_cases_witness:
  "preloading env_preloading
   \<and> mi_arena_schedule_purge env_preloading arena8 1 2 = mi_arena_purge env_preloading arena8 1 2
   \<and> mi_arena_purge env_preloading arena8 1 2 = Inr (arena8, [Os_reset 4328521728 67108864])
   \<and> \<not> preloading env0 \<and> option_arena_purge_delay env0 \<noteq> 0 \<and> blocks_purge arena8 = Some [0]
   \<and> mi_arena_schedule_purge env0 arena8 1 2
        = Inr (arena8\<lparr>purge_expire := 1100, blocks_purge := Some [6]\<rparr>, [])
   \<and> mi_arena_schedule_purge env0 (arena8\<lparr>purge_expire := 1100, blocks_purge := Some [6]\<rparr>) 1 2
        = Inr (arena8\<lparr>purge_expire := 1110, blocks_purge := Some [6]\<rparr>, [])"
proof -
  have w6: "bitmap_write_run [6] (Suc 0) 2 True = [6]" by code_simp
  have a: "mi_arena_schedule_purge env_preloading arena8 1 2 = mi_arena_purge env_preloading arena8 1 2"
    using schedule_purge_cases [of env_preloading arena8 1 2 "[0]"]
    by (simp add: env_preloading_def)
  have b: "mi_arena_schedule_purge env0 arena8 1 2
        = Inr (arena8\<lparr>purge_expire := 1100, blocks_purge := Some [6]\<rparr>, [])"
    using schedule_purge_cases [of env0 arena8 1 2 "[0]"]
    by (simp add: env0_def arena8_def write_p)
  have c: "mi_arena_schedule_purge env0 (arena8\<lparr>purge_expire := 1100, blocks_purge := Some [6]\<rparr>) 1 2
        = Inr (arena8\<lparr>purge_expire := 1110, blocks_purge := Some [6]\<rparr>, [])"
    using schedule_purge_cases [of env0 "arena8\<lparr>purge_expire := 1100, blocks_purge := Some [6]\<rparr>" 1 2 "[6]"]
    by (simp add: env0_def arena8_def w6 c_div_def)
  have d: "mi_arena_purge env_preloading arena8 1 2 = Inr (arena8, [Os_reset 4328521728 67108864])"
    by (simp add: mi_arena_purge_def mi_os_purge_def env_preloading_def env0_def arena8_def
          mi_bitmap_index_bit_def MI_ARENA_BLOCK_SIZE_def MI_SEGMENT_ALIGN_def)
  show ?thesis using a b c d by (simp add: env_preloading_def env0_def arena8_def)
qed

section \<open>Freeing with a memory id that names no block\<close>

text \<open>
  Claim C4 (amended). For a call of \<open>_mi_arena_free\<close> with a non-null pointer, a
  nonzero size and a nonzero memory id whose decoded arena index is below
  \<open>MI_MAX_ARENAS\<close>: if the slot holds no descriptor, or the field of the decoded bitmap
  index is not below the arena's \<open>field_count\<close>, the call reports \<open>EINVAL\<close> and
  changes nothing else: the registry with every descriptor is as before.
\<close>
theorem free_invalid_memid:
  assumes "p \<noteq> 0" and "sz \<noteq> 0" and "memid' \<noteq> MI_MEMID_OS"
    and "mi_arena_memid_indices memid' = (excl, arena_index, bitmap_index)"
    and "unat arena_index < MI_MAX_ARENAS"
    and "mi_arenas_load st (unat arena_index) = None
         \<or> (\<exists>arena. mi_arenas_load st (unat arena_index) = Some arena
                \<and> field_count arena \<le> mi_bitmap_index_field (unat bitmap_index))"
  shows "mi_arena_free env st p sz alignment align_offset memid' all_committed
           = Inr (st\<lparr>events := events st @ [Error_message EINVAL]\<rparr>)"
  using assms by (auto simp add: mi_arena_free_def Let_def emit_def)

lemma indices_2: "mi_arena_memid_indices 2 = (False, 1, 0)"
  by (simp add: mi_arena_memid_indices_def mi_arena_id_index_def)

lemma indices_0x4001: "mi_arena_memid_indices 0x4001 = (False, 0, 64)"
  by (simp add: mi_arena_memid_indices_def mi_arena_id_index_def MI_MAX_ARENAS_def)

lemma st8_load_0: "mi_arenas_load st8 0 = Some arena8"
  by (simp add: mi_arenas_load_def st8_def MI_MAX_ARENAS_def)

lemma st8_load_1: "mi_arenas_load st8 (Suc 0) = None"
  by (simp add: mi_arenas_load_def st8_def MI_MAX_ARENAS_def)

theorem free_invalid_memid_witness:
  "mi_arenas_load st8 1 = None
   \<and> mi_arena_free env0 st8 4294967296 33554432 8388608 0 2 True
       = Inr (st8\<lparr>events := [Os_alloc 4, Error_message EINVAL]\<rparr>)
   \<and> mi_arenas_load st8 0 = Some arena8
   \<and> field_count arena8 \<le> mi_bitmap_index_field 64
   \<and> mi_arena_free env0 st8 4294967296 33554432 8388608 0 0x4001 True
       = Inr (st8\<lparr>events := [Os_alloc 4, Error_message EINVAL]\<rparr>)"
proof -
  have f: "field_count arena8 \<le> mi_bitmap_index_field 64"
    by (simp add: arena8_def mi_bitmap_index_field_def MI_BITMAP_FIELD_BITS_def)
  have a: "mi_arena_free env0 st8 4294967296 33554432 8388608 0 2 True
       = Inr (st8\<lparr>events := [Os_alloc 4, Error_message EINVAL]\<rparr>)"
    using free_invalid_memid [of 4294967296 33554432 2 False 1 0 st8 env0 8388608 0 True]
    by (simp add: indices_2 st8_load_1 MI_MEMID_OS_def MI_MAX_ARENAS_def) (simp add: st8_def)
  have b: "mi_arena_free env0 st8 4294967296 33554432 8388608 0 0x4001 True
       = Inr (st8\<lparr>events := [Os_alloc 4, Error_message EINVAL]\<rparr>)"
    using free_invalid_memid [of 4294967296 33554432 "0x4001" False 0 64 st8 env0 8388608 0 True] f
    by (simp add: indices_0x4001 st8_load_0 MI_MEMID_OS_def MI_MAX_ARENAS_def) (simp add: st8_def)
  show ?thesis using a b f by (simp add: st8_load_0 st8_load_1)
qed

text \<open>
  The claim as stated fails for a null pointer (and likewise for size 0): the call
  returns at once, before the memory id is decoded, and reports nothing. Here the memory
  id 2 is nonzero and decodes to slot 1, which is empty.
\<close>
theorem free_null_pointer_no_report:
  "(2 :: size_t) \<noteq> 0
   \<and> unat (fst (snd (mi_arena_memid_indices 2))) = 1
   \<and> mi_arenas_load st8 1 = None
   \<and> mi_arena_free env0 st8 0 33554432 8388608 0 2 True = Inr st8
   \<and> Error_message EINVAL \<notin> set (events st8)"
  by (simp add: indices_2 st8_load_1 mi_arena_free_def) (simp add: st8_def)

section \<open>Freeing a run\<close>

lemma mi_arena_purge_frame:
  assumes "mi_arena_purge env arena bitmap_idx blocks = Inr (arena1, evs)"
  shows "blocks_inuse arena1 = blocks_inuse arena \<and> field_count arena1 = field_count arena
         \<and> block_count arena1 = block_count arena \<and> Error_message e \<notin> set evs"
  using assms
  by (auto simp add: mi_arena_purge_def mi_os_purge_def Let_def split: if_splits option.splits)

lemma mi_arena_schedule_purge_frame:
  assumes "mi_arena_schedule_purge env arena bitmap_idx blocks = Inr (arena1, evs)"
  shows "blocks_inuse arena1 = blocks_inuse arena \<and> field_count arena1 = field_count arena
         \<and> block_count arena1 = block_count arena \<and> Error_message e \<notin> set evs"
proof (cases "preloading env \<or> option_arena_purge_delay env = 0")
  case True
  then have "mi_arena_purge env arena bitmap_idx blocks = Inr (arena1, evs)"
    using assms by (simp add: mi_arena_schedule_purge_def Let_def)
  then show ?thesis by (rule mi_arena_purge_frame)
next
  case False
  then show ?thesis
    using assms
    by (auto simp add: mi_arena_schedule_purge_def Let_def split: if_splits option.splits)
qed

lemma mi_arena_schedule_purge_returns:
  assumes "blocks_committed arena \<noteq> None" and "blocks_purge arena \<noteq> None"
  shows "\<exists>arena1 evs. mi_arena_schedule_purge env arena bitmap_idx blocks = Inr (arena1, evs)"
  using assms
  by (auto simp add: mi_arena_schedule_purge_def mi_arena_purge_def Let_def
        split: if_splits option.splits)

lemma mi_arenas_load_store:
  assumes "mi_arenas_load st i = Some arena"
  shows "mi_arenas_load (mi_arena_store st i arena' evs) i = Some arena'"
  using assms by (auto simp add: mi_arenas_load_def mi_arena_store_def split: if_splits)

lemma mi_arenas_load_emit [simp]: "mi_arenas_load (emit st evs) i = mi_arenas_load st i"
  by (simp add: mi_arenas_load_def emit_def)

lemma bitmap_bit_cleared_run:
  assumes "idx \<le> i" and "i < idx + n"
  shows "\<not> bitmap_bit (bitmap_write_run bitmap idx n False) i"
proof (cases "mi_bitmap_index_field i < length bitmap")
  case True
  with assms show ?thesis by (simp add: bitmap_bit_write_run)
next
  case False
  then show ?thesis by (simp add: bitmap_bit_def)
qed

text \<open>
  Claim C7. A call of \<open>_mi_arena_free\<close> that reaches the final
  \<open>unclaim_across\<close> (non-null pointer, nonzero size, a memory id of an arena in the
  registry, its field inside the arena) returns normally; afterwards every bit of the run
  is clear in \<open>blocks_inuse\<close>, whether or not it was set, and the other bits are as
  before; \<open>EAGAIN\<close> is reported, last, exactly when some bit of the run was already
  clear. The descriptor has both of \<open>blocks_committed\<close> and \<open>blocks_purge\<close> or
  none, as registration makes it.
\<close>
theorem free_unclaims_run:
  assumes "p \<noteq> 0" and "sz \<noteq> 0" and "memid' \<noteq> MI_MEMID_OS"
    and "mi_arena_memid_indices memid' = (excl, arena_index, bitmap_index)"
    and "unat arena_index < MI_MAX_ARENAS"
    and "mi_arenas_load st (unat arena_index) = Some arena"
    and "mi_bitmap_index_field (unat bitmap_index) < field_count arena"
    and "blocks_purge arena = None \<longrightarrow> blocks_committed arena = None"
  shows "\<exists>st' arena' evs.
           mi_arena_free env st p sz alignment align_offset memid' all_committed = Inr st'
           \<and> mi_arenas_load st' (unat arena_index) = Some arena'
           \<and> (\<forall>i. unat bitmap_index \<le> i \<and> i < unat bitmap_index + mi_block_count_of_size sz
                  \<longrightarrow> \<not> bitmap_bit (blocks_inuse arena') i)
           \<and> (\<forall>i. \<not> (unat bitmap_index \<le> i \<and> i < unat bitmap_index + mi_block_count_of_size sz)
                  \<longrightarrow> bitmap_bit (blocks_inuse arena') i = bitmap_bit (blocks_inuse arena) i)
           \<and> Error_message EAGAIN \<notin> set evs
           \<and> events st' = events st @ evs
                 @ (if \<exists>i. unat bitmap_index \<le> i
                           \<and> i < unat bitmap_index + mi_block_count_of_size sz
                           \<and> \<not> bitmap_bit (blocks_inuse arena) i
                    then [Error_message EAGAIN] else [])"
proof -
  let ?idx = "unat bitmap_index"
  let ?blocks = "mi_block_count_of_size sz"
  define sched where "sched = (if \<not> allow_decommit arena \<or> blocks_committed arena = None
                then Inr (arena, [])
                else mi_arena_schedule_purge env arena ?idx ?blocks)"
  have "\<exists>arena1 evs. sched = Inr (arena1, evs)"
  proof (cases "\<not> allow_decommit arena \<or> blocks_committed arena = None")
    case True
    then show ?thesis by (simp add: sched_def)
  next
    case False
    then have "blocks_committed arena \<noteq> None" "blocks_purge arena \<noteq> None"
      using assms(8) by auto
    from mi_arena_schedule_purge_returns [OF this, of env ?idx ?blocks] show ?thesis
      using False by (simp add: sched_def)
  qed
  then obtain arena1 evs where s: "sched = Inr (arena1, evs)" by blast
  have fr: "blocks_inuse arena1 = blocks_inuse arena \<and> Error_message EAGAIN \<notin> set evs"
    using s mi_arena_schedule_purge_frame [of env arena ?idx ?blocks arena1 evs EAGAIN]
    by (auto simp add: sched_def split: if_splits)
  let ?inuse' = "bitmap_write_run (blocks_inuse arena) ?idx ?blocks False"
  let ?arena' = "arena1\<lparr>blocks_inuse := ?inuse'\<rparr>"
  let ?st1 = "mi_arena_store st (unat arena_index) ?arena' evs"
  define dbl where
    "dbl \<longleftrightarrow> (\<exists>i. ?idx \<le> i \<and> i < ?idx + ?blocks \<and> \<not> bitmap_bit (blocks_inuse arena) i)"
  let ?st' = "if dbl then emit ?st1 [Error_message EAGAIN] else ?st1"
  have all: "bitmap_run_all (blocks_inuse arena) ?idx ?blocks True \<longleftrightarrow> \<not> dbl"
    unfolding dbl_def by (auto simp add: bitmap_run_all_iff)
  have u: "mi_arena_free env st p sz alignment align_offset memid' all_committed
             = (case sched of
                  Inl f \<Rightarrow> Inl f
                | Inr (arena1, evs) \<Rightarrow>
                    let unclaimed = mi_bitmap_unclaim_across (blocks_inuse arena1) ?blocks ?idx;
                        st1 = mi_arena_store st (unat arena_index)
                                (arena1\<lparr>blocks_inuse := fst unclaimed\<rparr>) evs
                    in if \<not> snd unclaimed then Inr (emit st1 [Error_message EAGAIN])
                       else Inr st1)"
    using assms(1-3,5-7) unfolding sched_def mi_arena_free_def Let_def assms(4) fst_conv snd_conv
    by simp
  have r: "mi_arena_free env st p sz alignment align_offset memid' all_committed = Inr ?st'"
    unfolding u s using fr all
    by (simp add: Let_def mi_bitmap_unclaim_across_def)
  have l: "mi_arenas_load ?st' (unat arena_index) = Some ?arena'"
    using mi_arenas_load_store [OF assms(6), of ?arena' evs] by simp
  have e: "events ?st' = events st @ evs @ (if dbl then [Error_message EAGAIN] else [])"
    by (simp add: emit_def mi_arena_store_def)
  have b1: "\<forall>i. ?idx \<le> i \<and> i < ?idx + ?blocks \<longrightarrow> \<not> bitmap_bit (blocks_inuse ?arena') i"
    by (simp add: bitmap_bit_cleared_run)
  have b2: "\<forall>i. \<not> (?idx \<le> i \<and> i < ?idx + ?blocks)
              \<longrightarrow> bitmap_bit (blocks_inuse ?arena') i = bitmap_bit (blocks_inuse arena) i"
    by (auto simp add: bitmap_bit_write_run)
  show ?thesis
    using r l e b1 b2 fr unfolding dbl_def by blast
qed

lemma indices_1: "mi_arena_memid_indices 1 = (False, 0, 0)"
  by (simp add: mi_arena_memid_indices_def mi_arena_id_index_def)

lemma block_count_32MiB: "mi_block_count_of_size 33554432 = 1"
  by (simp add: mi_block_count_of_size_def mi_divide_up_def MI_ARENA_BLOCK_SIZE_def
        MI_SEGMENT_ALIGN_def)

lemma arena8_bit0: "\<not> bitmap_bit (blocks_inuse arena8) 0"
  by (simp add: arena8_def bitmap_bit_def mi_bitmap_index_field_def MI_BITMAP_FIELD_BITS_def)

theorem free_unclaims_run_witness:
  "mi_arenas_load st8 0 = Some arena8
   \<and> \<not> bitmap_bit (blocks_inuse arena8) 0
   \<and> (\<exists>st' arena'. mi_arena_free env0 st8 4294967296 33554432 8388608 0 1 True = Inr st'
          \<and> mi_arenas_load st' 0 = Some arena'
          \<and> \<not> bitmap_bit (blocks_inuse arena') 0
          \<and> last (events st') = Error_message EAGAIN)"
proof -
  have h7: "mi_bitmap_index_field (unat (0 :: size_t)) < field_count arena8"
    by (simp add: arena8_def mi_bitmap_index_field_def MI_BITMAP_FIELD_BITS_def)
  have h8: "blocks_purge arena8 = None \<longrightarrow> blocks_committed arena8 = None"
    by (simp add: arena8_def)
  have dbl: "\<exists>i. unat (0 :: size_t) \<le> i \<and> i < unat (0 :: size_t) + mi_block_count_of_size 33554432
               \<and> \<not> bitmap_bit (blocks_inuse arena8) i"
    using arena8_bit0 by (intro exI [of _ 0]) (simp add: block_count_32MiB)
  obtain st' arena' evs where r:
    "mi_arena_free env0 st8 4294967296 33554432 8388608 0 1 True = Inr st'"
    "mi_arenas_load st' (unat (0 :: size_t)) = Some arena'"
    "\<forall>i. unat (0 :: size_t) \<le> i \<and> i < unat (0 :: size_t) + mi_block_count_of_size 33554432
          \<longrightarrow> \<not> bitmap_bit (blocks_inuse arena') i"
    "events st' = events st8 @ evs
       @ (if \<exists>i. unat (0 :: size_t) \<le> i \<and> i < unat (0 :: size_t) + mi_block_count_of_size 33554432
                 \<and> \<not> bitmap_bit (blocks_inuse arena8) i
          then [Error_message EAGAIN] else [])"
    using free_unclaims_run [of 4294967296 33554432 1 False 0 0 st8 arena8 env0 8388608 0 True]
      h7 h8 indices_1 st8_load_0
    by (auto simp add: MI_MEMID_OS_def MI_MAX_ARENAS_def)
  have "last (events st') = Error_message EAGAIN"
    unfolding r(4) using dbl by simp
  moreover have "\<not> bitmap_bit (blocks_inuse arena') 0"
    using r(3) by (simp add: block_count_32MiB)
  ultimately show ?thesis
    using r(1,2) st8_load_0 arena8_bit0 by auto
qed

section \<open>Interleaved huge-page reservation\<close>

lemma huge_requests_append: "huge_requests (xs @ ys) = huge_requests xs @ huge_requests ys"
  by (induction xs rule: huge_requests.induct) simp_all

lemma mi_arena_add_events: "events (snd (snd (mi_arena_add st arena))) = events st"
  by (simp add: mi_arena_add_def Let_def)

lemma mi_manage_os_memory_ex_events:
  "\<exists>evs. events (snd (snd (mi_manage_os_memory_ex env st start' sz is_committed is_large'
                               is_zero' numa_node' exclusive')))
            = events st @ evs \<and> huge_requests evs = []"
proof (cases "sz < MI_ARENA_BLOCK_SIZE")
  case True
  then show ?thesis by (simp add: mi_manage_os_memory_ex_def)
next
  case False
  then show ?thesis
    by (simp add: mi_manage_os_memory_ex_def Let_def mi_arena_add_events emit_def)
qed

lemma huge_numa_node_Inr:
  assumes "huge_numa_node env node = Inr x"
  shows "x = (if node < 0 then - 1 else node mod int (os_numa_node_count env))"
  using assms by (auto simp add: huge_numa_node_def Let_def split: if_splits)

lemma mi_reserve_huge_os_pages_at_zero:
  "mi_reserve_huge_os_pages_at env st 0 node t = Inr (None, st)"
  by (simp add: mi_reserve_huge_os_pages_at_def mi_reserve_huge_os_pages_at_ex_def)

lemma mi_reserve_huge_os_pages_at_events:
  assumes "mi_reserve_huge_os_pages_at env st pages node t = Inr (err, st')"
    and "0 < pages"
  shows "\<exists>evs. events st' = events st @ evs
             \<and> huge_requests evs = [os_request env (pages, node, t)]"
proof -
  from assms obtain numa2 where h: "huge_numa_node env node = Inr numa2"
    by (cases "huge_numa_node env node")
       (simp_all add: mi_reserve_huge_os_pages_at_def mi_reserve_huge_os_pages_at_ex_def)
  have n2: "os_request env (pages, node, t) = (pages, numa2, t)"
    using huge_numa_node_Inr [OF h] by (simp add: os_request_def)
  let ?os = "os_alloc_huge_os_pages env pages numa2 t"
  let ?st1 = "emit st [Os_alloc_huge_os_pages pages numa2 t]"
  show ?thesis
  proof (cases "fst ?os = 0 \<or> fst (snd ?os) = 0")
    case True
    with assms h have "st' = emit ?st1 [Warning_message]"
      by (auto simp add: mi_reserve_huge_os_pages_at_def mi_reserve_huge_os_pages_at_ex_def
            Let_def)
    then show ?thesis unfolding n2 by (simp add: emit_def)
  next
    case ok: False
    let ?m = "mi_manage_os_memory_ex env (emit ?st1 [Verbose_message]) (fst ?os)
                (snd (snd ?os)) True True True numa2 False"
    obtain evs where m: "events (snd (snd ?m)) = events (emit ?st1 [Verbose_message]) @ evs"
      "huge_requests evs = []"
      using mi_manage_os_memory_ex_events by blast
    obtain b aid st2 where mm: "?m = (b, aid, st2)" by (cases ?m) auto
    have e2: "events st2 = events st @ [Os_alloc_huge_os_pages pages numa2 t,
                Verbose_message] @ evs"
      using m(1) mm by (simp add: emit_def)
    have "st' = (if \<not> b then emit st2 [Os_free_huge_pages (fst ?os) (snd (snd ?os))] else st2)"
      using assms h ok mm
      by (auto simp add: mi_reserve_huge_os_pages_at_def mi_reserve_huge_os_pages_at_ex_def
            Let_def split: if_splits)
    then show ?thesis unfolding n2 using e2 m(2)
      by (auto simp add: emit_def huge_requests_append)
  qed
qed

lemma reserve_in_order_requests:
  assumes "reserve_in_order env calls st = Inr (err, st')"
    and "\<forall>c \<in> set calls. 0 < fst c"
  shows "\<exists>evs. events st' = events st @ evs
             \<and> prefix (huge_requests evs) (map (os_request env) calls)
             \<and> (err = None \<longrightarrow> huge_requests evs = map (os_request env) calls)
             \<and> (err \<noteq> None \<longrightarrow> huge_requests evs \<noteq> [])"
  using assms
proof (induction calls arbitrary: st)
  case Nil
  then show ?case by simp
next
  case (Cons c calls)
  obtain p node t where c: "c = (p, node, t)" by (cases c) auto
  have p0: "0 < p" using Cons.prems(2) c by simp
  from Cons.prems(1) c obtain e1 st1
    where at: "mi_reserve_huge_os_pages_at env st p node t = Inr (e1, st1)"
    by (cases "mi_reserve_huge_os_pages_at env st p node t") auto
  obtain evs1 where e1: "events st1 = events st @ evs1"
    "huge_requests evs1 = [os_request env c]"
    using mi_reserve_huge_os_pages_at_events [OF at p0] c by auto
  show ?case
  proof (cases "e1 = None")
    case False
    with Cons.prems(1) c at have "err = e1" "st' = st1" by simp_all
    with e1 False show ?thesis by auto
  next
    case True
    with Cons.prems(1) c at have r: "reserve_in_order env calls st1 = Inr (err, st')" by simp
    obtain evs2 where e2: "events st' = events st1 @ evs2"
      "prefix (huge_requests evs2) (map (os_request env) calls)"
      "err = None \<longrightarrow> huge_requests evs2 = map (os_request env) calls"
      using Cons.IH [OF r] Cons.prems(2) by auto
    show ?thesis
      using e1 e2 by (intro exI [of _ "evs1 @ evs2"]) (simp add: huge_requests_append)
  qed
qed

lemma interleave_calls_Cons:
  assumes "k < numa_count"
  shows "interleave_calls numa_count pages_per pages_mod timeout_per k
           = (if 0 < interleave_node_pages pages_per pages_mod k
              then [(interleave_node_pages pages_per pages_mod k,
                     sint (word_of_nat k :: 32 word), timeout_per)]
              else [])
             @ interleave_calls numa_count pages_per pages_mod timeout_per (Suc k)"
  using assms by (simp add: interleave_calls_def upt_conv_Cons)

lemma interleave_calls_done:
  assumes "sum_list (map (interleave_node_pages pages_per pages_mod) [k ..< numa_count]) = 0"
  shows "interleave_calls numa_count pages_per pages_mod timeout_per k = []"
proof -
  have "\<forall>i \<in> set [k ..< numa_count]. interleave_node_pages pages_per pages_mod i = 0"
    using assms by (simp add: sum_list_eq_0_iff)
  then have "filter (\<lambda>i. 0 < interleave_node_pages pages_per pages_mod i) [k ..< numa_count] = []"
    by (simp add: filter_empty_conv)
  then show ?thesis by (simp add: interleave_calls_def)
qed

lemma interleave_calls_positive:
  "\<forall>c \<in> set (interleave_calls numa_count pages_per pages_mod timeout_per k). 0 < fst c"
  by (auto simp add: interleave_calls_def)

lemma interleave_loop_in_order:
  assumes "pages = sum_list (map (interleave_node_pages pages_per pages_mod) [numa_node' ..< numa_count])"
  shows "mi_reserve_huge_os_pages_interleave_loop env numa_count pages_per pages_mod
           timeout_per numa_node' pages st
         = reserve_in_order env
             (interleave_calls numa_count pages_per pages_mod timeout_per numa_node') st"
  using assms
proof (induction env numa_count pages_per pages_mod timeout_per numa_node' pages st
         rule: mi_reserve_huge_os_pages_interleave_loop.induct)
  case (1 env numa_count pages_per pages_mod timeout_per k pages st)
  let ?np = "interleave_node_pages pages_per pages_mod"
  let ?C = "interleave_calls numa_count pages_per pages_mod timeout_per"
  let ?loop = "mi_reserve_huge_os_pages_interleave_loop env numa_count pages_per pages_mod
                 timeout_per"
  show ?case
  proof (cases "k < numa_count \<and> pages > 0")
    case False
    have r: "?loop k pages st = Inr (None, st)"
      by (subst mi_reserve_huge_os_pages_interleave_loop.simps) (simp only: False if_False)
    have "?C k = []"
    proof (cases "k < numa_count")
      case True
      with False have "pages = 0" by simp
      with "1.prems" show ?thesis by (simp add: interleave_calls_done)
    next
      case False
      then show ?thesis by (simp add: interleave_calls_def)
    qed
    with r show ?thesis by simp
  next
    case True
    let ?node_pages = "if k < pages_mod then pages_per + 1 else pages_per"
    have np: "?node_pages = ?np k" by (simp add: interleave_node_pages_def)
    let ?at = "mi_reserve_huge_os_pages_at env st ?node_pages (sint (word_of_nat k :: 32 word))
                 timeout_per"
    have split: "pages = ?np k + sum_list (map ?np [Suc k ..< numa_count])"
      using "1.prems" True by (simp add: upt_conv_Cons)
    let ?pages' = "if pages < ?node_pages then 0 else pages - ?node_pages"
    have p': "?pages' = sum_list (map ?np [Suc k ..< numa_count])"
      using split np by simp
    have u: "?loop k pages st
               = (case ?at of Inl f \<Rightarrow> Inl f
                  | Inr (err, st1) \<Rightarrow> if err \<noteq> None then Inr (err, st1)
                                      else ?loop (Suc k) ?pages' st1)"
      using True by (subst mi_reserve_huge_os_pages_interleave_loop.simps) (simp add: Let_def)
    show ?thesis
    proof (cases ?at)
      case (Inl f)
      have "?np k \<noteq> 0"
        using Inl mi_reserve_huge_os_pages_at_zero [of env st "sint (word_of_nat k :: 32 word)"
                timeout_per] np
        by (cases "?np k = 0") auto
      then show ?thesis
        using u Inl np True by (simp add: interleave_calls_Cons)
    next
      case (Inr a)
      obtain err st1 where a: "a = (err, st1)" by (cases a) auto
      show ?thesis
      proof (cases "err = None")
        case False
        have "?np k \<noteq> 0"
          using Inr a False mi_reserve_huge_os_pages_at_zero [of env st
                  "sint (word_of_nat k :: 32 word)" timeout_per] np
          by (cases "?np k = 0") auto
        then show ?thesis
          using u Inr a np True False by (simp add: interleave_calls_Cons)
      next
        case ok: True
        have ih: "?loop (Suc k) ?pages' st1 = reserve_in_order env (?C (Suc k)) st1"
          using "1.IH" [OF True refl Inr a [symmetric]] ok p' by simp
        show ?thesis
        proof (cases "?np k = 0")
          case z: True
          have "st1 = st"
            using Inr a z np mi_reserve_huge_os_pages_at_zero [of env st
                    "sint (word_of_nat k :: 32 word)" timeout_per]
            by simp
          then show ?thesis
            using u Inr a ok ih z True by (simp add: interleave_calls_Cons)
        next
          case False
          then show ?thesis
            using u Inr a ok ih np True by (simp add: interleave_calls_Cons)
        qed
      qed
    qed
  qed
qed

lemma mi_reserve_huge_os_pages_at_returns:
  assumes "0 < os_numa_node_count env"
  shows "\<exists>r. mi_reserve_huge_os_pages_at env st pages node t = Inr r"
  using assms
  by (simp add: mi_reserve_huge_os_pages_at_def mi_reserve_huge_os_pages_at_ex_def
        huge_numa_node_def Let_def split: prod.splits)

lemma reserve_in_order_returns:
  assumes "0 < os_numa_node_count env"
  shows "\<exists>r. reserve_in_order env calls st = Inr r"
proof (induction calls arbitrary: st)
  case Nil
  show ?case by simp
next
  case (Cons c calls)
  obtain p node t where c: "c = (p, node, t)" by (cases c) auto
  obtain e1 st1 where at: "mi_reserve_huge_os_pages_at env st p node t = Inr (e1, st1)"
    using mi_reserve_huge_os_pages_at_returns [OF assms, of st p node t] by auto
  show ?case
    using Cons.IH [of st1] at c by (cases "e1 = None") auto
qed

lemma interleave_pages_sum:
  assumes "pages_mod \<le> n"
  shows "sum_list (map (interleave_node_pages pages_per pages_mod) [0 ..< n])
           = n * pages_per + pages_mod"
proof -
  have "\<And>m. sum_list (map (interleave_node_pages pages_per pages_mod) [0 ..< m])
              = m * pages_per + min m pages_mod"
  proof -
    fix m
    show "sum_list (map (interleave_node_pages pages_per pages_mod) [0 ..< m])
            = m * pages_per + min m pages_mod"
      by (induction m) (auto simp add: interleave_node_pages_def min_def)
  qed
  from this [of n] assms show ?thesis by (simp add: min_def)
qed

text \<open>
  Claim C9 (amended). For \<open>pages > 0\<close> and \<open>n\<close> the number of nodes,
  \<open>mi_reserve_huge_os_pages_interleave\<close> makes the reservations of \<open>pages div n\<close>
  pages from each node, one more from each of the first \<open>pages mod n\<close> nodes, in the
  order of the nodes, up to and including the first reservation that fails, whose error
  it returns; it returns 0 when none fails. A node with no pages is not asked. Each
  reservation is passed the timeout \<open>timeout_msecs div n + 50\<close> (in \<open>size_t\<close>
  arithmetic) when \<open>timeout_msecs\<close> is not 0, and the timeout 0 when it is 0. The
  requests that reach \<open>_mi_os_alloc_huge_os_pages\<close> are these, in this order: all of
  them when the call returns 0, and at least one when it returns an error. The call
  returns when the OS reports at least one NUMA node.
\<close>
theorem interleave_requests_made:
  assumes "0 < pages"
    and "n = interleave_numa_count env numa_nodes"
    and "timeout_per = (if timeout_msecs = 0 then 0 else (timeout_msecs div n + 50) mod 2 ^ 64)"
  shows "mi_reserve_huge_os_pages_interleave env st pages numa_nodes timeout_msecs
           = reserve_in_order env
               (interleave_calls n (pages div n) (pages mod n) timeout_per 0) st
       \<and> (\<forall>err st'.
            mi_reserve_huge_os_pages_interleave env st pages numa_nodes timeout_msecs
              = Inr (err, st')
            \<longrightarrow> (\<exists>evs. events st' = events st @ evs
                   \<and> prefix (huge_requests evs)
                        (map (os_request env)
                           (interleave_calls n (pages div n) (pages mod n) timeout_per 0))
                   \<and> (err = None
                        \<longrightarrow> huge_requests evs
                              = map (os_request env)
                                  (interleave_calls n (pages div n) (pages mod n) timeout_per 0))
                   \<and> (err \<noteq> None \<longrightarrow> huge_requests evs \<noteq> [])))
       \<and> (0 < os_numa_node_count env
            \<longrightarrow> (\<exists>err st'.
                   mi_reserve_huge_os_pages_interleave env st pages numa_nodes timeout_msecs
                     = Inr (err, st')))"
proof -
  let ?calls = "interleave_calls n (pages div n) (pages mod n) timeout_per 0"
  have n0: "0 < n" using assms(2) by (simp add: interleave_numa_count_def)
  have s: "pages = sum_list (map (interleave_node_pages (pages div n) (pages mod n)) [0 ..< n])"
    using interleave_pages_sum [of "pages mod n" n "pages div n"] n0 by simp
  have u: "mi_reserve_huge_os_pages_interleave env st pages numa_nodes timeout_msecs
             = mi_reserve_huge_os_pages_interleave_loop env n (pages div n) (pages mod n)
                 timeout_per 0 pages st"
    using assms by (simp add: mi_reserve_huge_os_pages_interleave_def Let_def
                      interleave_numa_count_def)
  have c1: "mi_reserve_huge_os_pages_interleave env st pages numa_nodes timeout_msecs
              = reserve_in_order env ?calls st"
    unfolding u using s by (rule interleave_loop_in_order)
  have c2: "\<exists>evs. events st' = events st @ evs
                \<and> prefix (huge_requests evs) (map (os_request env) ?calls)
                \<and> (err = None \<longrightarrow> huge_requests evs = map (os_request env) ?calls)
                \<and> (err \<noteq> None \<longrightarrow> huge_requests evs \<noteq> [])"
    if "mi_reserve_huge_os_pages_interleave env st pages numa_nodes timeout_msecs
          = Inr (err, st')" for err st'
    using that c1 reserve_in_order_requests [OF _ interleave_calls_positive] by simp
  have c3: "\<exists>err st'. mi_reserve_huge_os_pages_interleave env st pages numa_nodes timeout_msecs
                        = Inr (err, st')"
    if "0 < os_numa_node_count env"
    using reserve_in_order_returns [OF that, of ?calls st] c1 by auto
  show ?thesis
    apply (rule conjI [OF c1])
    apply (rule conjI)
     apply (intro allI impI)
     apply (erule c2)
    apply (rule impI)
    apply (erule c3)
    done
qed

lemmas interleave_eval =
  mi_reserve_huge_os_pages_interleave_def
  mi_reserve_huge_os_pages_interleave_loop.simps mi_reserve_huge_os_pages_at_def
  mi_reserve_huge_os_pages_at_ex_def huge_numa_node_def mi_manage_os_memory_ex_def
  mi_arena_add_def mi_arena_id_create_def emit_def env0_def st0_def Let_def
  MI_ARENA_BLOCK_SIZE_def MI_SEGMENT_ALIGN_def MI_MAX_ARENAS_def MI_BITMAP_FIELD_BITS_def
  mi_divide_up_def mi_arena_id_none_def env_node1_fails_def

lemma interleave_timeout_zero_run:
  "(case mi_reserve_huge_os_pages_interleave env0 st0 1 1 0 of
      Inl f \<Rightarrow> False
    | Inr r \<Rightarrow> fst r = None \<and> huge_requests (events (snd r)) = [(1, 0, 0)])"
  by (simp add: interleave_eval)

lemma interleave_node1_fails_run:
  "(case mi_reserve_huge_os_pages_interleave env_node1_fails st0 4 3 1000 of
      Inl f \<Rightarrow> False
    | Inr r \<Rightarrow> fst r = Some ENOMEM
              \<and> huge_requests (events (snd r)) = [(2, 0, 383), (1, 1, 383)])"
  by (simp add: interleave_eval)

lemma reserve_in_order_node1_fails:
  "(case reserve_in_order env_node1_fails [(2, 0, 383), (1, 1, 383), (1, 2, 383)] st0 of
      Inl f \<Rightarrow> False
    | Inr r \<Rightarrow> fst r = Some ENOMEM
              \<and> huge_requests (events (snd r)) = [(2, 0, 383), (1, 1, 383)])"
  by (simp add: interleave_eval)

lemma interleave_calls_4_3:
  "interleave_calls 3 (4 div 3) (4 mod 3) 383 0 = [(2, 0, 383), (1, 1, 383), (1, 2, 383)]"
proof -
  have u: "[0 ..< 3] = [0, 1, 2 :: nat]" by code_simp
  show ?thesis
    unfolding interleave_calls_def u by (simp add: interleave_node_pages_def)
qed

theorem interleave_requests_made_witness:
  "(0 :: nat) < 4 \<and> interleave_numa_count env_node1_fails 3 = 3
   \<and> 0 < os_numa_node_count env_node1_fails
   \<and> interleave_calls 3 (4 div 3) (4 mod 3) 383 0 = [(2, 0, 383), (1, 1, 383), (1, 2, 383)]
   \<and> (\<exists>st'. mi_reserve_huge_os_pages_interleave env_node1_fails st0 4 3 1000
               = Inr (Some ENOMEM, st')
            \<and> huge_requests (events st') = [(2, 0, 383), (1, 1, 383)])"
proof -
  have n: "3 = interleave_numa_count env_node1_fails 3" by (simp add: interleave_numa_count_def)
  have t: "(383 :: nat) = (if (1000 :: nat) = 0 then 0 else (1000 div 3 + 50) mod 2 ^ 64)"
    by simp
  have r: "mi_reserve_huge_os_pages_interleave env_node1_fails st0 4 3 1000
             = reserve_in_order env_node1_fails [(2, 0, 383), (1, 1, 383), (1, 2, 383)] st0"
    using interleave_requests_made [of 4 3 env_node1_fails 3 383 1000 st0, OF _ n t,
            THEN conjunct1]
    unfolding interleave_calls_4_3 by simp
  have "\<exists>st'. mi_reserve_huge_os_pages_interleave env_node1_fails st0 4 3 1000
               = Inr (Some ENOMEM, st')
            \<and> huge_requests (events st') = [(2, 0, 383), (1, 1, 383)]"
    unfolding r using reserve_in_order_node1_fails
    by (cases "reserve_in_order env_node1_fails [(2, 0, 383), (1, 1, 383), (1, 2, 383)] st0")
       auto
  then show ?thesis
    using n interleave_calls_4_3 by (simp add: env_node1_fails_def)
qed

text \<open>
  The claim as stated fails in two ways. For \<open>timeout_msecs = 0\<close> the reservation is
  passed the timeout 0, not \<open>0 div n + 50\<close>. And not every node is asked: with 4 pages
  over 3 nodes, where the reservation on the second node fails, the call returns
  \<open>ENOMEM\<close> after two requests and the third node is never asked for its page.
\<close>
theorem interleave_not_as_claimed:
  "(\<exists>st'. mi_reserve_huge_os_pages_interleave env0 st0 1 1 0 = Inr (None, st')
          \<and> huge_requests (events st') = [(1, 0, 0)])
   \<and> (0 :: nat) div 1 + 50 \<noteq> 0
   \<and> (\<exists>st'. mi_reserve_huge_os_pages_interleave env_node1_fails st0 4 3 1000
               = Inr (Some ENOMEM, st')
            \<and> huge_requests (events st') = [(2, 0, 383), (1, 1, 383)])
   \<and> length (interleave_calls 3 (4 div 3) (4 mod 3) 383 0) = 3"
proof -
  have a: "\<exists>st'. mi_reserve_huge_os_pages_interleave env0 st0 1 1 0 = Inr (None, st')
                \<and> huge_requests (events st') = [(1, 0, 0)]"
    using interleave_timeout_zero_run
    by (cases "mi_reserve_huge_os_pages_interleave env0 st0 1 1 0") auto
  have b: "\<exists>st'. mi_reserve_huge_os_pages_interleave env_node1_fails st0 4 3 1000
               = Inr (Some ENOMEM, st')
            \<and> huge_requests (events st') = [(2, 0, 383), (1, 1, 383)]"
    using interleave_node1_fails_run
    by (cases "mi_reserve_huge_os_pages_interleave env_node1_fails st0 4 3 1000") auto
  show ?thesis using a b interleave_calls_4_3 by simp
qed

section \<open>The condition of the arena path\<close>

lemma prefix_events_emit: "prefix (events st) (events (emit st evs))"
  by (simp add: emit_def)

lemma prefix_events_store: "prefix (events st) (events (mi_arena_store st i arena evs))"
  by (simp add: mi_arena_store_def)

lemma prefix_events_manage:
  "prefix (events st) (events (snd (snd (mi_manage_os_memory_ex env st start' sz is_committed
                                           is_large' is_zero' numa_node' exclusive'))))"
  using mi_manage_os_memory_ex_events [of env st start' sz is_committed is_large' is_zero'
          numa_node' exclusive']
  by (auto simp add: prefix_def)

lemma mi_reserve_os_memory_ex_events:
  "\<exists>evs. events (snd (snd (mi_reserve_os_memory_ex env st sz commit' allow_large exclusive')))
           = events st @ Os_alloc_aligned (mi_align_up sz MI_ARENA_BLOCK_SIZE) MI_SEGMENT_ALIGN
                            commit' allow_large # evs"
proof -
  let ?sz1 = "mi_align_up sz MI_ARENA_BLOCK_SIZE"
  let ?os = "os_alloc_aligned env ?sz1 MI_SEGMENT_ALIGN commit' allow_large"
  let ?st1 = "emit st [Os_alloc_aligned ?sz1 MI_SEGMENT_ALIGN commit' allow_large]"
  show ?thesis
  proof (cases "fst ?os = 0")
    case True
    then show ?thesis by (simp add: mi_reserve_os_memory_ex_def Let_def emit_def)
  next
    case False
    let ?m = "mi_manage_os_memory_ex env ?st1 (fst ?os) ?sz1 (snd ?os \<or> commit') (snd ?os) True
                (- 1) exclusive'"
    obtain ok aid st2 where m: "?m = (ok, aid, st2)" by (cases ?m) auto
    obtain evs where e: "events st2 = events ?st1 @ evs"
      using mi_manage_os_memory_ex_events [of env ?st1 "fst ?os" ?sz1 "snd ?os \<or> commit'"
              "snd ?os" True "- 1" exclusive'] m by auto
    show ?thesis
      using False m e by (simp add: mi_reserve_os_memory_ex_def Let_def emit_def)
  qed
qed

lemma prefix_events_alloc_in:
  "prefix (events st) (events (fst (snd (mi_arena_alloc_in env st arena_id' numa_node' sz
                                          alignment outs req_arena_id))))"
  by (auto simp add: mi_arena_alloc_in_def Let_def prefix_events_store
        split: option.splits prod.splits)

lemma mi_arena_alloc_aligned_os_result:
  "mi_arenas (fst (snd (mi_arena_alloc_aligned_os env st sz alignment align_offset outs req)))
     = mi_arenas st
   \<and> mi_arena_count (fst (snd (mi_arena_alloc_aligned_os env st sz alignment align_offset outs
                                 req))) = mi_arena_count st
   \<and> events (fst (snd (mi_arena_alloc_aligned_os env st sz alignment align_offset outs req)))
       = events st
           @ [if option_limit_os_alloc env \<or> req \<noteq> mi_arena_id_none then Set_errno ENOMEM
              else Os_alloc_aligned_offset sz alignment align_offset (commit outs) (large outs)]"
  by (simp add: mi_arena_alloc_aligned_os_def Let_def emit_def)

lemma mi_arena_alloc_aligned_os_memid:
  assumes "memid outs = MI_MEMID_OS"
  shows "memid (snd (snd (mi_arena_alloc_aligned_os env st sz alignment align_offset outs req)))
           = MI_MEMID_OS"
  using assms by (simp add: mi_arena_alloc_aligned_os_def Let_def)

lemma prefix_events_os:
  "prefix (events st)
     (events (fst (snd (mi_arena_alloc_aligned_os env st sz alignment align_offset outs req))))"
  by (simp add: mi_arena_alloc_aligned_os_result)

text \<open>
  Claim C8. \<open>_mi_arena_alloc_aligned\<close> takes the arena path exactly when
  \<open>size \<ge> MI_ARENA_MIN_OBJ_SIZE\<close>, \<open>alignment \<le> MI_SEGMENT_ALIGN\<close> and
  \<open>align_offset = 0\<close>. Otherwise the call is the OS fallback alone: no descriptor and
  no slot changes, the memory id is \<open>MI_MEMID_OS\<close>, and the only event is the OS
  allocation (or the store of \<open>ENOMEM\<close>). With the three conditions the result of
  \<open>mi_arena_allocate\<close> is returned when it is not null, and when it is null and eager
  reservation is enabled, large enough, not for a specific arena and below the arena
  limit, the reservation is made (the OS is asked for the region).
\<close>
theorem alloc_aligned_arena_path:
  "(let arena_ok = (MI_ARENA_MIN_OBJ_SIZE \<le> sz \<and> alignment \<le> MI_SEGMENT_ALIGN \<and> align_offset = 0);
        outs0 = outs\<lparr>memid := MI_MEMID_OS, is_zero := False, is_pinned := False\<rparr>;
        r = mi_arena_alloc_aligned env st sz alignment align_offset outs req;
        a = mi_arena_allocate env st (os_numa_node env) sz alignment outs0 req;
        eager = mi_align_up (option_arena_reserve env) MI_ARENA_BLOCK_SIZE
    in (\<not> arena_ok \<longrightarrow>
          r = mi_arena_alloc_aligned_os env st sz alignment align_offset outs0 req
          \<and> mi_arenas (fst (snd r)) = mi_arenas st
          \<and> mi_arena_count (fst (snd r)) = mi_arena_count st
          \<and> memid (snd (snd r)) = MI_MEMID_OS
          \<and> events (fst (snd r))
              = events st
                  @ [if option_limit_os_alloc env \<or> req \<noteq> mi_arena_id_none
                     then Set_errno ENOMEM
                     else Os_alloc_aligned_offset sz alignment align_offset (commit outs)
                            (large outs)])
     \<and> (arena_ok \<and> fst a \<noteq> 0 \<longrightarrow> r = a)
     \<and> (arena_ok \<and> fst a = 0 \<and> 0 < eager \<and> sz \<le> eager \<and> req = mi_arena_id_none
           \<and> mi_arena_count (fst (snd a)) < 3 * (MI_MAX_ARENAS div 4) \<longrightarrow>
          Os_alloc_aligned (mi_align_up eager MI_ARENA_BLOCK_SIZE) MI_SEGMENT_ALIGN False
              (large (snd (snd a)))
            \<in> set (events (fst (snd r)))))"
proof -
  let ?arena_ok = "MI_ARENA_MIN_OBJ_SIZE \<le> sz \<and> alignment \<le> MI_SEGMENT_ALIGN \<and> align_offset = 0"
  let ?outs0 = "outs\<lparr>memid := MI_MEMID_OS, is_zero := False, is_pinned := False\<rparr>"
  let ?r = "mi_arena_alloc_aligned env st sz alignment align_offset outs req"
  let ?a = "mi_arena_allocate env st (os_numa_node env) sz alignment ?outs0 req"
  let ?eager = "mi_align_up (option_arena_reserve env) MI_ARENA_BLOCK_SIZE"
  obtain p st1 outs1 where a: "?a = (p, st1, outs1)" by (cases ?a) auto
  have n: "\<not> ?arena_ok \<Longrightarrow> ?r = mi_arena_alloc_aligned_os env st sz alignment align_offset ?outs0 req"
    by (auto simp add: mi_arena_alloc_aligned_def Let_def)
  have c1: "\<not> ?arena_ok \<Longrightarrow>
          ?r = mi_arena_alloc_aligned_os env st sz alignment align_offset ?outs0 req
          \<and> mi_arenas (fst (snd ?r)) = mi_arenas st
          \<and> mi_arena_count (fst (snd ?r)) = mi_arena_count st
          \<and> memid (snd (snd ?r)) = MI_MEMID_OS
          \<and> events (fst (snd ?r))
              = events st
                  @ [if option_limit_os_alloc env \<or> req \<noteq> mi_arena_id_none
                     then Set_errno ENOMEM
                     else Os_alloc_aligned_offset sz alignment align_offset (commit outs)
                            (large outs)]"
    using mi_arena_alloc_aligned_os_result [of env st sz alignment align_offset ?outs0 req]
      mi_arena_alloc_aligned_os_memid [of ?outs0 env st sz alignment align_offset req]
    by (simp add: n)
  have c2: "?arena_ok \<and> fst ?a \<noteq> 0 \<Longrightarrow> ?r = ?a"
    using a by (simp add: mi_arena_alloc_aligned_def Let_def)
  have c3: "Os_alloc_aligned (mi_align_up ?eager MI_ARENA_BLOCK_SIZE) MI_SEGMENT_ALIGN False
              (large (snd (snd ?a))) \<in> set (events (fst (snd ?r)))"
    if h: "?arena_ok \<and> fst ?a = 0 \<and> 0 < ?eager \<and> sz \<le> ?eager \<and> req = mi_arena_id_none
           \<and> mi_arena_count (fst (snd ?a)) < 3 * (MI_MAX_ARENAS div 4)"
  proof -
    let ?res = "mi_reserve_os_memory_ex env st1 ?eager False (large outs1) False"
    let ?ev = "Os_alloc_aligned (mi_align_up ?eager MI_ARENA_BLOCK_SIZE) MI_SEGMENT_ALIGN False
                 (large outs1)"
    obtain err aid st2 where res: "?res = (err, aid, st2)" by (cases ?res) auto
    have in2: "?ev \<in> set (events st2)"
      using mi_reserve_os_memory_ex_events [of env st1 ?eager False "large outs1" False] res
      by auto
    let ?in = "mi_arena_alloc_in env st2 aid (os_numa_node env) sz alignment outs1 req"
    obtain p' st3 outs3 where ain: "?in = (p', st3, outs3)" by (cases ?in) auto
    have p23: "prefix (events st2) (events st3)"
      using prefix_events_alloc_in [of st2 env aid "os_numa_node env" sz alignment outs1 req] ain
      by simp
    have r: "?r = (if err = None
                   then (if p' \<noteq> 0 then (p', st3, outs3)
                         else mi_arena_alloc_aligned_os env st3 sz alignment align_offset outs3 req)
                   else mi_arena_alloc_aligned_os env st2 sz alignment align_offset outs1 req)"
      using h a res ain by (simp add: mi_arena_alloc_aligned_def Let_def)
    have "prefix (events st2) (events (fst (snd ?r)))"
      unfolding r using p23 prefix_events_os [of st3 env sz alignment align_offset outs3 req]
        prefix_events_os [of st2 env sz alignment align_offset outs1 req]
      by (auto intro: prefix_order.trans)
    then have "set (events st2) \<subseteq> set (events (fst (snd ?r)))" by (rule set_mono_prefix)
    with in2 show ?thesis using a by auto
  qed
  show ?thesis
    unfolding Let_def using c1 c2 c3 by blast
qed

lemma block_count_16MiB: "mi_block_count_of_size 16777216 = Suc 0"
  by (simp add: mi_block_count_of_size_def mi_divide_up_def MI_ARENA_BLOCK_SIZE_def
        MI_SEGMENT_ALIGN_def)

lemma clear_0: "bitmap_write [0] 0 False = [0]"
  by code_simp

lemma set_0: "bitmap_write [0] 0 True = [1]"
  by code_simp

lemma all_0: "\<not> bitmap_run_all [0] 0 (Suc 0) True"
  by code_simp

lemma memid_1: "mi_arena_memid_create 1 False 0 = 1"
  by (simp add: mi_arena_memid_create_def)

lemma alloc_from_arena8:
  "mi_arena_alloc_from env0 arena8 0 (Suc 0) outs0 0
     = (4294967296, arena8_a\<lparr>blocks_dirty := [1], blocks_committed := Some [1]\<rparr>, outs_a,
        [Os_commit 4294967296 33554432])"
  by (simp add: mi_arena_alloc_from_def mi_arena_id_is_suitable_def mi_arena_id_none_def
        mi_arena_alloc_def find_a arena8_def arena8_a_def outs0_def outs_a_def env0_def
        mi_bitmap_index_bit_def memid_1 mi_bitmap_unclaim_across_def mi_bitmap_claim_across_def
        clear_0 set_0 all_0 MI_ARENA_BLOCK_SIZE_def MI_SEGMENT_ALIGN_def Let_def)

lemma allocate_st8:
  "mi_arena_allocate env0 st8 0 16777216 MI_SEGMENT_ALIGN outs0 0
     = (4294967296,
        mi_arena_store st8 0 (arena8_a\<lparr>blocks_dirty := [1], blocks_committed := Some [1]\<rparr>)
          [Os_commit 4294967296 33554432],
        outs_a)"
proof -
  have i: "unat (mi_arena_id_index 0) = 64"
    by (simp add: mi_arena_id_index_def MI_MAX_ARENAS_def)
  have c: "mi_arena_count st8 = Suc 0" by (simp add: st8_def)
  have l: "large outs0 = False" by (simp add: outs0_def)
  have n: "numa_accepts True arena8 0" by (simp add: numa_accepts_def arena8_def)
  have g: "is_large arena8 = False" by (simp add: arena8_def)
  show ?thesis
    unfolding mi_arena_allocate_def Let_def i c block_count_16MiB
    by (subst mi_arena_allocate_loop.simps)
       (simp add: MI_MAX_ARENAS_def st8_load_0 n l g alloc_from_arena8)
qed


theorem alloc_aligned_arena_path_witness:
  "MI_ARENA_MIN_OBJ_SIZE = 16777216
   \<and> mi_arena_alloc_aligned env0 st8 16777216 MI_SEGMENT_ALIGN 0 outs0 0
       = (4294967296,
          mi_arena_store st8 0 (arena8_a\<lparr>blocks_dirty := [1], blocks_committed := Some [1]\<rparr>)
            [Os_commit 4294967296 33554432],
          outs_a)
   \<and> memid outs_a = 1
   \<and> mi_arenas (fst (snd (mi_arena_alloc_aligned env0 st8 16777215 MI_SEGMENT_ALIGN 0 outs0 0)))
       = mi_arenas st8
   \<and> memid (snd (snd (mi_arena_alloc_aligned env0 st8 16777215 MI_SEGMENT_ALIGN 0 outs0 0)))
       = MI_MEMID_OS
   \<and> events (fst (snd (mi_arena_alloc_aligned env0 st8 16777215 MI_SEGMENT_ALIGN 0 outs0 0)))
       = events st8 @ [Os_alloc_aligned_offset 16777215 MI_SEGMENT_ALIGN 0 True False]
   \<and> Os_alloc_aligned 33554432 MI_SEGMENT_ALIGN False False
       \<in> set (events (fst (snd (mi_arena_alloc_aligned env_reserve st0 16777216 MI_SEGMENT_ALIGN
                                    0 outs0 0))))"
proof -
  have m: "MI_ARENA_MIN_OBJ_SIZE = 16777216"
    by (simp add: MI_ARENA_MIN_OBJ_SIZE_def MI_ARENA_BLOCK_SIZE_def MI_SEGMENT_ALIGN_def)
  have o: "outs0\<lparr>memid := MI_MEMID_OS, is_zero := False, is_pinned := False\<rparr> = outs0"
    by (simp add: outs0_def MI_MEMID_OS_def)
  have e0: "os_numa_node env0 = 0" "option_limit_os_alloc env0 = False"
    by (simp_all add: env0_def)
  have a: "mi_arena_alloc_aligned env0 st8 16777216 MI_SEGMENT_ALIGN 0 outs0 0
       = (4294967296,
          mi_arena_store st8 0 (arena8_a\<lparr>blocks_dirty := [1], blocks_committed := Some [1]\<rparr>)
            [Os_commit 4294967296 33554432],
          outs_a)"
    using alloc_aligned_arena_path [of 16777216 MI_SEGMENT_ALIGN 0 outs0 env0 st8 0]
    by (simp add: Let_def m o allocate_st8 e0)
  have b: "mi_arenas (fst (snd (mi_arena_alloc_aligned env0 st8 16777215 MI_SEGMENT_ALIGN 0 outs0 0)))
       = mi_arenas st8
   \<and> memid (snd (snd (mi_arena_alloc_aligned env0 st8 16777215 MI_SEGMENT_ALIGN 0 outs0 0)))
       = MI_MEMID_OS
   \<and> events (fst (snd (mi_arena_alloc_aligned env0 st8 16777215 MI_SEGMENT_ALIGN 0 outs0 0)))
       = events st8 @ [Os_alloc_aligned_offset 16777215 MI_SEGMENT_ALIGN 0 True False]"
  proof -
    have g: "\<not> (MI_ARENA_MIN_OBJ_SIZE \<le> 16777215 \<and> MI_SEGMENT_ALIGN \<le> MI_SEGMENT_ALIGN
                \<and> (0 :: nat) = 0)"
      by (simp add: m)
    have oc: "commit outs0 = True" "large outs0 = False" by (simp_all add: outs0_def)
    note t = alloc_aligned_arena_path [of 16777215 MI_SEGMENT_ALIGN 0 outs0 env0 st8 0,
        unfolded Let_def, THEN conjunct1, rule_format, OF g, THEN conjunct2]
    show ?thesis using t by (simp add: e0 oc mi_arena_id_none_def)
  qed
  have al: "mi_arena_allocate env_reserve st0 (os_numa_node env_reserve) 16777216 MI_SEGMENT_ALIGN
              outs0 0 = (0, st0, outs0)"
    by (simp add: mi_arena_allocate_def st0_def)
  have eg: "mi_align_up (option_arena_reserve env_reserve) MI_ARENA_BLOCK_SIZE = 33554432"
    "mi_align_up 33554432 MI_ARENA_BLOCK_SIZE = 33554432"
    by (simp_all add: env_reserve_def mi_align_up_def mi_divide_up_def MI_ARENA_BLOCK_SIZE_def
          MI_SEGMENT_ALIGN_def)
  have c: "Os_alloc_aligned 33554432 MI_SEGMENT_ALIGN False False
       \<in> set (events (fst (snd (mi_arena_alloc_aligned env_reserve st0 16777216 MI_SEGMENT_ALIGN
                                    0 outs0 0))))"
    using alloc_aligned_arena_path [of 16777216 MI_SEGMENT_ALIGN 0 outs0 env_reserve st0 0]
    by (simp add: Let_def m o al eg mi_arena_id_none_def MI_MAX_ARENAS_def)
       (simp add: st0_def outs0_def)
  show ?thesis using m a b c by (simp add: outs_a_def)
qed

section \<open>The leftover bits of the last field\<close>

lemma inuse_kept_refl [simp]: "inuse_kept arena arena"
  by (simp add: inuse_kept_def)

lemma inuse_kept_trans:
  assumes "inuse_kept a b" and "inuse_kept b c"
  shows "inuse_kept a c"
  using assms by (simp add: inuse_kept_def)

lemma inuse_kept_trailing:
  assumes "inuse_kept arena arena'" and "trailing_claimed arena"
  shows "trailing_claimed arena'"
  using assms by (auto simp add: inuse_kept_def trailing_claimed_def list_all_iff)

lemma registry_load:
  assumes "registry_trailing_claimed st" and "mi_arenas_load st i = Some arena"
  shows "trailing_claimed arena"
proof -
  have "i < length (mi_arenas st)" "mi_arenas st ! i = Some arena"
    using assms(2) by (auto simp add: mi_arenas_load_def split: if_splits)
  then have "Some arena \<in> set (mi_arenas st)" by (metis nth_mem)
  with assms(1) show ?thesis
    by (auto simp add: registry_trailing_claimed_def list_all_iff)
qed

lemma registry_update:
  assumes "registry_trailing_claimed st" and "trailing_claimed arena'"
  shows "list_all (\<lambda>slot. case slot of None \<Rightarrow> True | Some arena \<Rightarrow> trailing_claimed arena)
           ((mi_arenas st)[i := Some arena'])"
proof -
  have "set ((mi_arenas st)[i := Some arena']) \<subseteq> insert (Some arena') (set (mi_arenas st))"
    by (rule set_update_subset_insert)
  with assms show ?thesis
    by (auto simp add: registry_trailing_claimed_def list_all_iff)
qed

lemma registry_store:
  assumes "registry_trailing_claimed st" and "trailing_claimed arena'"
  shows "registry_trailing_claimed (mi_arena_store st i arena' evs)"
  using registry_update [OF assms, of i]
  by (simp add: registry_trailing_claimed_def mi_arena_store_def)

lemma registry_emit [simp]:
  "registry_trailing_claimed (emit st evs) = registry_trailing_claimed st"
  by (simp add: registry_trailing_claimed_def emit_def)

text \<open>Claiming only sets bits.\<close>
lemma bitmap_bit_claimed_run:
  assumes "bitmap_bit bitmap i"
  shows "bitmap_bit (bitmap_write_run bitmap idx n True) i"
  using assms by (simp add: bitmap_bit_write_run)

lemma try_find_keeps:
  assumes "mi_bitmap_try_find_from_claim_across bitmap start_hint n = Some (bitmap', idx)"
    and "bitmap_bit bitmap i"
  shows "bitmap_bit bitmap' i"
  using assms
  by (auto simp add: mi_bitmap_try_find_from_claim_across_def Let_def bitmap_bit_claimed_run
        split: option.splits)

lemma mi_arena_alloc_kept:
  assumes "mi_arena_alloc arena blocks = Some (arena', bitmap_idx)"
  shows "inuse_kept arena arena'"
  using assms
  by (auto simp add: mi_arena_alloc_def Let_def inuse_kept_def try_find_keeps
        split: option.splits)

lemma mi_arena_alloc_from_kept:
  "inuse_kept arena
     (fst (snd (mi_arena_alloc_from env arena arena_index needed_bcount outs req_arena_id)))"
proof (cases "mi_arena_id_is_suitable (arena_id arena) (exclusive arena) req_arena_id")
  case False
  then show ?thesis by (simp add: mi_arena_alloc_from_def)
next
  case True
  show ?thesis
  proof (cases "mi_arena_alloc arena needed_bcount")
    case None
    with True show ?thesis by (simp add: mi_arena_alloc_from_def)
  next
    case (Some r)
    obtain arena1 bitmap_index where r: "r = (arena1, bitmap_index)" by (cases r) auto
    have k: "inuse_kept arena arena1" using Some r by (auto intro: mi_arena_alloc_kept)
    have "inuse_kept arena1
            (fst (snd (mi_arena_alloc_from env arena arena_index needed_bcount outs req_arena_id)))"
      using True Some r
      by (auto simp add: mi_arena_alloc_from_def Let_def inuse_kept_def split: option.splits)
    with k show ?thesis by (rule inuse_kept_trans)
  qed
qed

lemma registry_alloc_from:
  assumes "registry_trailing_claimed st" and "mi_arenas_load st i = Some arena"
    and "mi_arena_alloc_from env arena i bcount outs req = (p, arena', outs', evs)"
  shows "registry_trailing_claimed (mi_arena_store st i arena' evs)"
proof -
  have "inuse_kept arena arena'"
    using mi_arena_alloc_from_kept [of arena env i bcount outs req] assms(3) by simp
  then have "trailing_claimed arena'"
    using registry_load [OF assms(1,2)] by (rule inuse_kept_trailing)
  with assms(1) show ?thesis by (rule registry_store)
qed

lemma registry_allocate_loop:
  assumes "registry_trailing_claimed st"
  shows "registry_trailing_claimed
           (fst (snd (mi_arena_allocate_loop env local numa_node' bcount req max_arena i st outs)))"
  using assms
proof (induction env local numa_node' bcount req max_arena i st outs
         rule: mi_arena_allocate_loop.induct)
  case (1 env local numa_node' bcount req max_arena i st outs)
  let ?loop = "mi_arena_allocate_loop env local numa_node' bcount req max_arena"
  show ?case
  proof (cases "i < max_arena")
    case False
    then show ?thesis
      using "1.prems" by (subst mi_arena_allocate_loop.simps) simp
  next
    case lt: True
    show ?thesis
    proof (cases "mi_arenas_load st i")
      case None
      then show ?thesis
        using "1.prems" lt by (subst mi_arena_allocate_loop.simps) simp
    next
      case (Some arena)
      show ?thesis
      proof (cases "numa_accepts local arena numa_node' \<and> (large outs \<or> \<not> is_large arena)")
        case False
        have "?loop i st outs = ?loop (Suc i) st outs"
          using lt Some False by (subst mi_arena_allocate_loop.simps) auto
        then show ?thesis
          using "1.IH"(2) [OF lt Some False "1.prems"] by simp
      next
        case acc: True
        let ?af = "mi_arena_alloc_from env arena i bcount outs req"
        obtain p arena' outs' evs where af: "?af = (p, arena', outs', evs)"
          by (cases ?af) auto
        have inv': "registry_trailing_claimed (mi_arena_store st i arena' evs)"
          using "1.prems" Some af by (rule registry_alloc_from)
        show ?thesis
        proof (cases "p \<noteq> 0")
          case True
          have "?loop i st outs = (p, mi_arena_store st i arena' evs, outs')"
            using lt Some acc af True by (subst mi_arena_allocate_loop.simps) auto
          then show ?thesis using inv' by simp
        next
          case False
          have "?loop i st outs = ?loop (Suc i) (mi_arena_store st i arena' evs) outs'"
            using lt Some acc af False by (subst mi_arena_allocate_loop.simps) auto
          then show ?thesis
            using "1.IH"(1) [OF lt Some acc af [symmetric] refl refl False inv'] by simp
        qed
      qed
    qed
  qed
qed


lemma registry_allocate:
  assumes "registry_trailing_claimed st"
  shows "registry_trailing_claimed
           (fst (snd (mi_arena_allocate env st numa_node' sz alignment outs req)))"
proof -
  let ?bcount = "mi_block_count_of_size sz"
  let ?idx = "unat (mi_arena_id_index req)"
  show ?thesis
  proof (cases "mi_arena_count st = 0")
    case True
    then show ?thesis using assms by (simp add: mi_arena_allocate_def Let_def)
  next
    case nz: False
    show ?thesis
    proof (cases "?idx < MI_MAX_ARENAS")
      case True
      show ?thesis
      proof (cases "mi_arenas_load st ?idx")
        case None
        then show ?thesis using assms nz True by (simp add: mi_arena_allocate_def Let_def)
      next
        case (Some arena)
        let ?af = "mi_arena_alloc_from env arena ?idx ?bcount outs req"
        obtain p arena' outs' evs where af: "?af = (p, arena', outs', evs)"
          by (cases ?af) auto
        have "registry_trailing_claimed (mi_arena_store st ?idx arena' evs)"
          using assms Some af by (rule registry_alloc_from)
        then show ?thesis
          using assms nz True Some af by (simp add: mi_arena_allocate_def Let_def)
      qed
    next
      case False
      let ?l1 = "mi_arena_allocate_loop env True numa_node' ?bcount req (mi_arena_count st) 0
                   st outs"
      obtain p st1 outs1 where l1: "?l1 = (p, st1, outs1)" by (cases ?l1) auto
      have i1: "registry_trailing_claimed st1"
        using registry_allocate_loop [OF assms, of env True numa_node' ?bcount req
                "mi_arena_count st" 0 outs] l1 by simp
      have i2: "registry_trailing_claimed
                  (fst (snd (mi_arena_allocate_loop env False numa_node' ?bcount req
                               (mi_arena_count st) 0 st1 outs1)))"
        using i1 by (rule registry_allocate_loop)
      show ?thesis
        using nz False l1 i1 i2 by (simp add: mi_arena_allocate_def Let_def)
    qed
  qed
qed

lemma registry_alloc_in:
  assumes "registry_trailing_claimed st"
  shows "registry_trailing_claimed
           (fst (snd (mi_arena_alloc_in env st arena_id' numa_node' sz alignment outs req)))"
proof -
  let ?idx = "unat (mi_arena_id_index arena_id')"
  show ?thesis
  proof (cases "mi_arenas_load st ?idx")
    case None
    then show ?thesis using assms by (simp add: mi_arena_alloc_in_def Let_def)
  next
    case (Some arena)
    let ?af = "mi_arena_alloc_from env arena ?idx (mi_block_count_of_size sz) outs req"
    obtain p arena' outs' evs where af: "?af = (p, arena', outs', evs)"
      by (cases ?af) auto
    have "registry_trailing_claimed (mi_arena_store st ?idx arena' evs)"
      using assms Some af by (rule registry_alloc_from)
    then show ?thesis
      using assms Some af by (simp add: mi_arena_alloc_in_def Let_def)
  qed
qed

lemma registry_alloc_aligned_os:
  assumes "registry_trailing_claimed st"
  shows "registry_trailing_claimed
           (fst (snd (mi_arena_alloc_aligned_os env st sz alignment align_offset outs req)))"
  using assms mi_arena_alloc_aligned_os_result [of env st sz alignment align_offset outs req]
  by (simp add: registry_trailing_claimed_def)

lemma leftover_claimed:
  assumes "nfields = mi_divide_up bcount MI_BITMAP_FIELD_BITS"
    and "post = nfields * MI_BITMAP_FIELD_BITS - bcount"
    and "inuse = (if post > 0
                  then fst (mi_bitmap_claim (replicate nfields 0) post
                              (mi_bitmap_index_create (nfields - 1) (MI_BITMAP_FIELD_BITS - post)))
                  else replicate nfields 0)"
  shows "list_all (bitmap_bit inuse) [bcount ..< nfields * MI_BITMAP_FIELD_BITS]"
proof (cases "post > 0")
  case False
  then have "nfields * MI_BITMAP_FIELD_BITS \<le> bcount" using assms(2) by simp
  then show ?thesis by simp
next
  case True
  have n64: "nfields * 64 \<le> bcount + 63" "bcount \<le> nfields * 64"
    using assms(1) by (simp_all add: mi_divide_up_def MI_BITMAP_FIELD_BITS_def)
  have p: "post = nfields * 64 - bcount" using assms(2) by (simp add: MI_BITMAP_FIELD_BITS_def)
  have idx: "mi_bitmap_index_create (nfields - 1) (MI_BITMAP_FIELD_BITS - post) = bcount"
    using True n64 p
    by (simp add: mi_bitmap_index_create_def MI_BITMAP_FIELD_BITS_def; presburger)
  have i: "inuse = bitmap_write_run (replicate nfields 0) bcount post True"
    using True assms(3) idx by (simp add: mi_bitmap_claim_def mi_bitmap_claim_across_def)
  have "\<And>j. bcount \<le> j \<Longrightarrow> j < nfields * MI_BITMAP_FIELD_BITS \<Longrightarrow> bitmap_bit inuse j"
  proof -
    fix j assume j: "bcount \<le> j" "j < nfields * MI_BITMAP_FIELD_BITS"
    then have "mi_bitmap_index_field j < nfields"
      by (simp add: mi_bitmap_index_field_def MI_BITMAP_FIELD_BITS_def less_mult_imp_div_less)
    moreover have "j < bcount + post" using j p n64 by (simp add: MI_BITMAP_FIELD_BITS_def)
    ultimately show "bitmap_bit inuse j"
      using j(1) unfolding i by (simp add: bitmap_bit_write_run)
  qed
  then show ?thesis by (simp add: list_all_iff)
qed


lemma trailing_claimed_arena_id [simp]:
  "trailing_claimed (arena\<lparr>arena_id := x\<rparr>) = trailing_claimed arena"
  by (simp add: trailing_claimed_def)

lemma registry_add:
  assumes "registry_trailing_claimed st" and "trailing_claimed arena"
  shows "registry_trailing_claimed (snd (snd (mi_arena_add st arena)))"
proof (cases "mi_arena_count st \<ge> MI_MAX_ARENAS")
  case True
  then show ?thesis using assms(1) by (simp add: mi_arena_add_def)
next
  case False
  have "trailing_claimed (arena\<lparr>arena_id := mi_arena_id_create (mi_arena_count st)\<rparr>)"
    using assms(2) by simp
  from registry_update [OF assms(1) this, of "mi_arena_count st"] False show ?thesis
    by (simp add: mi_arena_add_def Let_def registry_trailing_claimed_def)
qed

lemma mi_arena_add_slot:
  assumes "mi_arena_add st arena = (True, aid, st')"
    and "length (mi_arenas st) = MI_MAX_ARENAS"
  shows "mi_arenas_load st' (mi_arena_count st)
           = Some (arena\<lparr>arena_id := mi_arena_id_create (mi_arena_count st)\<rparr>)"
  using assms
  by (auto simp add: mi_arena_add_def Let_def mi_arenas_load_def split: if_splits)

text \<open>The descriptor that \<open>mi_manage_os_memory_ex\<close> builds before it is added.\<close>
lemma manage_unfold:
  assumes "\<not> sz < MI_ARENA_BLOCK_SIZE"
    and "allow = (\<not> is_large' \<and> \<not> (if is_large' then True else is_committed))"
    and "os_alloc_ok env ((if allow then 4 else 2) * mi_divide_up (sz div MI_ARENA_BLOCK_SIZE)
                                                    MI_BITMAP_FIELD_BITS)"
  shows "\<exists>arena. mi_manage_os_memory_ex env st start' sz is_committed is_large' is_zero' numa_node'
                   exclusive'
                 = mi_arena_add
                     (emit st [Os_alloc ((if allow then 4 else 2)
                                 * mi_divide_up (sz div MI_ARENA_BLOCK_SIZE) MI_BITMAP_FIELD_BITS)])
                     arena
               \<and> block_count arena = sz div MI_ARENA_BLOCK_SIZE
               \<and> field_count arena = mi_divide_up (sz div MI_ARENA_BLOCK_SIZE) MI_BITMAP_FIELD_BITS
               \<and> trailing_claimed arena"
proof -
  define bcount where "bcount = sz div MI_ARENA_BLOCK_SIZE"
  define nfields where "nfields = mi_divide_up bcount MI_BITMAP_FIELD_BITS"
  define post where "post = nfields * MI_BITMAP_FIELD_BITS - bcount"
  define inuse where
    "inuse = (if post > 0
              then fst (mi_bitmap_claim (replicate nfields 0) post
                          (mi_bitmap_index_create (nfields - 1) (MI_BITMAP_FIELD_BITS - post)))
              else replicate nfields 0)"
  define arena where
    "arena = \<lparr> arena_id = mi_arena_id_none, exclusive = exclusive', start = start',
               block_count = bcount, field_count = nfields, numa_node = numa_node',
               is_zero_init = is_zero', allow_decommit = allow,
               is_large = is_large', search_idx = 0, purge_expire = 0,
               blocks_dirty = replicate nfields 0,
               blocks_committed =
                 (if (if \<not> allow then None else Some (replicate nfields (0 :: size_t))) \<noteq> None
                     \<and> (if is_large' then True else is_committed)
                  then Some (replicate nfields (- 1))
                  else (if \<not> allow then None else Some (replicate nfields 0))),
               blocks_purge = (if \<not> allow then None else Some (replicate nfields 0)),
               blocks_inuse = inuse \<rparr>"
  have l: "list_all (bitmap_bit inuse) [bcount ..< nfields * MI_BITMAP_FIELD_BITS]"
    using nfields_def post_def inuse_def by (rule leftover_claimed)
  have t: "trailing_claimed arena"
    using l by (simp add: trailing_claimed_def arena_def)
  have e: "mi_manage_os_memory_ex env st start' sz is_committed is_large' is_zero' numa_node'
             exclusive'
           = mi_arena_add (emit st [Os_alloc ((if allow then 4 else 2) * nfields)]) arena"
  proof (cases "post > 0")
    case True
    then show ?thesis
      using assms unfolding mi_manage_os_memory_ex_def Let_def
      by (simp add: arena_def inuse_def post_def nfields_def bcount_def)
  next
    case False
    then show ?thesis
      using assms unfolding mi_manage_os_memory_ex_def Let_def
      by (simp add: arena_def inuse_def post_def nfields_def bcount_def)
  qed
  show ?thesis
    using e t by (intro exI [of _ arena]) (simp add: arena_def nfields_def bcount_def)
qed

lemma registry_manage:
  assumes "registry_trailing_claimed st"
  shows "registry_trailing_claimed
           (snd (snd (mi_manage_os_memory_ex env st start' sz is_committed is_large' is_zero'
                        numa_node' exclusive')))"
proof (cases "sz < MI_ARENA_BLOCK_SIZE")
  case True
  then show ?thesis using assms by (simp add: mi_manage_os_memory_ex_def)
next
  case big: False
  define allow where "allow = (\<not> is_large' \<and> \<not> (if is_large' then True else is_committed))"
  let ?n = "(if allow then 4 else 2) * mi_divide_up (sz div MI_ARENA_BLOCK_SIZE)
                                          MI_BITMAP_FIELD_BITS"
  show ?thesis
  proof (cases "os_alloc_ok env ?n")
    case False
    then show ?thesis
      using assms big unfolding mi_manage_os_memory_ex_def Let_def allow_def by simp
  next
    case True
    obtain arena where a:
      "mi_manage_os_memory_ex env st start' sz is_committed is_large' is_zero' numa_node'
         exclusive' = mi_arena_add (emit st [Os_alloc ?n]) arena"
      "trailing_claimed arena"
      using manage_unfold [OF big allow_def True] by blast
    have "registry_trailing_claimed (emit st [Os_alloc ?n])" using assms by simp
    from registry_add [OF this a(2)] show ?thesis unfolding a(1) .
  qed
qed

lemma manage_registers:
  assumes "mi_manage_os_memory_ex env st start' sz is_committed is_large' is_zero' numa_node'
             exclusive' = (True, aid, st')"
    and "length (mi_arenas st) = MI_MAX_ARENAS"
  shows "\<exists>arena. mi_arenas_load st' (mi_arena_count st) = Some arena
               \<and> block_count arena = sz div MI_ARENA_BLOCK_SIZE
               \<and> field_count arena = mi_divide_up (sz div MI_ARENA_BLOCK_SIZE) MI_BITMAP_FIELD_BITS
               \<and> trailing_claimed arena"
proof -
  define allow where "allow = (\<not> is_large' \<and> \<not> (if is_large' then True else is_committed))"
  let ?n = "(if allow then 4 else 2) * mi_divide_up (sz div MI_ARENA_BLOCK_SIZE)
                                          MI_BITMAP_FIELD_BITS"
  have big: "\<not> sz < MI_ARENA_BLOCK_SIZE"
    using assms(1) by (auto simp add: mi_manage_os_memory_ex_def)
  have ok: "os_alloc_ok env ?n"
    using assms(1) big unfolding mi_manage_os_memory_ex_def Let_def allow_def
    by (auto split: if_splits)
  obtain arena where a:
    "mi_manage_os_memory_ex env st start' sz is_committed is_large' is_zero' numa_node'
       exclusive' = mi_arena_add (emit st [Os_alloc ?n]) arena"
    "block_count arena = sz div MI_ARENA_BLOCK_SIZE"
    "field_count arena = mi_divide_up (sz div MI_ARENA_BLOCK_SIZE) MI_BITMAP_FIELD_BITS"
    "trailing_claimed arena"
    using manage_unfold [OF big allow_def ok] by blast
  have add: "mi_arena_add (emit st [Os_alloc ?n]) arena = (True, aid, st')"
    using assms(1) a(1) by simp
  have len: "length (mi_arenas (emit st [Os_alloc ?n])) = MI_MAX_ARENAS"
    using assms(2) by (simp add: emit_def)
  have "mi_arenas_load st' (mi_arena_count st)
          = Some (arena\<lparr>arena_id := mi_arena_id_create (mi_arena_count st)\<rparr>)"
    using mi_arena_add_slot [OF add len] by (simp add: emit_def)
  then show ?thesis using a(2-4) by simp
qed

lemma registry_reserve:
  assumes "registry_trailing_claimed st"
  shows "registry_trailing_claimed
           (snd (snd (mi_reserve_os_memory_ex env st sz commit' allow_large exclusive')))"
proof -
  let ?sz1 = "mi_align_up sz MI_ARENA_BLOCK_SIZE"
  let ?os = "os_alloc_aligned env ?sz1 MI_SEGMENT_ALIGN commit' allow_large"
  let ?st1 = "emit st [Os_alloc_aligned ?sz1 MI_SEGMENT_ALIGN commit' allow_large]"
  show ?thesis
  proof (cases "fst ?os = 0")
    case True
    then show ?thesis using assms by (simp add: mi_reserve_os_memory_ex_def Let_def)
  next
    case False
    let ?m = "mi_manage_os_memory_ex env ?st1 (fst ?os) ?sz1 (snd ?os \<or> commit') (snd ?os) True
                (- 1) exclusive'"
    obtain ok aid st2 where m: "?m = (ok, aid, st2)" by (cases ?m) auto
    have "registry_trailing_claimed ?st1" using assms by simp
    then have "registry_trailing_claimed (snd (snd ?m))" by (rule registry_manage)
    then have "registry_trailing_claimed st2" using m by simp
    then show ?thesis
      using False m by (simp add: mi_reserve_os_memory_ex_def Let_def)
  qed
qed

lemma registry_alloc_aligned:
  assumes "registry_trailing_claimed st"
  shows "registry_trailing_claimed
           (fst (snd (mi_arena_alloc_aligned env st sz alignment align_offset outs req)))"
proof -
  let ?outs0 = "outs\<lparr>memid := MI_MEMID_OS, is_zero := False, is_pinned := False\<rparr>"
  let ?a = "mi_arena_allocate env st (os_numa_node env) sz alignment ?outs0 req"
  obtain p st1 outs1 where a: "?a = (p, st1, outs1)" by (cases ?a) auto
  have i1: "registry_trailing_claimed st1"
    using registry_allocate [OF assms, of env "os_numa_node env" sz alignment ?outs0 req] a
    by simp
  let ?eager = "mi_align_up (option_arena_reserve env) MI_ARENA_BLOCK_SIZE"
  let ?res = "mi_reserve_os_memory_ex env st1 ?eager False (large outs1) False"
  obtain err aid st2 where res: "?res = (err, aid, st2)" by (cases ?res) auto
  have i2: "registry_trailing_claimed st2"
    using registry_reserve [OF i1, of env ?eager False "large outs1" False] res by simp
  let ?in = "mi_arena_alloc_in env st2 aid (os_numa_node env) sz alignment outs1 req"
  obtain p' st3 outs3 where ain: "?in = (p', st3, outs3)" by (cases ?in) auto
  have i3: "registry_trailing_claimed st3"
    using registry_alloc_in [OF i2, of env aid "os_numa_node env" sz alignment outs1 req] ain
    by simp
  note os = registry_alloc_aligned_os [OF assms, of env sz alignment align_offset ?outs0 req]
    registry_alloc_aligned_os [OF i1, of env sz alignment align_offset outs1 req]
    registry_alloc_aligned_os [OF i2, of env sz alignment align_offset outs1 req]
    registry_alloc_aligned_os [OF i3, of env sz alignment align_offset outs3 req]
  show ?thesis
    using a res ain i1 i3 os
    by (auto simp add: mi_arena_alloc_aligned_def Let_def)
qed

lemma purge_range_loop_kept:
  assumes "mi_arena_purge_range_loop env idx endidx bitlen purge bitidx all_purged arena evs
             = Inr (full, arena', evs')"
  shows "inuse_kept arena arena'"
  using assms
proof (induction env idx endidx bitlen purge bitidx all_purged arena evs
         rule: mi_arena_purge_range_loop.induct)
  case (1 env idx endidx bitlen purge bitidx all_purged arena evs)
  let ?loop = "mi_arena_purge_range_loop env idx endidx bitlen purge"
  let ?n = "purge_range_count purge endidx bitidx 0"
  show ?case
  proof (cases "bitidx < endidx")
    case False
    then have "?loop bitidx all_purged arena evs = Inr (all_purged, arena, evs)"
      by (subst mi_arena_purge_range_loop.simps) simp
    with "1.prems" show ?thesis by simp
  next
    case lt: True
    show ?thesis
    proof (cases "?n > 0")
      case False
      have "?loop bitidx all_purged arena evs = ?loop (bitidx + (?n + 1)) all_purged arena evs"
        using lt False by (subst mi_arena_purge_range_loop.simps) (simp add: Let_def)
      with "1.prems" "1.IH"(2) [OF lt refl False] show ?thesis by simp
    next
      case pos: True
      let ?p = "mi_arena_purge env arena (mi_bitmap_index_create idx bitidx) ?n"
      show ?thesis
      proof (cases ?p)
        case (Inl f)
        have "?loop bitidx all_purged arena evs = Inl f"
          using lt pos Inl by (subst mi_arena_purge_range_loop.simps) (simp add: Let_def)
        with "1.prems" show ?thesis by simp
      next
        case (Inr r)
        obtain arena1 evs1 where r: "r = (arena1, evs1)" by (cases r) auto
        have k1: "inuse_kept arena arena1"
          using mi_arena_purge_frame [of env arena "mi_bitmap_index_create idx bitidx" ?n arena1
                  evs1] Inr r
          by (simp add: inuse_kept_def)
        have e: "?loop bitidx all_purged arena evs
                   = ?loop (bitidx + (?n + 1)) (if ?n = bitlen then True else all_purged) arena1
                       (evs @ evs1)"
          using lt pos Inr r by (subst mi_arena_purge_range_loop.simps) (simp add: Let_def)
        have "inuse_kept arena1 arena'"
          using "1.IH"(1) [OF lt refl pos Inr r [symmetric]] "1.prems" e by simp
        with k1 show ?thesis by (rule inuse_kept_trans)
      qed
    qed
  qed
qed

lemma purge_range_kept:
  assumes "mi_arena_purge_range env arena idx startidx bitlen purge = Inr (full, arena', evs')"
  shows "inuse_kept arena arena'"
  using assms unfolding mi_arena_purge_range_def by (rule purge_range_loop_kept)

lemma try_claim_keeps:
  assumes "mi_bitmap_try_claim bitmap n idx = Some bitmap'" and "bitmap_bit bitmap i"
  shows "bitmap_bit bitmap' i"
  using assms by (auto simp add: mi_bitmap_try_claim_def bitmap_bit_claimed_run split: if_splits)

lemma try_purge_claim_keeps:
  assumes "bitmap_bit inuse i"
  shows "bitmap_bit (snd (try_purge_claim inuse n idx)) i"
  using assms
  by (induction n) (auto simp add: try_claim_keeps split: option.splits)

lemma try_purge_bits_kept:
  assumes "mi_arena_try_purge_bits env i bitidx purge any_purged arena evs
             = Inr (purged, arena', evs')"
  shows "inuse_kept arena arena'"
  using assms
proof (induction env i bitidx purge any_purged arena evs rule: mi_arena_try_purge_bits.induct)
  case (1 env i bitidx purge any_purged arena evs)
  let ?loop = "mi_arena_try_purge_bits env i"
  show ?case
  proof (cases "bitidx < MI_BITMAP_FIELD_BITS")
    case False
    then have "?loop bitidx purge any_purged arena evs = Inr (any_purged, arena, evs)"
      by (subst mi_arena_try_purge_bits.simps) simp
    with "1.prems" show ?thesis by simp
  next
    case lt: True
    show ?thesis
    proof (cases "purge AND push_bit bitidx 1 \<noteq> 0")
      case False
      have "?loop bitidx purge any_purged arena evs = ?loop (bitidx + 1) purge any_purged arena evs"
        using lt False by (subst mi_arena_try_purge_bits.simps) simp
      with "1.prems" "1.IH"(3) [OF lt False] show ?thesis by simp
    next
      case set: True
      define bitlen where "bitlen = try_purge_bitlen purge bitidx 1"
      define bitmap_index where "bitmap_index = mi_bitmap_index_create i bitidx"
      define claimed where "claimed = try_purge_claim (blocks_inuse arena) bitlen bitmap_index"
      define arena1 where "arena1 = arena\<lparr>blocks_inuse := snd claimed\<rparr>"
      have k1: "inuse_kept arena arena1"
        unfolding arena1_def claimed_def
        by (simp add: inuse_kept_def try_purge_claim_keeps)
      show ?thesis
      proof (cases "fst claimed > 0")
        case False
        have "?loop bitidx purge any_purged arena evs
                = ?loop (bitidx + 1) purge any_purged arena1 evs"
          using lt set False
          by (subst mi_arena_try_purge_bits.simps)
             (simp add: Let_def bitlen_def bitmap_index_def claimed_def arena1_def)
        then have "inuse_kept arena1 arena'"
          using "1.prems"
            "1.IH"(2) [OF lt set bitlen_def bitmap_index_def claimed_def arena1_def False]
          by simp
        with k1 show ?thesis by (rule inuse_kept_trans)
      next
        case pos: True
        show ?thesis
        proof (cases "blocks_purge arena1")
          case None
          have "?loop bitidx purge any_purged arena evs = Inl Null_bitmap"
            using lt set pos None
            by (subst mi_arena_try_purge_bits.simps)
               (simp add: Let_def bitlen_def bitmap_index_def claimed_def arena1_def)
          with "1.prems" show ?thesis by simp
        next
          case (Some pb)
          define purge' where "purge' = bitmap_field pb i"
          let ?pr = "mi_arena_purge_range env arena1 i bitidx (fst claimed) purge'"
          show ?thesis
          proof (cases ?pr)
            case (Inl f)
            have "?loop bitidx purge any_purged arena evs = Inl f"
              using lt set pos Some Inl
              by (subst mi_arena_try_purge_bits.simps)
                 (simp add: Let_def bitlen_def bitmap_index_def claimed_def arena1_def purge'_def)
            with "1.prems" show ?thesis by simp
          next
            case (Inr r)
            obtain full arena2 evs2 where r: "r = (full, arena2, evs2)" by (cases r) auto
            have k2: "inuse_kept arena1 arena2"
              using Inr r by (auto intro: purge_range_kept)
            have e: "?loop bitidx purge any_purged arena evs
                       = ?loop (bitidx + fst claimed) purge' True arena2 (evs @ evs2)"
              using lt set pos Some Inr r
              by (subst mi_arena_try_purge_bits.simps)
                 (simp add: Let_def bitlen_def bitmap_index_def claimed_def arena1_def purge'_def)
            have r2: "(full, arena2, evs2) = r" using r by simp
            have "inuse_kept arena2 arena'"
              using "1.prems" e
                "1.IH"(1) [OF lt set bitlen_def bitmap_index_def claimed_def arena1_def pos Some
                             purge'_def Inr r2 refl]
              by simp
            with k1 k2 show ?thesis by (blast intro: inuse_kept_trans)
          qed
        qed
      qed
    qed
  qed
qed

lemma try_purge_fields_kept:
  assumes "mi_arena_try_purge_fields env nfields i any_purged arena evs
             = Inr (purged, arena', evs')"
  shows "inuse_kept arena arena'"
  using assms
proof (induction env nfields i any_purged arena evs rule: mi_arena_try_purge_fields.induct)
  case (1 env nfields i any_purged arena evs)
  let ?loop = "mi_arena_try_purge_fields env nfields"
  show ?case
  proof (cases "i < nfields")
    case False
    then have "?loop i any_purged arena evs = Inr (any_purged, arena, evs)"
      by (subst mi_arena_try_purge_fields.simps) simp
    with "1.prems" show ?thesis by simp
  next
    case lt: True
    show ?thesis
    proof (cases "blocks_purge arena")
      case None
      have "?loop i any_purged arena evs = Inl Null_bitmap"
        using lt None by (subst mi_arena_try_purge_fields.simps) simp
      with "1.prems" show ?thesis by simp
    next
      case (Some pb)
      define purge where "purge = bitmap_field pb i"
      show ?thesis
      proof (cases "purge \<noteq> 0")
        case False
        have "?loop i any_purged arena evs = ?loop (Suc i) any_purged arena evs"
          using lt Some False
          by (subst mi_arena_try_purge_fields.simps) (simp add: Let_def purge_def)
        with "1.prems" "1.IH"(2) [OF lt Some purge_def False] show ?thesis by simp
      next
        case nz: True
        let ?b = "mi_arena_try_purge_bits env i 0 purge any_purged arena evs"
        show ?thesis
        proof (cases ?b)
          case (Inl f)
          have "?loop i any_purged arena evs = Inl f"
            using lt Some nz Inl
            by (subst mi_arena_try_purge_fields.simps) (simp add: Let_def purge_def)
          with "1.prems" show ?thesis by simp
        next
          case (Inr r)
          obtain any1 arena1 evs1 where r: "(any1, arena1, evs1) = r" by (cases r) auto
          have k1: "inuse_kept arena arena1"
            using Inr r by (auto intro: try_purge_bits_kept)
          have e: "?loop i any_purged arena evs = ?loop (Suc i) any1 arena1 evs1"
            using lt Some nz Inr r [symmetric]
            by (subst mi_arena_try_purge_fields.simps) (simp add: Let_def purge_def)
          have "inuse_kept arena1 arena'"
            using "1.prems" e "1.IH"(1) [OF lt Some purge_def nz Inr r refl] by simp
          with k1 show ?thesis by (rule inuse_kept_trans)
        qed
      qed
    qed
  qed
qed

lemma inuse_kept_purge_expire [simp]: "inuse_kept arena (arena\<lparr>purge_expire := x\<rparr>)"
  by (simp add: inuse_kept_def)

lemma try_purge_kept:
  assumes "mi_arena_try_purge env arena now force = Inr (purged, arena', evs')"
  shows "inuse_kept arena arena'"
proof (cases "mi_arena_try_purge env arena now force
                = mi_arena_try_purge_fields env (field_count arena) 0 False
                    (arena\<lparr>purge_expire := 0\<rparr>) []")
  case True
  with assms have "inuse_kept (arena\<lparr>purge_expire := 0\<rparr>) arena'"
    by (auto intro: try_purge_fields_kept)
  then show ?thesis by (simp add: inuse_kept_def)
next
  case False
  then have "mi_arena_try_purge env arena now force = Inr (False, arena, [])"
    by (auto simp add: mi_arena_try_purge_def Let_def split: if_splits)
  with assms show ?thesis by simp
qed

lemma registry_try_purge_loop:
  assumes "registry_trailing_claimed st"
    and "mi_arenas_try_purge_loop env now force max_arena i max_purge_count st = Inr st'"
  shows "registry_trailing_claimed st'"
  using assms
proof (induction env now force max_arena i max_purge_count st
         rule: mi_arenas_try_purge_loop.induct)
  case (1 env now force max_arena i max_purge_count st)
  let ?loop = "mi_arenas_try_purge_loop env now force max_arena"
  show ?case
  proof (cases "i < max_arena")
    case False
    then have "?loop i max_purge_count st = Inr st"
      by (subst mi_arenas_try_purge_loop.simps) simp
    with "1.prems" show ?thesis by simp
  next
    case lt: True
    show ?thesis
    proof (cases "mi_arenas_load st i")
      case None
      have "?loop i max_purge_count st = Inl Null_arena"
        using lt None by (subst mi_arenas_try_purge_loop.simps) simp
      with "1.prems" show ?thesis by simp
    next
      case (Some arena)
      let ?t = "mi_arena_try_purge env arena now force"
      show ?thesis
      proof (cases ?t)
        case (Inl f)
        have "?loop i max_purge_count st = Inl f"
          using lt Some Inl by (subst mi_arenas_try_purge_loop.simps) simp
        with "1.prems" show ?thesis by simp
      next
        case (Inr r)
        obtain purged arena1 evs1 where r: "(purged, arena1, evs1) = r" by (cases r) auto
        have "inuse_kept arena arena1" using Inr r by (auto intro: try_purge_kept)
        then have "trailing_claimed arena1"
          using registry_load [OF "1.prems"(1) Some] by (rule inuse_kept_trailing)
        with "1.prems"(1) have inv1: "registry_trailing_claimed (mi_arena_store st i arena1 evs1)"
          by (rule registry_store)
        show ?thesis
        proof (cases purged)
          case False
          have e: "?loop i max_purge_count st
                     = ?loop (Suc i) max_purge_count (mi_arena_store st i arena1 evs1)"
            using lt Some Inr r [symmetric] False
            by (subst mi_arenas_try_purge_loop.simps) simp
          show ?thesis
            using "1.IH"(2) [OF lt Some Inr r refl False inv1] "1.prems"(2) e by simp
        next
          case True
          show ?thesis
          proof (cases "max_purge_count \<le> 1")
            case stop: True
            have "?loop i max_purge_count st = Inr (mi_arena_store st i arena1 evs1)"
              using lt Some Inr r [symmetric] True stop
              by (subst mi_arenas_try_purge_loop.simps) simp
            with "1.prems"(2) inv1 show ?thesis by simp
          next
            case more: False
            have e: "?loop i max_purge_count st
                       = ?loop (Suc i) (max_purge_count - 1) (mi_arena_store st i arena1 evs1)"
              using lt Some Inr r [symmetric] True more
              by (subst mi_arenas_try_purge_loop.simps) simp
            show ?thesis
              using "1.IH"(1) [OF lt Some Inr r refl True more inv1] "1.prems"(2) e by simp
          qed
        qed
      qed
    qed
  qed
qed

lemma registry_try_purge:
  assumes "registry_trailing_claimed st"
    and "mi_arenas_try_purge env st force visit_all = Inr st'"
  shows "registry_trailing_claimed st'"
proof (cases "mi_arenas_try_purge env st force visit_all = Inr st")
  case True
  with assms show ?thesis by simp
next
  case False
  then have "mi_arenas_try_purge env st force visit_all
               = mi_arenas_try_purge_loop env (clock_now env) force (mi_arena_count st) 0
                   (if visit_all then mi_arena_count st else 1) st"
    by (auto simp add: mi_arenas_try_purge_def Let_def split: if_splits)
  with assms show ?thesis by (auto intro: registry_try_purge_loop)
qed

lemma emit_Nil [simp]: "emit st [] = st"
  by (simp add: emit_def)

lemma mi_arena_free_result:
  assumes "mi_arena_free env st p sz alignment align_offset memid' all_committed = Inr st'"
    and "mi_arena_memid_indices memid' = (excl, arena_index, bitmap_index)"
  shows "(\<exists>evs. st' = emit st evs)
         \<or> (\<exists>arena arena1 evs evs2.
               mi_arenas_load st (unat arena_index) = Some arena
               \<and> block_count arena1 = block_count arena
               \<and> field_count arena1 = field_count arena
               \<and> st' = emit (mi_arena_store st (unat arena_index)
                               (arena1\<lparr>blocks_inuse :=
                                   bitmap_write_run (blocks_inuse arena) (unat bitmap_index)
                                     (mi_block_count_of_size sz) False\<rparr>) evs) evs2)"
proof (cases "p = 0 \<or> sz = 0 \<or> memid' = MI_MEMID_OS")
  case True
  then have "st' = emit st [] \<or> st' = emit st [Os_free_aligned p sz alignment align_offset
                                                  all_committed]"
    using assms(1) by (auto simp add: mi_arena_free_def split: if_splits)
  then show ?thesis by blast
next
  case ar: False
  have inb: "unat arena_index < MI_MAX_ARENAS"
    using ar assms by (auto simp add: mi_arena_free_def Let_def split: if_splits)
  show ?thesis
  proof (cases "mi_arenas_load st (unat arena_index)")
    case None
    then have "st' = emit st [Error_message EINVAL]"
      using ar inb assms by (auto simp add: mi_arena_free_def Let_def)
    then show ?thesis by blast
  next
    case (Some arena)
    show ?thesis
    proof (cases "field_count arena \<le> mi_bitmap_index_field (unat bitmap_index)")
      case True
      then have "st' = emit st [Error_message EINVAL]"
        using ar inb Some assms by (auto simp add: mi_arena_free_def Let_def)
      then show ?thesis by blast
    next
      case False
      define sched where
        "sched = (if \<not> allow_decommit arena \<or> blocks_committed arena = None
                  then Inr (arena, [])
                  else mi_arena_schedule_purge env arena (unat bitmap_index)
                         (mi_block_count_of_size sz))"
      have u: "mi_arena_free env st p sz alignment align_offset memid' all_committed
             = (case sched of
                  Inl f \<Rightarrow> Inl f
                | Inr (arena1, evs) \<Rightarrow>
                    let unclaimed = mi_bitmap_unclaim_across (blocks_inuse arena1)
                                      (mi_block_count_of_size sz) (unat bitmap_index);
                        st1 = mi_arena_store st (unat arena_index)
                                (arena1\<lparr>blocks_inuse := fst unclaimed\<rparr>) evs
                    in if \<not> snd unclaimed then Inr (emit st1 [Error_message EAGAIN])
                       else Inr st1)"
        using ar inb Some False
        unfolding sched_def mi_arena_free_def Let_def assms(2) fst_conv snd_conv
        by simp
      obtain arena1 evs where s: "sched = Inr (arena1, evs)"
        using assms(1) unfolding u by (cases sched) auto
      have fr: "blocks_inuse arena1 = blocks_inuse arena \<and> field_count arena1 = field_count arena
                \<and> block_count arena1 = block_count arena"
        using s mi_arena_schedule_purge_frame [of env arena "unat bitmap_index"
                  "mi_block_count_of_size sz" arena1 evs EAGAIN]
        by (auto simp add: sched_def split: if_splits)
      let ?st1 = "mi_arena_store st (unat arena_index)
                    (arena1\<lparr>blocks_inuse :=
                        bitmap_write_run (blocks_inuse arena) (unat bitmap_index)
                          (mi_block_count_of_size sz) False\<rparr>) evs"
      have "st' = emit ?st1 [Error_message EAGAIN] \<or> st' = emit ?st1 []"
        using assms(1) fr unfolding u s
        by (auto simp add: Let_def mi_bitmap_unclaim_across_def split: if_splits)
      then show ?thesis using Some fr by blast
    qed
  qed
qed

lemma registry_free:
  assumes "registry_trailing_claimed st"
    and "mi_arena_free env st p sz alignment align_offset memid' all_committed = Inr st'"
    and "mi_arena_memid_indices memid' = (excl, arena_index, bitmap_index)"
    and "\<forall>arena. mi_arenas_load st (unat arena_index) = Some arena
            \<longrightarrow> unat bitmap_index + mi_block_count_of_size sz \<le> block_count arena"
  shows "registry_trailing_claimed st'"
  using mi_arena_free_result [OF assms(2,3)]
proof (elim disjE exE conjE)
  fix evs assume "st' = emit st evs"
  then show ?thesis using assms(1) by simp
next
  fix arena arena1 :: mi_arena and evs evs2 :: "event list"
  let ?inuse' = "bitmap_write_run (blocks_inuse arena) (unat bitmap_index)
                   (mi_block_count_of_size sz) False"
  assume l: "mi_arenas_load st (unat arena_index) = Some arena"
    and b: "block_count arena1 = block_count arena"
    and f: "field_count arena1 = field_count arena"
    and s: "st' = emit (mi_arena_store st (unat arena_index) (arena1\<lparr>blocks_inuse := ?inuse'\<rparr>)
                          evs) evs2"
  have t: "trailing_claimed arena" using assms(1) l by (rule registry_load)
  have r: "unat bitmap_index + mi_block_count_of_size sz \<le> block_count arena"
    using assms(4) l by simp
  have "trailing_claimed (arena1\<lparr>blocks_inuse := ?inuse'\<rparr>)"
    using t r b f
    by (auto simp add: trailing_claimed_def list_all_iff bitmap_bit_write_run)
  with assms(1) show ?thesis unfolding s by (simp add: registry_store)
qed

lemma claim_56: "bitmap_write_run [0] 8 56 True = [0xFFFFFFFFFFFFFF00]"
  by code_simp

lemma register_arena8:
  "mi_manage_os_memory_ex env0 st0 4294967296 268435456 False False True (- 1) False
     = (True, 1, st8)"
  by (simp add: mi_manage_os_memory_ex_def Let_def MI_ARENA_BLOCK_SIZE_def MI_SEGMENT_ALIGN_def
        MI_BITMAP_FIELD_BITS_def mi_divide_up_def env0_def st0_def st8_def arena8_def
        mi_arena_add_def mi_arena_id_create_def mi_arena_id_none_def emit_def MI_MAX_ARENAS_def
        mi_bitmap_claim_def mi_bitmap_claim_across_def mi_bitmap_index_create_def claim_56)


lemma registry_st0: "registry_trailing_claimed st0"
  by (simp add: registry_trailing_claimed_def st0_def list_all_iff)

lemma registry_st8: "registry_trailing_claimed st8"
  using registry_manage [OF registry_st0, of env0 4294967296 268435456 False False True "- 1" False]
  by (simp add: register_arena8)

lemma indices_0x801: "mi_arena_memid_indices 0x801 = (False, 0, 8)"
  by (simp add: mi_arena_memid_indices_def mi_arena_id_index_def)

lemma free_beyond_block_count:
  "mi_arena_free env0 st8 4294967296 33554432 8388608 0 0x801 True = Inr st8_bad"
proof -
  have w1: "bitmap_write [0] 8 True = [256]" by code_simp
  have w2: "bitmap_write [0xFFFFFFFFFFFFFF00] 8 False = [0xFFFFFFFFFFFFFE00]" by code_simp
  have w3: "bitmap_run_all [0xFFFFFFFFFFFFFF00] 8 (Suc 0) True" by code_simp
  have s: "mi_arena_schedule_purge env0 arena8 8 (Suc 0)
             = Inr (arena8\<lparr>purge_expire := 1100, blocks_purge := Some [256]\<rparr>, [])"
    by (simp add: mi_arena_schedule_purge_def env0_def arena8_def Let_def
          mi_bitmap_claim_across_def w1)
  have a: "allow_decommit arena8" "blocks_committed arena8 \<noteq> None" "field_count arena8 = 1"
    "blocks_inuse arena8 = [0xFFFFFFFFFFFFFF00]"
    by (simp_all add: arena8_def)
  show ?thesis
    by (simp add: mi_arena_free_def MI_MEMID_OS_def indices_0x801 MI_MAX_ARENAS_def
          st8_load_0 block_count_32MiB mi_bitmap_index_field_def MI_BITMAP_FIELD_BITS_def a s
          mi_bitmap_unclaim_across_def w2 w3 Let_def)
       (simp add: mi_arena_store_def st8_bad_def arena8_bad_def st8_def MI_MAX_ARENAS_def
          arena8_def)
qed

lemma arena8_bad_bit8: "\<not> bitmap_bit (blocks_inuse arena8_bad) 8"
  by (simp add: arena8_bad_def bitmap_bit_def mi_bitmap_index_field_def MI_BITMAP_FIELD_BITS_def)

lemma st8_bad_load: "mi_arenas_load st8_bad 0 = Some arena8_bad"
  by (simp add: mi_arenas_load_def st8_bad_def MI_MAX_ARENAS_def)

text \<open>
  The claim as stated fails for a free whose run reaches beyond \<open>block_count\<close>:
  \<open>_mi_arena_free\<close> checks the field of the decoded index only. In the arena of 8
  blocks registered as in scenario 1, a free with the memory id \<open>0x801\<close> (block index
  8, in field 0) clears bit 8, one of the leftover bits, and reports no error.
\<close>
theorem free_clears_trailing_bit:
  "mi_manage_os_memory_ex env0 st0 4294967296 268435456 False False True (- 1) False
     = (True, 1, st8)
   \<and> mi_arenas_load st8 0 = Some arena8 \<and> block_count arena8 = 8
   \<and> bitmap_bit (blocks_inuse arena8) 8
   \<and> mi_arena_free env0 st8 4294967296 33554432 8388608 0 0x801 True = Inr st8_bad
   \<and> mi_arenas_load st8_bad 0 = Some arena8_bad \<and> block_count arena8_bad = 8
   \<and> \<not> bitmap_bit (blocks_inuse arena8_bad) 8"
proof -
  have "bitmap_bit (blocks_inuse arena8) 8"
    by (simp add: arena8_def bitmap_bit_def mi_bitmap_index_field_def MI_BITMAP_FIELD_BITS_def)
  moreover have "block_count arena8 = 8" "block_count arena8_bad = 8"
    by (simp_all add: arena8_def arena8_bad_def)
  ultimately show ?thesis
    using register_arena8 st8_load_0 free_beyond_block_count st8_bad_load arena8_bad_bit8
    by simp
qed

text \<open>
  Claim C6 (amended). An arena that \<open>mi_manage_os_memory_ex\<close> registers has every bit
  of \<open>blocks_inuse\<close> from \<open>block_count\<close> to the end of its last field set. If these
  bits are set in every arena of the registry, they are still set in every arena after a
  further registration, after \<open>_mi_arena_alloc_aligned\<close> (with its eager reservation),
  after \<open>mi_arenas_try_purge\<close>, and after a call of \<open>_mi_arena_free\<close> whose run
  ends at or before \<open>block_count\<close> of the arena it names.
\<close>
theorem trailing_bits_kept:
  "(length (mi_arenas st) = MI_MAX_ARENAS
      \<and> mi_manage_os_memory_ex env st start' sz0 is_committed is_large' is_zero' numa_node'
            exclusive' = (True, aid, st1) \<longrightarrow>
      (\<exists>arena. mi_arenas_load st1 (mi_arena_count st) = Some arena
          \<and> block_count arena = sz0 div MI_ARENA_BLOCK_SIZE
          \<and> field_count arena = mi_divide_up (sz0 div MI_ARENA_BLOCK_SIZE) MI_BITMAP_FIELD_BITS
          \<and> (\<forall>i. block_count arena \<le> i \<and> i < field_count arena * MI_BITMAP_FIELD_BITS
                 \<longrightarrow> bitmap_bit (blocks_inuse arena) i)))
   \<and> (registry_trailing_claimed st \<longrightarrow>
        registry_trailing_claimed
          (snd (snd (mi_manage_os_memory_ex env st start' sz0 is_committed is_large' is_zero'
                       numa_node' exclusive')))
        \<and> registry_trailing_claimed
            (fst (snd (mi_arena_alloc_aligned env st sz alignment align_offset outs req)))
        \<and> (\<forall>st'. mi_arenas_try_purge env st force visit_all = Inr st'
               \<longrightarrow> registry_trailing_claimed st')
        \<and> (\<forall>st'. mi_arena_free env st p sz alignment align_offset memid' all_committed = Inr st'
                 \<and> (\<forall>arena. mi_arenas_load st (unat (fst (snd (mi_arena_memid_indices memid'))))
                                = Some arena
                        \<longrightarrow> unat (snd (snd (mi_arena_memid_indices memid')))
                              + mi_block_count_of_size sz \<le> block_count arena)
               \<longrightarrow> registry_trailing_claimed st'))"
proof -
  have reg: "\<exists>arena. mi_arenas_load st1 (mi_arena_count st) = Some arena
          \<and> block_count arena = sz0 div MI_ARENA_BLOCK_SIZE
          \<and> field_count arena = mi_divide_up (sz0 div MI_ARENA_BLOCK_SIZE) MI_BITMAP_FIELD_BITS
          \<and> (\<forall>i. block_count arena \<le> i \<and> i < field_count arena * MI_BITMAP_FIELD_BITS
                 \<longrightarrow> bitmap_bit (blocks_inuse arena) i)"
    if "length (mi_arenas st) = MI_MAX_ARENAS"
      and "mi_manage_os_memory_ex env st start' sz0 is_committed is_large' is_zero' numa_node'
             exclusive' = (True, aid, st1)"
    using manage_registers [OF that(2,1)]
    by (auto simp add: trailing_claimed_def list_all_iff)
  have fr: "registry_trailing_claimed st'"
    if "registry_trailing_claimed st"
      and "mi_arena_free env st p sz alignment align_offset memid' all_committed = Inr st'"
      and "\<forall>arena. mi_arenas_load st (unat (fst (snd (mi_arena_memid_indices memid'))))
                                = Some arena
                        \<longrightarrow> unat (snd (snd (mi_arena_memid_indices memid')))
                              + mi_block_count_of_size sz \<le> block_count arena"
    for st'
  proof -
    obtain excl arena_index bitmap_index where
      i: "mi_arena_memid_indices memid' = (excl, arena_index, bitmap_index)"
      by (cases "mi_arena_memid_indices memid'") auto
    show ?thesis
      using registry_free [OF that(1,2) i] that(3) by (simp add: i)
  qed
  have c1: "length (mi_arenas st) = MI_MAX_ARENAS
      \<and> mi_manage_os_memory_ex env st start' sz0 is_committed is_large' is_zero' numa_node'
            exclusive' = (True, aid, st1) \<longrightarrow>
      (\<exists>arena. mi_arenas_load st1 (mi_arena_count st) = Some arena
          \<and> block_count arena = sz0 div MI_ARENA_BLOCK_SIZE
          \<and> field_count arena = mi_divide_up (sz0 div MI_ARENA_BLOCK_SIZE) MI_BITMAP_FIELD_BITS
          \<and> (\<forall>i. block_count arena \<le> i \<and> i < field_count arena * MI_BITMAP_FIELD_BITS
                 \<longrightarrow> bitmap_bit (blocks_inuse arena) i))"
    using reg by (intro impI) (elim conjE)
  have c2: "registry_trailing_claimed
          (snd (snd (mi_manage_os_memory_ex env st start' sz0 is_committed is_large' is_zero'
                       numa_node' exclusive')))"
    if "registry_trailing_claimed st"
    using that by (rule registry_manage)
  have c3: "registry_trailing_claimed
            (fst (snd (mi_arena_alloc_aligned env st sz alignment align_offset outs req)))"
    if "registry_trailing_claimed st"
    using that by (rule registry_alloc_aligned)
  have c4: "\<forall>st'. mi_arenas_try_purge env st force visit_all = Inr st'
               \<longrightarrow> registry_trailing_claimed st'"
    if "registry_trailing_claimed st"
    using registry_try_purge [OF that] by (intro allI impI)
  have c5: "\<forall>st'. mi_arena_free env st p sz alignment align_offset memid' all_committed = Inr st'
                 \<and> (\<forall>arena. mi_arenas_load st (unat (fst (snd (mi_arena_memid_indices memid'))))
                                = Some arena
                        \<longrightarrow> unat (snd (snd (mi_arena_memid_indices memid')))
                              + mi_block_count_of_size sz \<le> block_count arena)
               \<longrightarrow> registry_trailing_claimed st'"
    if "registry_trailing_claimed st"
    using fr [OF that] by (intro allI impI) (elim conjE)
  show ?thesis
  proof (rule conjI [OF c1], rule impI)
    assume i: "registry_trailing_claimed st"
    from c2 [OF i] c3 [OF i] c4 [OF i] c5 [OF i]
    show "registry_trailing_claimed
          (snd (snd (mi_manage_os_memory_ex env st start' sz0 is_committed is_large' is_zero'
                       numa_node' exclusive')))
        \<and> registry_trailing_claimed
            (fst (snd (mi_arena_alloc_aligned env st sz alignment align_offset outs req)))
        \<and> (\<forall>st'. mi_arenas_try_purge env st force visit_all = Inr st'
               \<longrightarrow> registry_trailing_claimed st')
        \<and> (\<forall>st'. mi_arena_free env st p sz alignment align_offset memid' all_committed = Inr st'
                 \<and> (\<forall>arena. mi_arenas_load st (unat (fst (snd (mi_arena_memid_indices memid'))))
                                = Some arena
                        \<longrightarrow> unat (snd (snd (mi_arena_memid_indices memid')))
                              + mi_block_count_of_size sz \<le> block_count arena)
               \<longrightarrow> registry_trailing_claimed st')"
      by (intro conjI)
  qed
qed

lemma free_block0_st8:
  "mi_arena_free env0 st8 4294967296 33554432 8388608 0 1 True = Inr st8_freed"
proof -
  have w1: "bitmap_write [0] 0 True = [1]" by code_simp
  have w2: "bitmap_write [0xFFFFFFFFFFFFFF00] 0 False = [0xFFFFFFFFFFFFFF00]" by code_simp
  have w3: "\<not> bitmap_run_all [0xFFFFFFFFFFFFFF00] 0 (Suc 0) True" by code_simp
  have s: "mi_arena_schedule_purge env0 arena8 0 (Suc 0)
             = Inr (arena8\<lparr>purge_expire := 1100, blocks_purge := Some [1]\<rparr>, [])"
    by (simp add: mi_arena_schedule_purge_def env0_def arena8_def Let_def
          mi_bitmap_claim_across_def w1)
  have a: "allow_decommit arena8" "blocks_committed arena8 \<noteq> None" "field_count arena8 = 1"
    "blocks_inuse arena8 = [0xFFFFFFFFFFFFFF00]"
    by (simp_all add: arena8_def)
  show ?thesis
    by (simp add: mi_arena_free_def MI_MEMID_OS_def indices_1 MI_MAX_ARENAS_def
          st8_load_0 block_count_32MiB mi_bitmap_index_field_def MI_BITMAP_FIELD_BITS_def a s
          mi_bitmap_unclaim_across_def w2 w3 Let_def)
       (simp add: mi_arena_store_def emit_def st8_freed_def st8_def MI_MAX_ARENAS_def arena8_def)
qed

lemma try_purge_st8: "mi_arenas_try_purge env0 st8 False True = Inr st8"
proof -
  have t: "mi_arena_try_purge env0 arena8 1000 False = Inr (False, arena8, [])"
    by (simp add: mi_arena_try_purge_def arena8_def)
  have e: "option_arena_purge_delay env0 = 100" "preloading env0 = False" "clock_now env0 = 1000"
    by (simp_all add: env0_def)
  have c: "mi_arena_count st8 = Suc 0" by (simp add: st8_def)
  have s: "mi_arena_store st8 0 arena8 [] = st8"
    by (simp add: mi_arena_store_def st8_def)
  show ?thesis
    unfolding mi_arenas_try_purge_def Let_def e c
    by (simp add: mi_arenas_try_purge_loop.simps st8_load_0 t s)
qed


theorem trailing_bits_kept_witness:
  "length (mi_arenas st0) = MI_MAX_ARENAS
   \<and> mi_manage_os_memory_ex env0 st0 4294967296 268435456 False False True (- 1) False
       = (True, 1, st8)
   \<and> mi_arenas_load st8 0 = Some arena8 \<and> block_count arena8 = 8
   \<and> bitmap_bit (blocks_inuse arena8) 63
   \<and> registry_trailing_claimed st0 \<and> registry_trailing_claimed st8
   \<and> registry_trailing_claimed
       (fst (snd (mi_arena_alloc_aligned env0 st8 16777216 MI_SEGMENT_ALIGN 0 outs0 0)))
   \<and> mi_arenas_try_purge env0 st8 False True = Inr st8
   \<and> mi_arena_free env0 st8 4294967296 33554432 8388608 0 1 True = Inr st8_freed
   \<and> registry_trailing_claimed st8_freed"
proof -
  have len: "length (mi_arenas st0) = MI_MAX_ARENAS" by (simp add: st0_def)
  have c0: "mi_arena_count st0 = 0" by (simp add: st0_def)
  have b8: "block_count arena8 = 8" "field_count arena8 = 1" by (simp_all add: arena8_def)
  note t0 = trailing_bits_kept [of st0 env0 4294967296 268435456 False False True "- 1" False 1
      st8 16777216 MI_SEGMENT_ALIGN 0 outs0 0 False True 4294967296 1 True]
  have "\<exists>arena. mi_arenas_load st8 (mi_arena_count st0) = Some arena
          \<and> (\<forall>i. block_count arena \<le> i \<and> i < field_count arena * MI_BITMAP_FIELD_BITS
                 \<longrightarrow> bitmap_bit (blocks_inuse arena) i)"
    using t0 [THEN conjunct1] len register_arena8 by blast
  then have bit: "bitmap_bit (blocks_inuse arena8) 63"
    using st8_load_0 b8 by (auto simp add: c0 MI_BITMAP_FIELD_BITS_def)
  have i8: "registry_trailing_claimed st8"
    using t0 [THEN conjunct2] registry_st0 by (simp add: register_arena8)
  note t8 = trailing_bits_kept [of st8 env0 4294967296 268435456 False False True "- 1" False 1
      st8 33554432 MI_SEGMENT_ALIGN 0 outs0 0 False True 4294967296 1 True,
      THEN conjunct2, rule_format, OF i8]
  note ta = trailing_bits_kept [of st8 env0 4294967296 268435456 False False True "- 1" False 1
      st8 16777216 MI_SEGMENT_ALIGN 0 outs0 0 False True 4294967296 1 True,
      THEN conjunct2, rule_format, OF i8]
  have ia: "registry_trailing_claimed
       (fst (snd (mi_arena_alloc_aligned env0 st8 16777216 MI_SEGMENT_ALIGN 0 outs0 0)))"
    using ta by blast
  have rng: "\<forall>arena. mi_arenas_load st8 (unat (fst (snd (mi_arena_memid_indices 1)))) = Some arena
               \<longrightarrow> unat (snd (snd (mi_arena_memid_indices 1))) + mi_block_count_of_size 33554432
                     \<le> block_count arena"
    by (simp add: indices_1 st8_load_0 block_count_32MiB b8)
  have fr: "mi_arena_free env0 st8 4294967296 33554432 MI_SEGMENT_ALIGN 0 1 True = Inr st8_freed"
    using free_block0_st8 by (simp add: MI_SEGMENT_ALIGN_def)
  have "registry_trailing_claimed st8_freed"
    using t8 fr rng by blast
  then show ?thesis
    using len register_arena8 st8_load_0 b8 bit registry_st0 i8 ia try_purge_st8 free_block0_st8
    by simp
qed

end
